theory Spec2Isabelle
  imports Main
begin

section \<open>API types used by the NonAdminBackup controller\<close>

text \<open>
  The controller of \<^verbatim>\<open>internal/controller/nonadminbackup_controller.go\<close> works on
  Kubernetes objects. Go structs are records, Go strings are \<^typ>\<open>string\<close>, a Go slice is
  a \<^typ>\<open>'a list option\<close> (\<^term>\<open>None\<close> is the nil slice, which \<^verbatim>\<open>reflect\<close> tells
  apart from an empty one), a Go pointer is an option, a Go map is a partial function and
  Go's \<^verbatim>\<open>int\<close> is \<^typ>\<open>int\<close> (the counters below count list elements and cannot
  overflow).
\<close>

record ObjectMeta =
  Name :: string
  GenerateName :: string
  Namespace :: string
  UID :: string
  Labels :: "string \<rightharpoonup> string"
  Annotations :: "(string \<rightharpoonup> string) option"
  Finalizers :: "string list"
  DeletionTimestamp :: "int option"

text \<open>
  \<^verbatim>\<open>velerov1.BackupSpec\<close> is a type of the Velero library. The record has every field
  the controller names and further fields of each Go kind the reflective merge meets
  (slice, string, pointer, duration); the library's remaining fields (metadata, label
  selectors, hooks, ordered resources, resource policy, uploader configuration) go through
  the same loop body and are left out.
\<close>

record BackupSpec =
  IncludedNamespaces :: "string list option"
  ExcludedNamespaces :: "string list option"
  IncludedResources :: "string list option"
  ExcludedResources :: "string list option"
  IncludedClusterScopedResources :: "string list option"
  ExcludedClusterScopedResources :: "string list option"
  IncludedNamespaceScopedResources :: "string list option"
  ExcludedNamespaceScopedResources :: "string list option"
  SnapshotVolumes :: "bool option"
  TTL :: int
  IncludeClusterResources :: "bool option"
  StorageLocation :: string
  VolumeSnapshotLocations :: "string list option"
  DefaultVolumesToFsBackup :: "bool option"
  SnapshotMoveData :: "bool option"
  DataMover :: string

record BackupStatus =
  bs_Phase :: string
  bs_Warnings :: int
  bs_Errors :: int

record Backup =
  b_ObjectMeta :: ObjectMeta
  b_Spec :: BackupSpec
  b_Status :: BackupStatus

record DeleteBackupRequestStatus =
  dbrs_Phase :: string
  dbrs_Errors :: "string list option"

record DeleteBackupRequest =
  dbr_ObjectMeta :: ObjectMeta
  dbr_BackupName :: string
  dbr_Status :: DeleteBackupRequestStatus

record PodVolumeBackup =
  pvb_ObjectMeta :: ObjectMeta
  pvb_Phase :: string

record DataUpload =
  du_ObjectMeta :: ObjectMeta
  du_Phase :: string

record NonAdminRestore =
  nar_ObjectMeta :: ObjectMeta
  nar_BackupName :: string

text \<open>
  Of a \<^verbatim>\<open>NonAdminBackupStorageLocation\<close> the controller reads only
  \<^verbatim>\<open>Status.VeleroBackupStorageLocation.Name\<close>.
\<close>

record NonAdminBackupStorageLocation =
  nabsl_ObjectMeta :: ObjectMeta
  nabsl_VeleroBackupStorageLocationName :: string

datatype NonAdminPhase =
  PhaseUnset | NonAdminPhaseNew | NonAdminPhaseBackingOff | NonAdminPhaseCreated
  | NonAdminPhaseDeleting

datatype ConditionStatus = ConditionTrue | ConditionFalse | ConditionUnknown

record Condition =
  c_Type :: string
  c_Status :: ConditionStatus
  c_Reason :: string
  c_Message :: string

record VeleroBackup =
  vb_NACUUID :: string
  vb_Namespace :: string
  vb_Name :: string
  vb_Spec :: "BackupSpec option"
  vb_Status :: "BackupStatus option"

record VeleroDeleteBackupRequest =
  vdbr_NACUUID :: string
  vdbr_Namespace :: string
  vdbr_Name :: string
  vdbr_Status :: "DeleteBackupRequestStatus option"

record QueueInfo =
  EstimatedQueuePosition :: int

record FileSystemPodVolumeBackups =
  fs_Total :: int
  fs_New :: int
  fs_InProgress :: int
  fs_Failed :: int
  fs_Completed :: int

record DataMoverDataUploads =
  dm_Total :: int
  dm_New :: int
  dm_Accepted :: int
  dm_Prepared :: int
  dm_InProgress :: int
  dm_Canceling :: int
  dm_Canceled :: int
  dm_Failed :: int
  dm_Completed :: int

record NonAdminBackupStatus =
  Phase :: NonAdminPhase
  Conditions :: "Condition list"
  VeleroBackupRef :: "VeleroBackup option"
  VeleroDeleteBackupRequestRef :: "VeleroDeleteBackupRequest option"
  QueueInfoRef :: "QueueInfo option"
  FileSystemPodVolumeBackupsRef :: "FileSystemPodVolumeBackups option"
  DataMoverDataUploadsRef :: "DataMoverDataUploads option"

record NonAdminBackupSpec =
  BackupSpecRef :: BackupSpec
  DeleteBackup :: bool

record NonAdminBackup =
  nab_ObjectMeta :: ObjectMeta
  nab_Spec :: NonAdminBackupSpec
  nab_Status :: NonAdminBackupStatus

section \<open>Child-resource counters\<close>

text \<open>The phase constants of the Velero library, as the strings they are.\<close>

definition PodVolumeBackupPhaseNew :: string where
  "PodVolumeBackupPhaseNew = ''New''"

definition PodVolumeBackupPhaseInProgress :: string where
  "PodVolumeBackupPhaseInProgress = ''InProgress''"

definition PodVolumeBackupPhaseFailed :: string where
  "PodVolumeBackupPhaseFailed = ''Failed''"

definition PodVolumeBackupPhaseCompleted :: string where
  "PodVolumeBackupPhaseCompleted = ''Completed''"

definition DataUploadPhaseNew :: string where
  "DataUploadPhaseNew = ''New''"

definition DataUploadPhaseAccepted :: string where
  "DataUploadPhaseAccepted = ''Accepted''"

definition DataUploadPhasePrepared :: string where
  "DataUploadPhasePrepared = ''Prepared''"

definition DataUploadPhaseInProgress :: string where
  "DataUploadPhaseInProgress = ''InProgress''"

definition DataUploadPhaseCanceling :: string where
  "DataUploadPhaseCanceling = ''Canceling''"

definition DataUploadPhaseCanceled :: string where
  "DataUploadPhaseCanceled = ''Canceled''"

definition DataUploadPhaseFailed :: string where
  "DataUploadPhaseFailed = ''Failed''"

definition DataUploadPhaseCompleted :: string where
  "DataUploadPhaseCompleted = ''Completed''"

text \<open>
  The \<^verbatim>\<open>for ... range\<close> loop of \<^verbatim>\<open>updateNonAdminBackupPodVolumeBackupStatus\<close> with
  its four local counters \<^verbatim>\<open>numberOfNew\<close>, \<^verbatim>\<open>numberOfInProgress\<close>,
  \<^verbatim>\<open>numberOfFailed\<close>, \<^verbatim>\<open>numberOfCompleted\<close>; the \<^verbatim>\<open>default\<close> case continues.
\<close>

fun countPodVolumeBackups ::
  "PodVolumeBackup list \<Rightarrow> int \<times> int \<times> int \<times> int \<Rightarrow> int \<times> int \<times> int \<times> int" where
  "countPodVolumeBackups [] acc = acc"
| "countPodVolumeBackups (p # ps) (n, i, f, c) =
     (if pvb_Phase p = PodVolumeBackupPhaseNew then countPodVolumeBackups ps (n + 1, i, f, c)
      else if pvb_Phase p = PodVolumeBackupPhaseInProgress
        then countPodVolumeBackups ps (n, i + 1, f, c)
      else if pvb_Phase p = PodVolumeBackupPhaseFailed
        then countPodVolumeBackups ps (n, i, f + 1, c)
      else if pvb_Phase p = PodVolumeBackupPhaseCompleted
        then countPodVolumeBackups ps (n, i, f, c + 1)
      else countPodVolumeBackups ps (n, i, f, c))"

text \<open>One guarded assignment \<^verbatim>\<open>if field != value { field = value; updated = true }\<close>.\<close>

definition setIfChanged :: "int \<Rightarrow> int \<Rightarrow> bool \<Rightarrow> int \<times> bool" where
  "setIfChanged field val updated = (if field \<noteq> val then (val, True) else (field, updated))"

definition emptyFileSystemPodVolumeBackups :: FileSystemPodVolumeBackups where
  "emptyFileSystemPodVolumeBackups =
     \<lparr>fs_Total = 0, fs_New = 0, fs_InProgress = 0, fs_Failed = 0, fs_Completed = 0\<rparr>"

definition updateNonAdminBackupPodVolumeBackupStatus ::
  "NonAdminBackupStatus \<Rightarrow> PodVolumeBackup list \<Rightarrow> NonAdminBackupStatus \<times> bool" where
  "updateNonAdminBackupPodVolumeBackupStatus status items =
     (let fs = (case FileSystemPodVolumeBackupsRef status of
                  None \<Rightarrow> emptyFileSystemPodVolumeBackups | Some x \<Rightarrow> x);
          (total, u0) = setIfChanged (fs_Total fs) (int (length items)) False;
          (numberOfNew, numberOfInProgress, numberOfFailed, numberOfCompleted) =
             countPodVolumeBackups items (0, 0, 0, 0);
          (new, u1) = setIfChanged (fs_New fs) numberOfNew u0;
          (inProgress, u2) = setIfChanged (fs_InProgress fs) numberOfInProgress u1;
          (failed, u3) = setIfChanged (fs_Failed fs) numberOfFailed u2;
          (completed, u4) = setIfChanged (fs_Completed fs) numberOfCompleted u3
      in (status\<lparr>FileSystemPodVolumeBackupsRef :=
                    Some \<lparr>fs_Total = total, fs_New = new, fs_InProgress = inProgress,
                          fs_Failed = failed, fs_Completed = completed\<rparr>\<rparr>, u4))"

record duCounts =
  numberOfNew :: int
  numberOfAccepted :: int
  numberOfPrepared :: int
  numberOfInProgress :: int
  numberOfCanceling :: int
  numberOfCanceled :: int
  numberOfFailed :: int
  numberOfCompleted :: int

definition zeroDuCounts :: duCounts where
  "zeroDuCounts = \<lparr>numberOfNew = 0, numberOfAccepted = 0, numberOfPrepared = 0,
     numberOfInProgress = 0, numberOfCanceling = 0, numberOfCanceled = 0,
     numberOfFailed = 0, numberOfCompleted = 0\<rparr>"

definition countDataUpload :: "DataUpload \<Rightarrow> duCounts \<Rightarrow> duCounts" where
  "countDataUpload d k =
     (if du_Phase d = DataUploadPhaseNew then k\<lparr>numberOfNew := numberOfNew k + 1\<rparr>
      else if du_Phase d = DataUploadPhaseAccepted
        then k\<lparr>numberOfAccepted := numberOfAccepted k + 1\<rparr>
      else if du_Phase d = DataUploadPhasePrepared
        then k\<lparr>numberOfPrepared := numberOfPrepared k + 1\<rparr>
      else if du_Phase d = DataUploadPhaseInProgress
        then k\<lparr>numberOfInProgress := numberOfInProgress k + 1\<rparr>
      else if du_Phase d = DataUploadPhaseCanceling
        then k\<lparr>numberOfCanceling := numberOfCanceling k + 1\<rparr>
      else if du_Phase d = DataUploadPhaseCanceled
        then k\<lparr>numberOfCanceled := numberOfCanceled k + 1\<rparr>
      else if du_Phase d = DataUploadPhaseFailed
        then k\<lparr>numberOfFailed := numberOfFailed k + 1\<rparr>
      else if du_Phase d = DataUploadPhaseCompleted
        then k\<lparr>numberOfCompleted := numberOfCompleted k + 1\<rparr>
      else k)"

fun countDataUploads :: "DataUpload list \<Rightarrow> duCounts \<Rightarrow> duCounts" where
  "countDataUploads [] k = k"
| "countDataUploads (d # ds) k = countDataUploads ds (countDataUpload d k)"

definition emptyDataMoverDataUploads :: DataMoverDataUploads where
  "emptyDataMoverDataUploads =
     \<lparr>dm_Total = 0, dm_New = 0, dm_Accepted = 0, dm_Prepared = 0, dm_InProgress = 0,
      dm_Canceling = 0, dm_Canceled = 0, dm_Failed = 0, dm_Completed = 0\<rparr>"

definition updateNonAdminBackupDataUploadStatus ::
  "NonAdminBackupStatus \<Rightarrow> DataUpload list \<Rightarrow> NonAdminBackupStatus \<times> bool" where
  "updateNonAdminBackupDataUploadStatus status items =
     (let dm = (case DataMoverDataUploadsRef status of
                  None \<Rightarrow> emptyDataMoverDataUploads | Some x \<Rightarrow> x);
          (total, u0) = setIfChanged (dm_Total dm) (int (length items)) False;
          k = countDataUploads items zeroDuCounts;
          (new, u1) = setIfChanged (dm_New dm) (numberOfNew k) u0;
          (accepted, u2) = setIfChanged (dm_Accepted dm) (numberOfAccepted k) u1;
          (prepared, u3) = setIfChanged (dm_Prepared dm) (numberOfPrepared k) u2;
          (inProgress, u4) = setIfChanged (dm_InProgress dm) (numberOfInProgress k) u3;
          (canceling, u5) = setIfChanged (dm_Canceling dm) (numberOfCanceling k) u4;
          (canceled, u6) = setIfChanged (dm_Canceled dm) (numberOfCanceled k) u5;
          (failed, u7) = setIfChanged (dm_Failed dm) (numberOfFailed k) u6;
          (completed, u8) = setIfChanged (dm_Completed dm) (numberOfCompleted k) u7
      in (status\<lparr>DataMoverDataUploadsRef :=
                    Some \<lparr>dm_Total = total, dm_New = new, dm_Accepted = accepted,
                          dm_Prepared = prepared, dm_InProgress = inProgress,
                          dm_Canceling = canceling, dm_Canceled = canceled,
                          dm_Failed = failed, dm_Completed = completed\<rparr>\<rparr>, u8))"

text \<open>
  \<^verbatim>\<open>updateNonAdminPhase\<close>: the pointer argument is the old phase, the results are the
  phase after the call and whether it changed.
\<close>

definition updateNonAdminPhase :: "NonAdminPhase \<Rightarrow> NonAdminPhase \<Rightarrow> NonAdminPhase \<times> bool" where
  "updateNonAdminPhase phase newPhase =
     (if phase = newPhase then (phase, False) else (newPhase, True))"

section \<open>Errors, conditions and finalizers\<close>

text \<open>
  A Go \<^verbatim>\<open>error\<close>: \<^verbatim>\<open>errors.New\<close> and the errors of the API client are
  \<open>Plain\<close> (\<open>NotFound\<close> is the one \<^verbatim>\<open>apierrors.IsNotFound\<close> recognises),
  \<^verbatim>\<open>reconcile.TerminalError\<close> wraps an error, and \<open>NilErrorPanic\<close> stands for the
  run-time panic of calling \<^verbatim>\<open>Error()\<close> on a nil error.
\<close>

datatype error = NotFound | Plain string | TerminalError error | NilErrorPanic

fun Error :: "error \<Rightarrow> string" where
  "Error NotFound = ''not found''"
| "Error (Plain m) = m"
| "Error (TerminalError e) = ''terminal error: '' @ Error e"
| "Error NilErrorPanic = ''invalid memory address or nil pointer dereference''"

fun isTerminal :: "error \<Rightarrow> bool" where
  "isTerminal (TerminalError e) = True"
| "isTerminal e = False"

text \<open>
  \<^verbatim>\<open>meta.SetStatusCondition\<close> and \<^verbatim>\<open>meta.IsStatusConditionTrue\<close> of the
  Kubernetes library, without the transition time and the observed generation (the
  controller never sets the latter): the first condition of the type is updated field by
  field, a missing one is appended, and the result says whether anything changed.
\<close>

fun SetStatusCondition :: "Condition list \<Rightarrow> Condition \<Rightarrow> Condition list \<times> bool" where
  "SetStatusCondition [] newCondition = ([newCondition], True)"
| "SetStatusCondition (c # cs) newCondition =
     (if c_Type c = c_Type newCondition
      then (c\<lparr>c_Status := c_Status newCondition, c_Reason := c_Reason newCondition,
               c_Message := c_Message newCondition\<rparr> # cs,
            c_Status c \<noteq> c_Status newCondition \<or> c_Reason c \<noteq> c_Reason newCondition
              \<or> c_Message c \<noteq> c_Message newCondition)
      else (case SetStatusCondition cs newCondition of (cs', changed) \<Rightarrow> (c # cs', changed)))"

fun IsStatusConditionTrue :: "Condition list \<Rightarrow> string \<Rightarrow> bool" where
  "IsStatusConditionTrue [] conditionType = False"
| "IsStatusConditionTrue (c # cs) conditionType =
     (if c_Type c = conditionType then c_Status c = ConditionTrue
      else IsStatusConditionTrue cs conditionType)"

text \<open>The condition types of \<^verbatim>\<open>nacv1alpha1\<close>.\<close>

definition NonAdminConditionAccepted :: string where
  "NonAdminConditionAccepted = ''Accepted''"

definition NonAdminConditionQueued :: string where
  "NonAdminConditionQueued = ''Queued''"

definition NonAdminConditionDeleting :: string where
  "NonAdminConditionDeleting = ''Deleting''"

text \<open>The finalizer helpers of \<^verbatim>\<open>controllerutil\<close>, on the finalizer list.\<close>

definition ContainsFinalizer :: "ObjectMeta \<Rightarrow> string \<Rightarrow> bool" where
  "ContainsFinalizer m f = (f \<in> set (Finalizers m))"

definition AddFinalizer :: "ObjectMeta \<Rightarrow> string \<Rightarrow> ObjectMeta" where
  "AddFinalizer m f = (if f \<in> set (Finalizers m) then m else m\<lparr>Finalizers := Finalizers m @ [f]\<rparr>)"

definition RemoveFinalizer :: "ObjectMeta \<Rightarrow> string \<Rightarrow> ObjectMeta" where
  "RemoveFinalizer m f = m\<lparr>Finalizers := filter (\<lambda>g. g \<noteq> f) (Finalizers m)\<rparr>"

text \<open>\<^verbatim>\<open>DeletionTimestamp.IsZero()\<close>: a nil pointer or the zero time.\<close>

definition timeIsZero :: "int option \<Rightarrow> bool" where
  "timeIsZero t = (case t of None \<Rightarrow> True | Some v \<Rightarrow> v = 0)"

section \<open>The cluster and the API client\<close>

text \<open>
  The API server's objects as the controller sees them: the tenant's NonAdminBackup under
  reconciliation, and the objects it lists or gets. The clock is the time the server
  stamps on a deletion.
\<close>

record cluster =
  tenantNab :: "NonAdminBackup option"
  backups :: "Backup list"
  deleteBackupRequests :: "DeleteBackupRequest list"
  podVolumeBackups :: "PodVolumeBackup list"
  dataUploads :: "DataUpload list"
  nonAdminRestores :: "NonAdminRestore list"
  nonAdminBackupStorageLocations :: "NonAdminBackupStorageLocation list"
  clock :: int

text \<open>Every write the controller sends to the API server, in the order it sends them.\<close>

datatype apiWrite =
  StatusUpdate NonAdminBackup
  | Update NonAdminBackup
  | DeleteNonAdminBackup NonAdminBackup
  | CreateBackup Backup
  | DeleteBackupObject Backup
  | CreateDeleteBackupRequest DeleteBackupRequest
  | DeleteDeleteBackupRequest DeleteBackupRequest
  | DeleteNonAdminRestore NonAdminRestore

text \<open>
  One reconciliation pass runs against the cluster, a schedule of API outcomes (each client
  call takes the next entry, \<^term>\<open>None\<close> or an exhausted schedule meaning success, so
  that every call can fail with any error) and the log of the writes that succeeded.
\<close>

record pass =
  cl :: cluster
  faults :: "error option list"
  writes :: "apiWrite list"

definition apiCall :: "pass \<Rightarrow> error option \<times> pass" where
  "apiCall s = (case faults s of [] \<Rightarrow> (None, s) | f # fs \<Rightarrow> (f, s\<lparr>faults := fs\<rparr>))"

text \<open>The key of an object: its namespace and name.\<close>

definition sameObject :: "ObjectMeta \<Rightarrow> ObjectMeta \<Rightarrow> bool" where
  "sameObject m m' = (Namespace m = Namespace m' \<and> Name m = Name m')"

text \<open>
  What the API server does with a write it accepts. A status update and an update carry
  the object as stored afterwards. An updated object whose deletion is pending goes away
  with its last finalizer. A deleted NonAdminBackup with a finalizer gets the deletion time
  stamped, without one it goes away. The other objects are added or removed by key.
\<close>

fun applyWrite :: "apiWrite \<Rightarrow> cluster \<Rightarrow> cluster" where
  "applyWrite (StatusUpdate new) c = c\<lparr>tenantNab := Some new\<rparr>"
| "applyWrite (Update new) c =
     c\<lparr>tenantNab := (if DeletionTimestamp (nab_ObjectMeta new) \<noteq> None
                          \<and> Finalizers (nab_ObjectMeta new) = []
                       then None else Some new)\<rparr>"
| "applyWrite (DeleteNonAdminBackup nab) c =
     (case tenantNab c of
        None \<Rightarrow> c
      | Some stored \<Rightarrow>
          (let m = nab_ObjectMeta stored
           in c\<lparr>tenantNab :=
                  (if Finalizers m = [] then None
                   else if DeletionTimestamp m \<noteq> None then Some stored
                   else Some (stored\<lparr>nab_ObjectMeta := m\<lparr>DeletionTimestamp := Some (clock c)\<rparr>\<rparr>))\<rparr>))"
| "applyWrite (CreateBackup b) c = c\<lparr>backups := backups c @ [b]\<rparr>"
| "applyWrite (DeleteBackupObject b) c =
     c\<lparr>backups := filter (\<lambda>x. \<not> sameObject (b_ObjectMeta x) (b_ObjectMeta b)) (backups c)\<rparr>"
| "applyWrite (CreateDeleteBackupRequest d) c =
     c\<lparr>deleteBackupRequests := deleteBackupRequests c @ [d]\<rparr>"
| "applyWrite (DeleteDeleteBackupRequest d) c =
     c\<lparr>deleteBackupRequests :=
         filter (\<lambda>x. \<not> sameObject (dbr_ObjectMeta x) (dbr_ObjectMeta d)) (deleteBackupRequests c)\<rparr>"
| "applyWrite (DeleteNonAdminRestore x) c =
     c\<lparr>nonAdminRestores :=
         filter (\<lambda>y. \<not> sameObject (nar_ObjectMeta y) (nar_ObjectMeta x)) (nonAdminRestores c)\<rparr>"

text \<open>An accepted write changes the cluster and is logged.\<close>

definition send :: "apiWrite \<Rightarrow> pass \<Rightarrow> pass" where
  "send w s = s\<lparr>cl := applyWrite w (cl s), writes := writes s @ [w]\<rparr>"

text \<open>\<^verbatim>\<open>r.Get\<close> of a NonAdminBackup by namespace and name.\<close>

definition clientGetNab :: "string \<Rightarrow> string \<Rightarrow> pass \<Rightarrow> (error + NonAdminBackup) \<times> pass" where
  "clientGetNab ns name s =
     (case apiCall s of
        (Some e, s1) \<Rightarrow> (Inl e, s1)
      | (None, s1) \<Rightarrow>
          (case tenantNab (cl s1) of
             None \<Rightarrow> (Inl NotFound, s1)
           | Some stored \<Rightarrow>
               if Namespace (nab_ObjectMeta stored) = ns \<and> Name (nab_ObjectMeta stored) = name
               then (Inr stored, s1) else (Inl NotFound, s1)))"

text \<open>
  \<^verbatim>\<open>r.Status().Update\<close>: the status subresource stores the status of the object sent,
  under its key, and answers with the stored object, which replaces the one in memory.
\<close>

definition clientStatusUpdate ::
  "NonAdminBackup \<Rightarrow> pass \<Rightarrow> error option \<times> NonAdminBackup \<times> pass" where
  "clientStatusUpdate nab s =
     (case apiCall s of
        (Some e, s1) \<Rightarrow> (Some e, nab, s1)
      | (None, s1) \<Rightarrow>
          (case tenantNab (cl s1) of
             None \<Rightarrow> (Some NotFound, nab, s1)
           | Some stored \<Rightarrow>
               if \<not> sameObject (nab_ObjectMeta stored) (nab_ObjectMeta nab)
               then (Some NotFound, nab, s1)
               else (None, stored\<lparr>nab_Status := nab_Status nab\<rparr>,
                     send (StatusUpdate (stored\<lparr>nab_Status := nab_Status nab\<rparr>)) s1)))"

text \<open>\<^verbatim>\<open>r.Update\<close>: stores metadata and spec and keeps the stored status.\<close>

definition clientUpdate ::
  "NonAdminBackup \<Rightarrow> pass \<Rightarrow> error option \<times> NonAdminBackup \<times> pass" where
  "clientUpdate nab s =
     (case apiCall s of
        (Some e, s1) \<Rightarrow> (Some e, nab, s1)
      | (None, s1) \<Rightarrow>
          (case tenantNab (cl s1) of
             None \<Rightarrow> (Some NotFound, nab, s1)
           | Some stored \<Rightarrow>
               if \<not> sameObject (nab_ObjectMeta stored) (nab_ObjectMeta nab)
               then (Some NotFound, nab, s1)
               else (None, nab\<lparr>nab_Status := nab_Status stored\<rparr>,
                     send (Update (nab\<lparr>nab_Status := nab_Status stored\<rparr>)) s1)))"

text \<open>
  \<^verbatim>\<open>r.Delete\<close> of the NonAdminBackup. The object in memory is not refreshed.
\<close>

definition clientDeleteNab :: "NonAdminBackup \<Rightarrow> pass \<Rightarrow> error option \<times> pass" where
  "clientDeleteNab nab s =
     (case apiCall s of
        (Some e, s1) \<Rightarrow> (Some e, s1)
      | (None, s1) \<Rightarrow>
          (case tenantNab (cl s1) of
             None \<Rightarrow> (Some NotFound, s1)
           | Some stored \<Rightarrow>
               if \<not> sameObject (nab_ObjectMeta stored) (nab_ObjectMeta nab)
               then (Some NotFound, s1)
               else (None, send (DeleteNonAdminBackup nab) s1)))"

text \<open>\<^verbatim>\<open>r.Create\<close> of a Velero Backup; the name must be free.\<close>

definition clientCreateBackup :: "Backup \<Rightarrow> pass \<Rightarrow> error option \<times> pass" where
  "clientCreateBackup b s =
     (case apiCall s of
        (Some e, s1) \<Rightarrow> (Some e, s1)
      | (None, s1) \<Rightarrow>
          if list_ex (\<lambda>x. sameObject (b_ObjectMeta x) (b_ObjectMeta b)) (backups (cl s1))
          then (Some (Plain ''already exists''), s1)
          else (None, send (CreateBackup b) s1))"

definition clientDeleteBackup :: "Backup \<Rightarrow> pass \<Rightarrow> error option \<times> pass" where
  "clientDeleteBackup b s =
     (case apiCall s of
        (Some e, s1) \<Rightarrow> (Some e, s1)
      | (None, s1) \<Rightarrow> (None, send (DeleteBackupObject b) s1))"

definition clientDeleteDeleteBackupRequest ::
  "DeleteBackupRequest \<Rightarrow> pass \<Rightarrow> error option \<times> pass" where
  "clientDeleteDeleteBackupRequest d s =
     (case apiCall s of
        (Some e, s1) \<Rightarrow> (Some e, s1)
      | (None, s1) \<Rightarrow> (None, send (DeleteDeleteBackupRequest d) s1))"

definition clientDeleteNonAdminRestore ::
  "NonAdminRestore \<Rightarrow> pass \<Rightarrow> error option \<times> pass" where
  "clientDeleteNonAdminRestore x s =
     (case apiCall s of
        (Some e, s1) \<Rightarrow> (Some e, s1)
      | (None, s1) \<Rightarrow> (None, send (DeleteNonAdminRestore x) s1))"

text \<open>\<^verbatim>\<open>r.List\<close> in a namespace, optionally with a label selector of one label.\<close>

definition clientList ::
  "(cluster \<Rightarrow> 'a list) \<Rightarrow> ('a \<Rightarrow> ObjectMeta) \<Rightarrow> string \<Rightarrow> (string \<times> string) option \<Rightarrow> pass
     \<Rightarrow> (error + 'a list) \<times> pass" where
  "clientList objects meta ns selector s =
     (case apiCall s of
        (Some e, s1) \<Rightarrow> (Inl e, s1)
      | (None, s1) \<Rightarrow>
          (Inr (filter (\<lambda>x. Namespace (meta x) = ns
                         \<and> (case selector of None \<Rightarrow> True
                             | Some (k, v) \<Rightarrow> Labels (meta x) k = Some v))
                  (objects (cl s1))), s1))"

definition clientGetNabsl ::
  "string \<Rightarrow> string \<Rightarrow> pass \<Rightarrow> (error + NonAdminBackupStorageLocation) \<times> pass" where
  "clientGetNabsl ns name s =
     (case apiCall s of
        (Some e, s1) \<Rightarrow> (Inl e, s1)
      | (None, s1) \<Rightarrow>
          (case filter (\<lambda>x. Namespace (nabsl_ObjectMeta x) = ns \<and> Name (nabsl_ObjectMeta x) = name)
                  (nonAdminBackupStorageLocations (cl s1)) of
             [] \<Rightarrow> (Inl NotFound, s1)
           | x # xs \<Rightarrow> (Inr x, s1)))"

section \<open>The reconciler and the helpers it calls\<close>

record reconciler =
  EnforcedBackupSpec :: BackupSpec
  OADPNamespace :: string

text \<open>
  The packages \<^verbatim>\<open>internal/common/constant\<close> and \<^verbatim>\<open>internal/common/function\<close>
  and the Velero helpers are not part of the controller's file. Their constants and the
  helpers the controller only calls are parameters of the model: the label, annotation
  and finalizer names, the label validity check, the spec validation (which reads the
  cluster), the UUID generator, the label and annotation builders, the queue position,
  the label-value sanitizer and the name suffix the API server generates.
\<close>

record env =
  NabFinalizerName :: string
  NabSyncLabel :: string
  NabOriginNACUUIDLabel :: string
  NabOriginNamespaceAnnotation :: string
  BackupNameLabel :: string
  BackupUIDLabel :: string
  CheckLabelAnnotationValueIsValid :: "(string \<rightharpoonup> string) \<Rightarrow> string \<Rightarrow> bool"
  ValidateBackupSpec :: "cluster \<Rightarrow> string \<Rightarrow> NonAdminBackup \<Rightarrow> BackupSpec \<Rightarrow> error option"
  GenerateNacObjectUUID :: "string \<Rightarrow> string \<Rightarrow> string"
  GetNonAdminLabels :: "string \<rightharpoonup> string"
  GetNonAdminBackupAnnotations :: "ObjectMeta \<Rightarrow> (string \<rightharpoonup> string)"
  GetBackupQueueInfo :: "cluster \<Rightarrow> string \<Rightarrow> Backup \<Rightarrow> error + QueueInfo"
  GetValidName :: "string \<Rightarrow> string"
  generatedNameSuffix :: "cluster \<Rightarrow> string"

text \<open>
  Modelled from the spec: \<^verbatim>\<open>function.GetVeleroBackupByLabel\<close> is not in the
  controller's file. The spec's engine-side lookup lists the engine objects of the operator
  namespace by the UUID label: no match gives nil, one match gives the object, more than
  one is an error.
\<close>

definition GetVeleroBackupByLabel ::
  "env \<Rightarrow> string \<Rightarrow> string \<Rightarrow> pass \<Rightarrow> (error + Backup option) \<times> pass" where
  "GetVeleroBackupByLabel env ns uuid s =
     (case clientList backups b_ObjectMeta ns (Some (NabOriginNACUUIDLabel env, uuid)) s of
        (Inl e, s1) \<Rightarrow> (Inl e, s1)
      | (Inr [], s1) \<Rightarrow> (Inr None, s1)
      | (Inr [b], s1) \<Rightarrow> (Inr (Some b), s1)
      | (Inr (b # b' # bs), s1) \<Rightarrow>
          (Inl (Plain ''multiple VeleroBackup objects found with the same UUID label''), s1))"

text \<open>
  Modelled from the spec: \<^verbatim>\<open>function.GetVeleroDeleteBackupRequestByLabel\<close> is not in
  the controller's file; it is the same lookup over the delete-backup-requests.
\<close>

definition GetVeleroDeleteBackupRequestByLabel ::
  "env \<Rightarrow> string \<Rightarrow> string \<Rightarrow> pass \<Rightarrow> (error + DeleteBackupRequest option) \<times> pass" where
  "GetVeleroDeleteBackupRequestByLabel env ns uuid s =
     (case clientList deleteBackupRequests dbr_ObjectMeta ns
             (Some (NabOriginNACUUIDLabel env, uuid)) s of
        (Inl e, s1) \<Rightarrow> (Inl e, s1)
      | (Inr [], s1) \<Rightarrow> (Inr None, s1)
      | (Inr [d], s1) \<Rightarrow> (Inr (Some d), s1)
      | (Inr (d # d' # ds), s1) \<Rightarrow>
          (Inl (Plain ''multiple DeleteBackupRequest objects found with the same UUID label''), s1))"

text \<open>
  \<^verbatim>\<open>veleroclient.CreateRetryGenerateName\<close>: the server names the object from its
  \<^verbatim>\<open>GenerateName\<close>; the retries on a name collision are inside the generated suffix.
\<close>

definition CreateRetryGenerateName ::
  "env \<Rightarrow> DeleteBackupRequest \<Rightarrow> pass \<Rightarrow> error option \<times> DeleteBackupRequest \<times> pass" where
  "CreateRetryGenerateName env d s =
     (case apiCall s of
        (Some e, s1) \<Rightarrow> (Some e, d, s1)
      | (None, s1) \<Rightarrow>
          (let m = dbr_ObjectMeta d;
               named = d\<lparr>dbr_ObjectMeta := m\<lparr>Name := GenerateName m @ generatedNameSuffix env (cl s1)\<rparr>\<rparr>
           in (None, named, send (CreateDeleteBackupRequest named) s1)))"

type_synonym stepResult = "(bool \<times> error option) \<times> NonAdminBackup \<times> pass"

definition setPhase :: "NonAdminBackup \<Rightarrow> NonAdminPhase \<Rightarrow> NonAdminBackup" where
  "setPhase nab p = nab\<lparr>nab_Status := (nab_Status nab)\<lparr>Phase := p\<rparr>\<rparr>"

definition setConditions :: "NonAdminBackup \<Rightarrow> Condition list \<Rightarrow> NonAdminBackup" where
  "setConditions nab cs = nab\<lparr>nab_Status := (nab_Status nab)\<lparr>Conditions := cs\<rparr>\<rparr>"

text \<open>
  The pattern shared by five steps: set the phase, set one condition, and send the status
  when either changed. The result is the error of the update (if it ran and failed), the
  object in memory and the pass.
\<close>

definition setPhaseAndCondition ::
  "NonAdminBackup \<Rightarrow> NonAdminPhase \<Rightarrow> Condition \<Rightarrow> pass \<Rightarrow> error option \<times> NonAdminBackup \<times> pass" where
  "setPhaseAndCondition nab newPhase condition s =
     (case updateNonAdminPhase (Phase (nab_Status nab)) newPhase of
        (phase, updatedPhase) \<Rightarrow>
          (case SetStatusCondition (Conditions (nab_Status nab)) condition of
             (conditions, updatedCondition) \<Rightarrow>
               (let nab1 = setConditions (setPhase nab phase) conditions
                in if updatedPhase \<or> updatedCondition then clientStatusUpdate nab1 s
                   else (None, nab1, s))))"

subsection \<open>Deletion steps\<close>

definition setStatusAndConditionForDeletionAndCallDelete ::
  "env \<Rightarrow> reconciler \<Rightarrow> NonAdminBackup \<Rightarrow> pass \<Rightarrow> stepResult" where
  "setStatusAndConditionForDeletionAndCallDelete env r nab s =
     (case setPhaseAndCondition nab NonAdminPhaseDeleting
             \<lparr>c_Type = NonAdminConditionDeleting, c_Status = ConditionTrue,
              c_Reason = ''DeletionPending'', c_Message = ''backup accepted for deletion''\<rparr> s of
        (Some e, nab1, s1) \<Rightarrow> ((False, Some e), nab1, s1)
      | (None, nab1, s1) \<Rightarrow>
          if timeIsZero (DeletionTimestamp (nab_ObjectMeta nab1))
          then (case clientDeleteNab nab1 s1 of
                  (Some e, s2) \<Rightarrow> ((False, Some e), nab1, s2)
                | (None, s2) \<Rightarrow> ((True, None), nab1, s2))
          else ((False, None), nab1, s1))"

definition setStatusForDirectKubernetesAPIDeletion ::
  "env \<Rightarrow> reconciler \<Rightarrow> NonAdminBackup \<Rightarrow> pass \<Rightarrow> stepResult" where
  "setStatusForDirectKubernetesAPIDeletion env r nab s =
     (case setPhaseAndCondition nab NonAdminPhaseDeleting
             \<lparr>c_Type = NonAdminConditionDeleting, c_Status = ConditionTrue,
              c_Reason = ''DeletionPending'',
              c_Message = ''permanent backup deletion requires setting spec.deleteBackup to true''\<rparr> s of
        (Some e, nab1, s1) \<Rightarrow> ((False, Some e), nab1, s1)
      | (None, nab1, s1) \<Rightarrow> ((False, None), nab1, s1))"

text \<open>The loop of \<^verbatim>\<open>deleteNonAdminRestores\<close> over the listed restores.\<close>

fun deleteMatchingRestores :: "string \<Rightarrow> NonAdminRestore list \<Rightarrow> pass \<Rightarrow> error option \<times> pass" where
  "deleteMatchingRestores name [] s = (None, s)"
| "deleteMatchingRestores name (x # xs) s =
     (if nar_BackupName x = name
      then (case clientDeleteNonAdminRestore x s of
              (Some e, s1) \<Rightarrow> (Some e, s1)
            | (None, s1) \<Rightarrow> deleteMatchingRestores name xs s1)
      else deleteMatchingRestores name xs s)"

definition deleteNonAdminRestores ::
  "env \<Rightarrow> reconciler \<Rightarrow> NonAdminBackup \<Rightarrow> pass \<Rightarrow> stepResult" where
  "deleteNonAdminRestores env r nab s =
     (case clientList nonAdminRestores nar_ObjectMeta (Namespace (nab_ObjectMeta nab)) None s of
        (Inl e, s1) \<Rightarrow> ((False, Some e), nab, s1)
      | (Inr items, s1) \<Rightarrow>
          (case deleteMatchingRestores (Name (nab_ObjectMeta nab)) items s1 of
             (Some e, s2) \<Rightarrow> ((False, Some e), nab, s2)
           | (None, s2) \<Rightarrow> ((False, None), nab, s2)))"

definition removeNabFinalizerUponVeleroBackupDeletion ::
  "env \<Rightarrow> reconciler \<Rightarrow> NonAdminBackup \<Rightarrow> pass \<Rightarrow> stepResult" where
  "removeNabFinalizerUponVeleroBackupDeletion env r nab s =
     (case clientUpdate (nab\<lparr>nab_ObjectMeta :=
                               RemoveFinalizer (nab_ObjectMeta nab) (NabFinalizerName env)\<rparr>) s of
        (Some e, nab1, s1) \<Rightarrow> ((False, Some e), nab1, s1)
      | (None, nab1, s1) \<Rightarrow> ((False, None), nab1, s1))"

definition updateNonAdminBackupDeleteBackupRequestStatus ::
  "NonAdminBackupStatus \<Rightarrow> DeleteBackupRequest option \<Rightarrow> NonAdminBackupStatus \<times> bool" where
  "updateNonAdminBackupDeleteBackupRequestStatus status veleroDeleteBackupRequest =
     (case veleroDeleteBackupRequest of
        None \<Rightarrow> (status, False)
      | Some d \<Rightarrow>
          (let ref = (case VeleroDeleteBackupRequestRef status of
                        None \<Rightarrow> \<lparr>vdbr_NACUUID = [], vdbr_Namespace = [], vdbr_Name = [],
                                  vdbr_Status = None\<rparr>
                      | Some x \<Rightarrow> x);
               st = (case vdbr_Status ref of
                       None \<Rightarrow> \<lparr>dbrs_Phase = [], dbrs_Errors = None\<rparr> | Some x \<Rightarrow> x)
           in if st = dbr_Status d
              then (status\<lparr>VeleroDeleteBackupRequestRef := Some (ref\<lparr>vdbr_Status := Some st\<rparr>)\<rparr>,
                    False)
              else (status\<lparr>VeleroDeleteBackupRequestRef :=
                             Some (ref\<lparr>vdbr_Status := Some (dbr_Status d)\<rparr>)\<rparr>, True)))"

definition newDeleteBackupRequest ::
  "env \<Rightarrow> reconciler \<Rightarrow> NonAdminBackup \<Rightarrow> Backup \<Rightarrow> string \<Rightarrow> DeleteBackupRequest" where
  "newDeleteBackupRequest env r nab veleroBackup veleroBackupNACUUID =
     \<lparr>dbr_ObjectMeta =
        \<lparr>Name = [], GenerateName = Name (b_ObjectMeta veleroBackup) @ ''-'',
         Namespace = OADPNamespace r, UID = [],
         Labels = (Map.empty(BackupNameLabel env \<mapsto> GetValidName env (Name (b_ObjectMeta veleroBackup)),
                     BackupUIDLabel env \<mapsto> UID (b_ObjectMeta veleroBackup),
                     NabOriginNACUUIDLabel env \<mapsto> veleroBackupNACUUID)) ++ GetNonAdminLabels env,
         Annotations = Some (GetNonAdminBackupAnnotations env (nab_ObjectMeta nab)),
         Finalizers = [], DeletionTimestamp = None\<rparr>,
      dbr_BackupName = Name (b_ObjectMeta veleroBackup),
      dbr_Status = \<lparr>dbrs_Phase = [], dbrs_Errors = None\<rparr>\<rparr>"

definition createVeleroDeleteBackupRequest ::
  "env \<Rightarrow> reconciler \<Rightarrow> NonAdminBackup \<Rightarrow> pass \<Rightarrow> stepResult" where
  "createVeleroDeleteBackupRequest env r nab s =
     (case VeleroBackupRef (nab_Status nab) of
        None \<Rightarrow> ((False, None), nab, s)
      | Some ref \<Rightarrow>
          if \<not> ContainsFinalizer (nab_ObjectMeta nab) (NabFinalizerName env) \<or> vb_NACUUID ref = []
          then ((False, None), nab, s)
          else
            (case GetVeleroBackupByLabel env (OADPNamespace r) (vb_NACUUID ref) s of
               (Inl e, s1) \<Rightarrow> ((False, Some e), nab, s1)
             | (Inr None, s1) \<Rightarrow> removeNabFinalizerUponVeleroBackupDeletion env r nab s1
             | (Inr (Some veleroBackup), s1) \<Rightarrow>
                 (case GetVeleroDeleteBackupRequestByLabel env (OADPNamespace r) (vb_NACUUID ref) s1 of
                    (Inl e, s2) \<Rightarrow> ((False, Some e), nab, s2)
                  | (Inr found, s2) \<Rightarrow>
                      (case (case found of
                               Some d \<Rightarrow> (None, d, nab, s2)
                             | None \<Rightarrow>
                                 (case CreateRetryGenerateName env
                                         (newDeleteBackupRequest env r nab veleroBackup (vb_NACUUID ref)) s2 of
                                    (Some e, d, s3) \<Rightarrow> (Some e, d, nab, s3)
                                  | (None, d, s3) \<Rightarrow>
                                      (None, d,
                                       nab\<lparr>nab_Status := (nab_Status nab)\<lparr>VeleroDeleteBackupRequestRef :=
                                         Some \<lparr>vdbr_NACUUID = vb_NACUUID ref,
                                               vdbr_Namespace = OADPNamespace r,
                                               vdbr_Name = Name (dbr_ObjectMeta d),
                                               vdbr_Status = None\<rparr>\<rparr>\<rparr>, s3))) of
                         (Some e, d, nab1, s3) \<Rightarrow> ((False, Some e), nab1, s3)
                       | (None, d, nab1, s3) \<Rightarrow>
                           (case updateNonAdminBackupDeleteBackupRequestStatus (nab_Status nab1) (Some d) of
                              (status, updated) \<Rightarrow>
                                if updated
                                then (case clientStatusUpdate (nab1\<lparr>nab_Status := status\<rparr>) s3 of
                                        (Some e, nab2, s4) \<Rightarrow> ((False, Some e), nab2, s4)
                                      | (None, nab2, s4) \<Rightarrow> ((False, None), nab2, s4))
                                else ((False, None), nab1\<lparr>nab_Status := status\<rparr>, s3))))))"

definition deleteVeleroBackupObjects ::
  "env \<Rightarrow> reconciler \<Rightarrow> NonAdminBackup \<Rightarrow> pass \<Rightarrow> stepResult" where
  "deleteVeleroBackupObjects env r nab s =
     (case VeleroBackupRef (nab_Status nab) of
        None \<Rightarrow> ((False, None), nab, s)
      | Some ref \<Rightarrow>
          if vb_NACUUID ref = [] then ((False, None), nab, s)
          else
            (case GetVeleroBackupByLabel env (OADPNamespace r) (vb_NACUUID ref) s of
               (Inl e, s1) \<Rightarrow> ((False, Some e), nab, s1)
             | (Inr (Some veleroBackup), s1) \<Rightarrow>
                 (case clientDeleteBackup veleroBackup s1 of
                    (Some e, s2) \<Rightarrow> ((False, Some e), nab, s2)
                  | (None, s2) \<Rightarrow> ((False, None), nab, s2))
             | (Inr None, s1) \<Rightarrow> removeNabFinalizerUponVeleroBackupDeletion env r nab s1))"

definition deleteDeleteBackupRequestObjects ::
  "env \<Rightarrow> reconciler \<Rightarrow> NonAdminBackup \<Rightarrow> pass \<Rightarrow> stepResult" where
  "deleteDeleteBackupRequestObjects env r nab s =
     (case VeleroBackupRef (nab_Status nab) of
        None \<Rightarrow> ((False, None), nab, s)
      | Some ref \<Rightarrow>
          if vb_NACUUID ref = [] then ((False, None), nab, s)
          else
            (case GetVeleroDeleteBackupRequestByLabel env (OADPNamespace r) (vb_NACUUID ref) s of
               (Inl e, s1) \<Rightarrow> ((False, Some e), nab, s1)
             | (Inr (Some d), s1) \<Rightarrow>
                 (case clientDeleteDeleteBackupRequest d s1 of
                    (Some e, s2) \<Rightarrow> ((False, Some e), nab, s2)
                  | (None, s2) \<Rightarrow> ((False, None), nab, s2))
             | (Inr None, s1) \<Rightarrow> ((False, None), nab, s1)))"

subsection \<open>Creation steps\<close>

definition initNabCreate :: "env \<Rightarrow> reconciler \<Rightarrow> NonAdminBackup \<Rightarrow> pass \<Rightarrow> stepResult" where
  "initNabCreate env r nab s =
     (if Phase (nab_Status nab) \<noteq> PhaseUnset then ((False, None), nab, s)
      else
        (case updateNonAdminPhase (Phase (nab_Status nab)) NonAdminPhaseNew of
           (phase, updated) \<Rightarrow>
             if updated
             then (case clientStatusUpdate (setPhase nab phase) s of
                     (Some e, nab1, s1) \<Rightarrow> ((False, Some e), nab1, s1)
                   | (None, nab1, s1) \<Rightarrow> ((False, None), nab1, s1))
             else ((False, None), setPhase nab phase, s)))"

definition validateSpec :: "env \<Rightarrow> reconciler \<Rightarrow> NonAdminBackup \<Rightarrow> pass \<Rightarrow> stepResult" where
  "validateSpec env r nab s =
     (case ValidateBackupSpec env (cl s) (OADPNamespace r) nab (EnforcedBackupSpec r) of
        Some err \<Rightarrow>
          (case setPhaseAndCondition nab NonAdminPhaseBackingOff
                  \<lparr>c_Type = NonAdminConditionAccepted, c_Status = ConditionFalse,
                   c_Reason = ''InvalidBackupSpec'', c_Message = Error err\<rparr> s of
             (Some updateErr, nab1, s1) \<Rightarrow> ((False, Some updateErr), nab1, s1)
           | (None, nab1, s1) \<Rightarrow> ((False, Some (TerminalError err)), nab1, s1))
      | None \<Rightarrow>
          (case SetStatusCondition (Conditions (nab_Status nab))
                  \<lparr>c_Type = NonAdminConditionAccepted, c_Status = ConditionTrue,
                   c_Reason = ''BackupAccepted'', c_Message = ''backup accepted''\<rparr> of
             (conditions, updated) \<Rightarrow>
               if updated
               then (case clientStatusUpdate (setConditions nab conditions) s of
                       (Some e, nab1, s1) \<Rightarrow> ((False, Some e), nab1, s1)
                     | (None, nab1, s1) \<Rightarrow> ((False, None), nab1, s1))
               else ((False, None), setConditions nab conditions, s)))"

text \<open>\<^verbatim>\<open>nab.Status.VeleroBackup == nil || nab.Status.VeleroBackup.NACUUID == ""\<close>.\<close>

definition noBackupUUID :: "NonAdminBackup \<Rightarrow> bool" where
  "noBackupUUID nab =
     (case VeleroBackupRef (nab_Status nab) of None \<Rightarrow> True | Some ref \<Rightarrow> vb_NACUUID ref = [])"

definition backupUUID :: "NonAdminBackup \<Rightarrow> string" where
  "backupUUID nab =
     (case VeleroBackupRef (nab_Status nab) of None \<Rightarrow> [] | Some ref \<Rightarrow> vb_NACUUID ref)"

definition setBackupUUIDInStatus ::
  "env \<Rightarrow> reconciler \<Rightarrow> NonAdminBackup \<Rightarrow> pass \<Rightarrow> stepResult" where
  "setBackupUUIDInStatus env r nab s =
     (case clientGetNab (Namespace (nab_ObjectMeta nab)) (Name (nab_ObjectMeta nab)) s of
        (Inl e, s1) \<Rightarrow> ((False, Some e), nab, s1)
      | (Inr nab1, s1) \<Rightarrow>
          if noBackupUUID nab1
          then
            (let veleroBackupNACUUID =
                   (case Labels (nab_ObjectMeta nab1) (NabSyncLabel env) of
                      Some val \<Rightarrow> val
                    | None \<Rightarrow> GenerateNacObjectUUID env (Namespace (nab_ObjectMeta nab1))
                                (Name (nab_ObjectMeta nab1)))
             in (case clientStatusUpdate
                        (nab1\<lparr>nab_Status := (nab_Status nab1)\<lparr>VeleroBackupRef :=
                           Some \<lparr>vb_NACUUID = veleroBackupNACUUID,
                                 vb_Namespace = OADPNamespace r,
                                 vb_Name = veleroBackupNACUUID,
                                 vb_Spec = None, vb_Status = None\<rparr>\<rparr>\<rparr>) s1 of
                   (Some e, nab2, s2) \<Rightarrow> ((False, Some e), nab2, s2)
                 | (None, nab2, s2) \<Rightarrow> ((False, None), nab2, s2)))
          else ((False, None), nab1, s1))"

definition setFinalizerOnNonAdminBackup ::
  "env \<Rightarrow> reconciler \<Rightarrow> NonAdminBackup \<Rightarrow> pass \<Rightarrow> stepResult" where
  "setFinalizerOnNonAdminBackup env r nab s =
     (if \<not> ContainsFinalizer (nab_ObjectMeta nab) (NabFinalizerName env)
      then (case clientUpdate (nab\<lparr>nab_ObjectMeta :=
                                     AddFinalizer (nab_ObjectMeta nab) (NabFinalizerName env)\<rparr>) s of
              (Some e, nab1, s1) \<Rightarrow> ((False, Some e), nab1, s1)
            | (None, nab1, s1) \<Rightarrow> ((False, None), nab1, s1))
      else ((False, None), nab, s))"

subsection \<open>The engine backup's spec\<close>

text \<open>
  One iteration of the reflective loop over the fields of the enforced spec:
  \<^verbatim>\<open>if !enforcedField.IsZero() && currentField.IsZero() { currentField.Set(enforcedField) }\<close>.
  \<^verbatim>\<open>IsZero\<close> is nil for a slice or a pointer, the empty string, the zero duration.
\<close>

definition enforceField :: "('a \<Rightarrow> bool) \<Rightarrow> 'a \<Rightarrow> 'a \<Rightarrow> 'a" where
  "enforceField isZero enforcedField currentField =
     (if \<not> isZero enforcedField \<and> isZero currentField then enforcedField else currentField)"

definition isNil :: "'a option \<Rightarrow> bool" where
  "isNil x = (x = None)"

definition isEmptyString :: "string \<Rightarrow> bool" where
  "isEmptyString x = (x = [])"

definition isZeroDuration :: "int \<Rightarrow> bool" where
  "isZeroDuration d = (d = 0)"

text \<open>The loop, field by field, on the copy of the tenant's spec.\<close>

definition enforceBackupSpec :: "BackupSpec \<Rightarrow> BackupSpec \<Rightarrow> BackupSpec" where
  "enforceBackupSpec enforcedSpec backupSpec =
     \<lparr>IncludedNamespaces =
        enforceField isNil (IncludedNamespaces enforcedSpec) (IncludedNamespaces backupSpec),
      ExcludedNamespaces =
        enforceField isNil (ExcludedNamespaces enforcedSpec) (ExcludedNamespaces backupSpec),
      IncludedResources =
        enforceField isNil (IncludedResources enforcedSpec) (IncludedResources backupSpec),
      ExcludedResources =
        enforceField isNil (ExcludedResources enforcedSpec) (ExcludedResources backupSpec),
      IncludedClusterScopedResources =
        enforceField isNil (IncludedClusterScopedResources enforcedSpec)
          (IncludedClusterScopedResources backupSpec),
      ExcludedClusterScopedResources =
        enforceField isNil (ExcludedClusterScopedResources enforcedSpec)
          (ExcludedClusterScopedResources backupSpec),
      IncludedNamespaceScopedResources =
        enforceField isNil (IncludedNamespaceScopedResources enforcedSpec)
          (IncludedNamespaceScopedResources backupSpec),
      ExcludedNamespaceScopedResources =
        enforceField isNil (ExcludedNamespaceScopedResources enforcedSpec)
          (ExcludedNamespaceScopedResources backupSpec),
      SnapshotVolumes =
        enforceField isNil (SnapshotVolumes enforcedSpec) (SnapshotVolumes backupSpec),
      TTL = enforceField isZeroDuration (TTL enforcedSpec) (TTL backupSpec),
      IncludeClusterResources =
        enforceField isNil (IncludeClusterResources enforcedSpec) (IncludeClusterResources backupSpec),
      StorageLocation =
        enforceField isEmptyString (StorageLocation enforcedSpec) (StorageLocation backupSpec),
      VolumeSnapshotLocations =
        enforceField isNil (VolumeSnapshotLocations enforcedSpec) (VolumeSnapshotLocations backupSpec),
      DefaultVolumesToFsBackup =
        enforceField isNil (DefaultVolumesToFsBackup enforcedSpec)
          (DefaultVolumesToFsBackup backupSpec),
      SnapshotMoveData =
        enforceField isNil (SnapshotMoveData enforcedSpec) (SnapshotMoveData backupSpec),
      DataMover = enforceField isEmptyString (DataMover enforcedSpec) (DataMover backupSpec)\<rparr>"

text \<open>Go's \<^verbatim>\<open>len\<close> and \<^verbatim>\<open>append\<close> on a slice that may be nil.\<close>

definition sliceLen :: "'a list option \<Rightarrow> nat" where
  "sliceLen xs = (case xs of None \<Rightarrow> 0 | Some l \<Rightarrow> length l)"

definition sliceAppend :: "'a list option \<Rightarrow> 'a list \<Rightarrow> 'a list option" where
  "sliceAppend xs ys =
     (case xs of None \<Rightarrow> (if ys = [] then None else Some ys) | Some l \<Rightarrow> Some (l @ ys))"

definition alwaysExcludedNamespacedResources :: "string list" where
  "alwaysExcludedNamespacedResources =
     [''nonadminbackups'', ''nonadminrestores'', ''nonadminbackupstoragelocations'']"

definition alwaysExcludedClusterResources :: "string list" where
  "alwaysExcludedClusterResources =
     [''securitycontextconstraints'', ''clusterroles'', ''clusterrolebindings'',
      ''priorityclasses'', ''customresourcedefinitions'',
      ''virtualmachineclusterinstancetypes'', ''virtualmachineclusterpreferences'']"

text \<open>Lines 699 to 718: the exclusion of the controller's own and of cluster resources.\<close>

definition excludeNacResources :: "BackupSpec \<Rightarrow> BackupSpec" where
  "excludeNacResources backupSpec =
     (let haveNewResourceFilterParameters =
            (sliceLen (IncludedClusterScopedResources backupSpec) > 0
             \<or> sliceLen (ExcludedClusterScopedResources backupSpec) > 0
             \<or> sliceLen (IncludedNamespaceScopedResources backupSpec) > 0
             \<or> sliceLen (ExcludedNamespaceScopedResources backupSpec) > 0)
      in if haveNewResourceFilterParameters
         then backupSpec
                \<lparr>ExcludedNamespaceScopedResources :=
                   sliceAppend (ExcludedNamespaceScopedResources backupSpec)
                     alwaysExcludedNamespacedResources,
                 ExcludedClusterScopedResources :=
                   sliceAppend (ExcludedClusterScopedResources backupSpec)
                     alwaysExcludedClusterResources\<rparr>
         else backupSpec
                \<lparr>ExcludedResources :=
                   sliceAppend (sliceAppend (ExcludedResources backupSpec)
                                  alwaysExcludedNamespacedResources)
                     alwaysExcludedClusterResources\<rparr>)"

text \<open>
  Lines 675 to 697: the copy of the tenant's spec after the enforcement loop, the included
  namespaces set by the controller, and the storage location replaced by the name of the
  Velero storage location of the tenant's NonAdminBackupStorageLocation.
\<close>

definition confinedBackupSpec :: "reconciler \<Rightarrow> NonAdminBackup \<Rightarrow> BackupSpec" where
  "confinedBackupSpec r nab =
     (enforceBackupSpec (EnforcedBackupSpec r) (BackupSpecRef (nab_Spec nab)))
       \<lparr>IncludedNamespaces := Some [Namespace (nab_ObjectMeta nab)]\<rparr>"

definition resolveStorageLocation ::
  "NonAdminBackup \<Rightarrow> BackupSpec \<Rightarrow> pass \<Rightarrow> (error + BackupSpec) \<times> pass" where
  "resolveStorageLocation nab backupSpec s =
     (if StorageLocation backupSpec \<noteq> []
      then (case clientGetNabsl (Namespace (nab_ObjectMeta nab)) (StorageLocation backupSpec) s of
              (Inl nabslErr, s1) \<Rightarrow> (Inl nabslErr, s1)
            | (Inr nonAdminBsl, s1) \<Rightarrow>
                (Inr (backupSpec\<lparr>StorageLocation :=
                        nabsl_VeleroBackupStorageLocationName nonAdminBsl\<rparr>), s1))
      else (Inr backupSpec, s))"

definition zeroBackupStatus :: BackupStatus where
  "zeroBackupStatus = \<lparr>bs_Phase = [], bs_Warnings = 0, bs_Errors = 0\<rparr>"

definition zeroBackupSpec :: BackupSpec where
  "zeroBackupSpec =
     \<lparr>IncludedNamespaces = None, ExcludedNamespaces = None, IncludedResources = None,
      ExcludedResources = None, IncludedClusterScopedResources = None,
      ExcludedClusterScopedResources = None, IncludedNamespaceScopedResources = None,
      ExcludedNamespaceScopedResources = None, SnapshotVolumes = None, TTL = 0,
      IncludeClusterResources = None, StorageLocation = [], VolumeSnapshotLocations = None,
      DefaultVolumesToFsBackup = None, SnapshotMoveData = None, DataMover = []\<rparr>"

text \<open>Lines 720 to 733: the object sent to \<^verbatim>\<open>r.Create\<close>.\<close>

definition newVeleroBackup ::
  "env \<Rightarrow> reconciler \<Rightarrow> NonAdminBackup \<Rightarrow> string \<Rightarrow> BackupSpec \<Rightarrow> Backup" where
  "newVeleroBackup env r nab veleroBackupNACUUID backupSpec =
     \<lparr>b_ObjectMeta =
        \<lparr>Name = veleroBackupNACUUID, GenerateName = [], Namespace = OADPNamespace r, UID = [],
         Labels = (GetNonAdminLabels env)(NabOriginNACUUIDLabel env \<mapsto> veleroBackupNACUUID),
         Annotations = Some (GetNonAdminBackupAnnotations env (nab_ObjectMeta nab)),
         Finalizers = [], DeletionTimestamp = None\<rparr>,
      b_Spec = backupSpec,
      b_Status = zeroBackupStatus\<rparr>"

text \<open>Lines 673 to 743: the branch that creates the engine backup.\<close>

definition createVeleroBackup ::
  "env \<Rightarrow> reconciler \<Rightarrow> NonAdminBackup \<Rightarrow> string \<Rightarrow> pass \<Rightarrow> (error + Backup) \<times> pass" where
  "createVeleroBackup env r nab veleroBackupNACUUID s =
     (case resolveStorageLocation nab (confinedBackupSpec r nab) s of
        (Inl nabslErr, s1) \<Rightarrow> (Inl nabslErr, s1)
      | (Inr backupSpec, s1) \<Rightarrow>
          (let veleroBackup =
                 newVeleroBackup env r nab veleroBackupNACUUID (excludeNacResources backupSpec)
           in (case clientCreateBackup veleroBackup s1 of
                 (Some e, s2) \<Rightarrow> (Inl e, s2)
               | (None, s2) \<Rightarrow> (Inr veleroBackup, s2))))"

subsection \<open>Creating or adopting the engine backup and projecting its status\<close>

text \<open>
  Lines 648 to 671, entered when no engine backup carries the UUID and the tenant object
  has a valid sync label or is in phase \<open>Created\<close>. With neither message chosen the
  local \<^verbatim>\<open>err\<close> is still nil when \<^verbatim>\<open>err.Error()\<close> is evaluated for the condition,
  after the phase was set in memory.
\<close>

definition syncSourceMissingMessage :: string where
  "syncSourceMissingMessage = ''related Velero Backup to be synced from does not exist''"

definition finalizedMessage :: string where
  "finalizedMessage =
     ''NonAdminBackup is finalized and its associated Velero Backup has been removed. ''
     @ ''Please create a new NonAdminBackup to initiate a new backup''"

definition veleroBackupNotFound :: "env \<Rightarrow> NonAdminBackup \<Rightarrow> pass \<Rightarrow> stepResult" where
  "veleroBackupNotFound env nab s =
     (let err0 = (if CheckLabelAnnotationValueIsValid env (Labels (nab_ObjectMeta nab)) (NabSyncLabel env)
                  then Some (Plain syncSourceMissingMessage)
                  else None);
          err = (if IsStatusConditionTrue (Conditions (nab_Status nab)) NonAdminConditionQueued
                 then Some (Plain finalizedMessage)
                 else err0)
      in case err of
           None \<Rightarrow> ((False, Some NilErrorPanic), setPhase nab NonAdminPhaseBackingOff, s)
         | Some e \<Rightarrow>
             (case setPhaseAndCondition nab NonAdminPhaseBackingOff
                     \<lparr>c_Type = NonAdminConditionAccepted, c_Status = ConditionFalse,
                      c_Reason = ''VeleroBackupNotFound'', c_Message = Error e\<rparr> s of
                (Some updateErr, nab1, s1) \<Rightarrow> ((False, Some updateErr), nab1, s1)
              | (None, nab1, s1) \<Rightarrow> ((False, Some (TerminalError e)), nab1, s1)))"

definition zeroVeleroBackup :: VeleroBackup where
  "zeroVeleroBackup =
     \<lparr>vb_NACUUID = [], vb_Namespace = [], vb_Name = [], vb_Spec = None, vb_Status = None\<rparr>"

definition updateNonAdminBackupVeleroBackupSpecStatus ::
  "NonAdminBackupStatus \<Rightarrow> Backup option \<Rightarrow> NonAdminBackupStatus \<times> bool" where
  "updateNonAdminBackupVeleroBackupSpecStatus status veleroBackup =
     (case veleroBackup of
        None \<Rightarrow> (status, False)
      | Some b \<Rightarrow>
          (let ref = (case VeleroBackupRef status of None \<Rightarrow> zeroVeleroBackup | Some x \<Rightarrow> x);
               spec = (case vb_Spec ref of None \<Rightarrow> zeroBackupSpec | Some x \<Rightarrow> x);
               st = (case vb_Status ref of None \<Rightarrow> zeroBackupStatus | Some x \<Rightarrow> x)
           in if spec = b_Spec b \<and> st = b_Status b
              then (status\<lparr>VeleroBackupRef := Some (ref\<lparr>vb_Spec := Some spec, vb_Status := Some st\<rparr>)\<rparr>,
                    False)
              else (status\<lparr>VeleroBackupRef :=
                             Some (ref\<lparr>vb_Spec := Some (b_Spec b), vb_Status := Some (b_Status b)\<rparr>)\<rparr>,
                    True)))"

text \<open>A failed list is logged and leaves the list empty.\<close>

definition listedItems :: "error + 'a list \<Rightarrow> 'a list" where
  "listedItems res = (case res of Inl e \<Rightarrow> [] | Inr items \<Rightarrow> items)"

text \<open>Lines 749 to 810: the projection of the engine backup into the tenant's status.\<close>

definition syncWithNonAdminBackup ::
  "env \<Rightarrow> reconciler \<Rightarrow> NonAdminBackup \<Rightarrow> Backup \<Rightarrow> pass \<Rightarrow> stepResult" where
  "syncWithNonAdminBackup env r nab veleroBackup s =
     (case (case GetBackupQueueInfo env (cl s) (OADPNamespace r) veleroBackup of
              Inl e \<Rightarrow> (nab_Status nab, False)
            | Inr queueInfo \<Rightarrow> ((nab_Status nab)\<lparr>QueueInfoRef := Some queueInfo\<rparr>, True)) of
        (status1, updatedQueueInfo) \<Rightarrow>
     (case updateNonAdminPhase (Phase status1) NonAdminPhaseCreated of
        (phase, updatedPhase) \<Rightarrow>
     (case SetStatusCondition (Conditions status1)
             \<lparr>c_Type = NonAdminConditionQueued, c_Status = ConditionTrue,
              c_Reason = ''BackupScheduled'', c_Message = ''Created Velero Backup object''\<rparr> of
        (conditions, updatedCondition) \<Rightarrow>
     (case updateNonAdminBackupVeleroBackupSpecStatus
             (status1\<lparr>Phase := phase, Conditions := conditions\<rparr>) (Some veleroBackup) of
        (status3, updated) \<Rightarrow>
     (let selector = Some (BackupNameLabel env, GetValidName env (Name (b_ObjectMeta veleroBackup)))
      in
     (case clientList podVolumeBackups pvb_ObjectMeta (OADPNamespace r) selector s of
        (pvbs, s1) \<Rightarrow>
     (case updateNonAdminBackupPodVolumeBackupStatus status3 (listedItems pvbs) of
        (status4, updatedPodVolumeBackupStatus) \<Rightarrow>
     (case clientList dataUploads du_ObjectMeta (OADPNamespace r) selector s1 of
        (dus, s2) \<Rightarrow>
     (case updateNonAdminBackupDataUploadStatus status4 (listedItems dus) of
        (status5, updatedDataUploadStatus) \<Rightarrow>
          if updated \<or> updatedPhase \<or> updatedCondition \<or> updatedQueueInfo
             \<or> updatedPodVolumeBackupStatus \<or> updatedDataUploadStatus
          then (case clientStatusUpdate (nab\<lparr>nab_Status := status5\<rparr>) s2 of
                  (Some e, nab1, s3) \<Rightarrow> ((False, Some e), nab1, s3)
                | (None, nab1, s3) \<Rightarrow> ((False, None), nab1, s3))
          else ((False, None), nab\<lparr>nab_Status := status5\<rparr>, s2))))))))))"

text \<open>Indexing a Go map: a missing key reads as the empty string.\<close>

definition mapIndex :: "(string \<rightharpoonup> string) \<Rightarrow> string \<Rightarrow> string" where
  "mapIndex m k = (case m k of None \<Rightarrow> [] | Some v \<Rightarrow> v)"

definition createVeleroBackupAndSyncWithNonAdminBackup ::
  "env \<Rightarrow> reconciler \<Rightarrow> NonAdminBackup \<Rightarrow> pass \<Rightarrow> stepResult" where
  "createVeleroBackupAndSyncWithNonAdminBackup env r nab s =
     (if noBackupUUID nab
      then ((False, Some (Plain ''unable to get Velero Backup UUID from NonAdminBackup Status'')), nab, s)
      else
        (case GetVeleroBackupByLabel env (OADPNamespace r) (backupUUID nab) s of
           (Inl e, s1) \<Rightarrow> ((False, Some e), nab, s1)
         | (Inr None, s1) \<Rightarrow>
             if CheckLabelAnnotationValueIsValid env (Labels (nab_ObjectMeta nab)) (NabSyncLabel env)
                \<or> Phase (nab_Status nab) = NonAdminPhaseCreated
             then veleroBackupNotFound env nab s1
             else (case createVeleroBackup env r nab (backupUUID nab) s1 of
                     (Inl e, s2) \<Rightarrow> ((False, Some e), nab, s2)
                   | (Inr veleroBackup, s2) \<Rightarrow> syncWithNonAdminBackup env r nab veleroBackup s2)
         | (Inr (Some veleroBackup), s1) \<Rightarrow>
             if (case Annotations (b_ObjectMeta veleroBackup) of
                   None \<Rightarrow> True
                 | Some a \<Rightarrow> mapIndex a (NabOriginNamespaceAnnotation env)
                              \<noteq> Namespace (nab_ObjectMeta nab))
             then ((False, Some (TerminalError
                      (Plain ''related Velero Backup does not point to NonAdminBackup namespace''))),
                   nab, s1)
             else syncWithNonAdminBackup env r nab veleroBackup s1))"

section \<open>Reconcile\<close>

type_synonym nonAdminBackupReconcileStepFunction = "NonAdminBackup \<Rightarrow> pass \<Rightarrow> stepResult"

text \<open>The \<^verbatim>\<open>switch\<close> of \<^verbatim>\<open>Reconcile\<close> that fills \<^verbatim>\<open>reconcileSteps\<close>.\<close>

definition reconcileSteps ::
  "env \<Rightarrow> reconciler \<Rightarrow> NonAdminBackup \<Rightarrow> nonAdminBackupReconcileStepFunction list" where
  "reconcileSteps env r nab =
     (if DeleteBackup (nab_Spec nab)
      then [setStatusAndConditionForDeletionAndCallDelete env r,
            deleteNonAdminRestores env r,
            createVeleroDeleteBackupRequest env r]
      else if \<not> timeIsZero (DeletionTimestamp (nab_ObjectMeta nab))
      then [setStatusForDirectKubernetesAPIDeletion env r,
            deleteDeleteBackupRequestObjects env r,
            deleteVeleroBackupObjects env r]
      else if CheckLabelAnnotationValueIsValid env (Labels (nab_ObjectMeta nab)) (NabSyncLabel env)
      then [setBackupUUIDInStatus env r,
            setFinalizerOnNonAdminBackup env r,
            createVeleroBackupAndSyncWithNonAdminBackup env r]
      else [initNabCreate env r,
            validateSpec env r,
            setBackupUUIDInStatus env r,
            setFinalizerOnNonAdminBackup env r,
            createVeleroBackupAndSyncWithNonAdminBackup env r])"

text \<open>
  The loop over the selected steps. The result is \<^verbatim>\<open>(ctrl.Result, error)\<close>, the
  \<^verbatim>\<open>ctrl.Result\<close> being its \<^verbatim>\<open>Requeue\<close> flag.
\<close>

fun runSteps ::
  "nonAdminBackupReconcileStepFunction list \<Rightarrow> NonAdminBackup \<Rightarrow> pass
     \<Rightarrow> (bool \<times> error option) \<times> pass" where
  "runSteps [] nab s = ((False, None), s)"
| "runSteps (step # steps) nab s =
     (case step nab s of
        ((requeue, Some err), nab1, s1) \<Rightarrow> ((False, Some err), s1)
      | ((requeue, None), nab1, s1) \<Rightarrow>
          if requeue then ((True, None), s1) else runSteps steps nab1 s1)"

record Request =
  req_Namespace :: string
  req_Name :: string

definition Reconcile ::
  "env \<Rightarrow> reconciler \<Rightarrow> Request \<Rightarrow> cluster \<Rightarrow> error option list
     \<Rightarrow> (bool \<times> error option) \<times> pass" where
  "Reconcile env r req c schedule =
     (case clientGetNab (req_Namespace req) (req_Name req)
             \<lparr>cl = c, faults = schedule, writes = []\<rparr> of
        (Inl err, s1) \<Rightarrow>
          if err = NotFound then ((False, None), s1) else ((False, Some err), s1)
      | (Inr nab, s1) \<Rightarrow> runSteps (reconcileSteps env r nab) nab s1)"

section \<open>Notions used to state the properties\<close>

subsection \<open>Counting by phase\<close>

definition countPhase :: "('a \<Rightarrow> string) \<Rightarrow> string \<Rightarrow> 'a list \<Rightarrow> int" where
  "countPhase phaseOf v xs = int (length (filter (\<lambda>x. phaseOf x = v) xs))"

definition pvbRecognized :: "string \<Rightarrow> bool" where
  "pvbRecognized ph =
     (ph = PodVolumeBackupPhaseNew \<or> ph = PodVolumeBackupPhaseInProgress
      \<or> ph = PodVolumeBackupPhaseFailed \<or> ph = PodVolumeBackupPhaseCompleted)"

definition duRecognized :: "string \<Rightarrow> bool" where
  "duRecognized ph =
     (ph = DataUploadPhaseNew \<or> ph = DataUploadPhaseAccepted \<or> ph = DataUploadPhasePrepared
      \<or> ph = DataUploadPhaseInProgress \<or> ph = DataUploadPhaseCanceling
      \<or> ph = DataUploadPhaseCanceled \<or> ph = DataUploadPhaseFailed
      \<or> ph = DataUploadPhaseCompleted)"

definition fsPhaseSum :: "FileSystemPodVolumeBackups \<Rightarrow> int" where
  "fsPhaseSum x = fs_New x + fs_InProgress x + fs_Failed x + fs_Completed x"

definition dmPhaseSum :: "DataMoverDataUploads \<Rightarrow> int" where
  "dmPhaseSum x =
     dm_New x + dm_Accepted x + dm_Prepared x + dm_InProgress x + dm_Canceling x
     + dm_Canceled x + dm_Failed x + dm_Completed x"

subsection \<open>Reading the log of a pass\<close>

text \<open>
  Two states of a pass between which nothing was written; the schedule of API outcomes
  may have been consumed.
\<close>

definition quiet :: "pass \<Rightarrow> pass \<Rightarrow> bool" where
  "quiet s s1 = (cl s1 = cl s \<and> writes s1 = writes s \<and> set (faults s1) \<subseteq> set (faults s))"

text \<open>The object in memory is the one the API server holds.\<close>

definition synced :: "NonAdminBackup \<Rightarrow> pass \<Rightarrow> bool" where
  "synced nab s = (tenantNab (cl s) = Some nab)"

text \<open>Every write of a log, paired with the cluster it was sent to.\<close>

fun sentIn :: "cluster \<Rightarrow> apiWrite list \<Rightarrow> (cluster \<times> apiWrite) list" where
  "sentIn c [] = []"
| "sentIn c (w # ws) = (c, w) # sentIn (applyWrite w c) ws"

text \<open>
  A pass that started in cluster \<open>c0\<close> is tracked under a condition on writes when its
  cluster is \<open>c0\<close> after the logged writes and every logged write met the condition in the
  cluster it was sent to.
\<close>

definition tracked :: "(cluster \<Rightarrow> apiWrite \<Rightarrow> bool) \<Rightarrow> cluster \<Rightarrow> pass \<Rightarrow> bool" where
  "tracked ok c0 s =
     (cl s = fold applyWrite (writes s) c0 \<and> list_all (\<lambda>(c, w). ok c w) (sentIn c0 (writes s)))"

fun createdBackups :: "apiWrite list \<Rightarrow> Backup list" where
  "createdBackups [] = []"
| "createdBackups (CreateBackup b # ws) = b # createdBackups ws"
| "createdBackups (w # ws) = createdBackups ws"

fun statusPhases :: "apiWrite list \<Rightarrow> NonAdminPhase list" where
  "statusPhases [] = []"
| "statusPhases (StatusUpdate n # ws) = Phase (nab_Status n) # statusPhases ws"
| "statusPhases (w # ws) = statusPhases ws"

fun updatedFinalizers :: "apiWrite list \<Rightarrow> string list list" where
  "updatedFinalizers [] = []"
| "updatedFinalizers (Update n # ws) = Finalizers (nab_ObjectMeta n) # updatedFinalizers ws"
| "updatedFinalizers (w # ws) = updatedFinalizers ws"

text \<open>The engine backups that carry a UUID label in the operator namespace.\<close>

definition engineBackups :: "env \<Rightarrow> reconciler \<Rightarrow> string \<Rightarrow> cluster \<Rightarrow> Backup list" where
  "engineBackups env r uuid c =
     filter (\<lambda>b. Namespace (b_ObjectMeta b) = OADPNamespace r
                 \<and> Labels (b_ObjectMeta b) (NabOriginNACUUIDLabel env) = Some uuid) (backups c)"

definition storedFinalizer :: "env \<Rightarrow> cluster \<Rightarrow> bool" where
  "storedFinalizer env c =
     (case tenantNab c of None \<Rightarrow> False
      | Some stored \<Rightarrow> NabFinalizerName env \<in> set (Finalizers (nab_ObjectMeta stored)))"

definition storedPhase :: "cluster \<Rightarrow> NonAdminPhase option" where
  "storedPhase c = map_option (\<lambda>n. Phase (nab_Status n)) (tenantNab c)"

definition FindStatusCondition :: "Condition list \<Rightarrow> string \<Rightarrow> Condition option" where
  "FindStatusCondition conditions conditionType =
     find (\<lambda>c. c_Type c = conditionType) conditions"

text \<open>A condition of the stored object, by type, and whether it is true.\<close>

definition storedCondition :: "cluster \<Rightarrow> string \<Rightarrow> Condition option" where
  "storedCondition c conditionType =
     (case tenantNab c of None \<Rightarrow> None
      | Some stored \<Rightarrow> FindStatusCondition (Conditions (nab_Status stored)) conditionType)"

definition storedConditionTrue :: "cluster \<Rightarrow> string \<Rightarrow> bool" where
  "storedConditionTrue c conditionType =
     (case tenantNab c of None \<Rightarrow> False
      | Some stored \<Rightarrow> IsStatusConditionTrue (Conditions (nab_Status stored)) conditionType)"

subsection \<open>The phase graph\<close>

text \<open>The graph of the spec's invariant I5.\<close>

definition phaseDAG :: "NonAdminPhase \<Rightarrow> NonAdminPhase \<Rightarrow> bool" where
  "phaseDAG p q =
     ((p = NonAdminPhaseNew \<and> (q = NonAdminPhaseBackingOff \<or> q = NonAdminPhaseCreated))
      \<or> (p = NonAdminPhaseCreated \<and> q = NonAdminPhaseDeleting)
      \<or> (p = NonAdminPhaseBackingOff \<and> q = NonAdminPhaseDeleting))"

text \<open>
  The phase changes of the code: a pass on an object whose deletion is requested only
  writes \<open>Deleting\<close>; any other pass writes \<open>New\<close> over an unset phase, or
  \<open>BackingOff\<close>, or \<open>Created\<close>.
\<close>

definition phaseChangeAllowed :: "bool \<Rightarrow> NonAdminPhase \<Rightarrow> NonAdminPhase \<Rightarrow> bool" where
  "phaseChangeAllowed deleting p q =
     (q = p \<or> (if deleting then q = NonAdminPhaseDeleting
                else (p = PhaseUnset \<and> q = NonAdminPhaseNew) \<or> q = NonAdminPhaseBackingOff
                     \<or> q = NonAdminPhaseCreated))"

definition deletionRequested :: "NonAdminBackup \<Rightarrow> bool" where
  "deletionRequested nab =
     (DeleteBackup (nab_Spec nab) \<or> \<not> timeIsZero (DeletionTimestamp (nab_ObjectMeta nab)))"

subsection \<open>The engine backup's spec\<close>

text \<open>
  The spec's merge, in its words: a field of the enforced spec is copied in when it is
  non-zero and the tenant's field is zero; otherwise the tenant's field stays.
\<close>

definition mergedField :: "'a \<Rightarrow> 'a \<Rightarrow> 'a \<Rightarrow> 'a" where
  "mergedField zero enforced tenant = (if enforced \<noteq> zero \<and> tenant = zero then enforced else tenant)"

definition specMerge :: "BackupSpec \<Rightarrow> BackupSpec \<Rightarrow> BackupSpec" where
  "specMerge enforced tenant =
     \<lparr>IncludedNamespaces = mergedField None (IncludedNamespaces enforced) (IncludedNamespaces tenant),
      ExcludedNamespaces = mergedField None (ExcludedNamespaces enforced) (ExcludedNamespaces tenant),
      IncludedResources = mergedField None (IncludedResources enforced) (IncludedResources tenant),
      ExcludedResources = mergedField None (ExcludedResources enforced) (ExcludedResources tenant),
      IncludedClusterScopedResources =
        mergedField None (IncludedClusterScopedResources enforced) (IncludedClusterScopedResources tenant),
      ExcludedClusterScopedResources =
        mergedField None (ExcludedClusterScopedResources enforced) (ExcludedClusterScopedResources tenant),
      IncludedNamespaceScopedResources =
        mergedField None (IncludedNamespaceScopedResources enforced)
          (IncludedNamespaceScopedResources tenant),
      ExcludedNamespaceScopedResources =
        mergedField None (ExcludedNamespaceScopedResources enforced)
          (ExcludedNamespaceScopedResources tenant),
      SnapshotVolumes = mergedField None (SnapshotVolumes enforced) (SnapshotVolumes tenant),
      TTL = mergedField 0 (TTL enforced) (TTL tenant),
      IncludeClusterResources =
        mergedField None (IncludeClusterResources enforced) (IncludeClusterResources tenant),
      StorageLocation = mergedField [] (StorageLocation enforced) (StorageLocation tenant),
      VolumeSnapshotLocations =
        mergedField None (VolumeSnapshotLocations enforced) (VolumeSnapshotLocations tenant),
      DefaultVolumesToFsBackup =
        mergedField None (DefaultVolumesToFsBackup enforced) (DefaultVolumesToFsBackup tenant),
      SnapshotMoveData = mergedField None (SnapshotMoveData enforced) (SnapshotMoveData tenant),
      DataMover = mergedField [] (DataMover enforced) (DataMover tenant)\<rparr>"

text \<open>The elements of a slice; a nil slice has none.\<close>

definition sliceElems :: "'a list option \<Rightarrow> 'a list" where
  "sliceElems xs = (case xs of None \<Rightarrow> [] | Some l \<Rightarrow> l)"

text \<open>A spec uses the scoped resource filters when one of the four lists has an element.\<close>

definition usesScopedFilters :: "BackupSpec \<Rightarrow> bool" where
  "usesScopedFilters sp =
     (sliceElems (IncludedClusterScopedResources sp) \<noteq> []
      \<or> sliceElems (ExcludedClusterScopedResources sp) \<noteq> []
      \<or> sliceElems (IncludedNamespaceScopedResources sp) \<noteq> []
      \<or> sliceElems (ExcludedNamespaceScopedResources sp) \<noteq> [])"

text \<open>
  The name of the Velero storage location behind the tenant's NonAdminBackupStorageLocation
  of a namespace and name, when the cluster has one.
\<close>

definition storageLocationOf :: "cluster \<Rightarrow> string \<Rightarrow> string \<Rightarrow> string option" where
  "storageLocationOf c ns name =
     (case filter (\<lambda>x. Namespace (nabsl_ObjectMeta x) = ns \<and> Name (nabsl_ObjectMeta x) = name)
             (nonAdminBackupStorageLocations c) of
        [] \<Rightarrow> None
      | x # xs \<Rightarrow> Some (nabsl_VeleroBackupStorageLocationName x))"

text \<open>
  The storage location of a created engine backup: empty when the merged spec names none,
  otherwise the Velero storage location of the tenant's location of that name.
\<close>

definition locationResolved :: "cluster \<Rightarrow> string \<Rightarrow> string \<Rightarrow> string \<Rightarrow> bool" where
  "locationResolved c ns named written =
     (if named = [] then written = [] else storageLocationOf c ns named = Some written)"

text \<open>
  What the code sends: the merged spec with the included namespaces and the storage
  location set by the controller, and the controller's exclusions appended.
\<close>

definition engineSpec :: "reconciler \<Rightarrow> string \<Rightarrow> BackupSpec \<Rightarrow> string \<Rightarrow> BackupSpec" where
  "engineSpec r ns tenantSpec location =
     excludeNacResources
       ((enforceBackupSpec (EnforcedBackupSpec r) tenantSpec)
          \<lparr>IncludedNamespaces := Some [ns], StorageLocation := location\<rparr>)"

subsection \<open>The condition every write of a pass meets\<close>

text \<open>
  For a pass on a tenant object of namespace \<open>ns\<close> and backup spec \<open>ts\<close>: a status update
  changes the stored phase as the phase changes of the code allow; an update either keeps
  the finalizer or is sent when no engine backup carries the object's UUID; an engine
  backup is created only outside the deletion paths, for an object without a valid sync
  label, while the stored object has the finalizer and its stored phase is not Created,
  with the included namespaces \<open>[ns]\<close>, the storage location resolved in that cluster and
  the spec built from \<open>ts\<close>.
\<close>

fun okWrite ::
  "env \<Rightarrow> reconciler \<Rightarrow> string \<Rightarrow> BackupSpec \<Rightarrow> bool \<Rightarrow> bool \<Rightarrow> cluster \<Rightarrow> apiWrite \<Rightarrow> bool" where
  "okWrite env r ns ts deleting adopting c (StatusUpdate n) =
     (case tenantNab c of None \<Rightarrow> False
      | Some stored \<Rightarrow>
          phaseChangeAllowed deleting (Phase (nab_Status stored)) (Phase (nab_Status n)))"
| "okWrite env r ns ts deleting adopting c (Update n) =
     (NabFinalizerName env \<in> set (Finalizers (nab_ObjectMeta n))
      \<or> (noBackupUUID n = False \<and> engineBackups env r (backupUUID n) c = []))"
| "okWrite env r ns ts deleting adopting c (CreateBackup b) =
     (IncludedNamespaces (b_Spec b) = Some [ns] \<and> storedFinalizer env c \<and> deleting = False
      \<and> adopting = False \<and> storedPhase c \<noteq> Some NonAdminPhaseCreated
      \<and> locationResolved c ns (StorageLocation (enforceBackupSpec (EnforcedBackupSpec r) ts))
            (StorageLocation (b_Spec b))
      \<and> (b_Spec b)\<lparr>StorageLocation := []\<rparr> = engineSpec r ns ts [])"
| "okWrite env r ns ts deleting adopting c w = True"

text \<open>The object after the phase-initialisation step: an unset phase has become \<open>New\<close>.\<close>

definition initialised :: "NonAdminBackup \<Rightarrow> NonAdminBackup" where
  "initialised nab =
     (if Phase (nab_Status nab) = PhaseUnset then setPhase nab NonAdminPhaseNew else nab)"

subsection \<open>The four paths\<close>

datatype path = GracefulDeletePath | DirectDeletePath | SyncImportPath | CreateUpdatePath

text \<open>The spec's precedence list.\<close>

definition selectedPath :: "env \<Rightarrow> NonAdminBackup \<Rightarrow> path" where
  "selectedPath env nab =
     (if DeleteBackup (nab_Spec nab) then GracefulDeletePath
      else if \<not> timeIsZero (DeletionTimestamp (nab_ObjectMeta nab)) then DirectDeletePath
      else if CheckLabelAnnotationValueIsValid env (Labels (nab_ObjectMeta nab)) (NabSyncLabel env)
        then SyncImportPath
      else CreateUpdatePath)"

fun pathSteps :: "env \<Rightarrow> reconciler \<Rightarrow> path \<Rightarrow> nonAdminBackupReconcileStepFunction list" where
  "pathSteps env r GracefulDeletePath =
     [setStatusAndConditionForDeletionAndCallDelete env r, deleteNonAdminRestores env r,
      createVeleroDeleteBackupRequest env r]"
| "pathSteps env r DirectDeletePath =
     [setStatusForDirectKubernetesAPIDeletion env r, deleteDeleteBackupRequestObjects env r,
      deleteVeleroBackupObjects env r]"
| "pathSteps env r SyncImportPath =
     [setBackupUUIDInStatus env r, setFinalizerOnNonAdminBackup env r,
      createVeleroBackupAndSyncWithNonAdminBackup env r]"
| "pathSteps env r CreateUpdatePath =
     [initNabCreate env r, validateSpec env r, setBackupUUIDInStatus env r,
      setFinalizerOnNonAdminBackup env r, createVeleroBackupAndSyncWithNonAdminBackup env r]"

section \<open>Example objects\<close>

text \<open>
  An environment for the helpers that are parameters: a label is valid when present and
  not empty, a spec is rejected when it includes a namespace other than the tenant's, the
  annotations record the origin namespace, and the queue position is always found.
\<close>

definition exampleEnv :: env where
  "exampleEnv =
     \<lparr>NabFinalizerName = ''nab-finalizer'', NabSyncLabel = ''sync'',
      NabOriginNACUUIDLabel = ''nac-uuid'', NabOriginNamespaceAnnotation = ''origin-ns'',
      BackupNameLabel = ''backup-name'', BackupUIDLabel = ''backup-uid'',
      CheckLabelAnnotationValueIsValid =
        (\<lambda>labels key. case labels key of None \<Rightarrow> False | Some v \<Rightarrow> v \<noteq> []),
      ValidateBackupSpec =
        (\<lambda>c ns nab enforced.
           case IncludedNamespaces (BackupSpecRef (nab_Spec nab)) of
             None \<Rightarrow> None
           | Some l \<Rightarrow> if l = [Namespace (nab_ObjectMeta nab)] then None
                       else Some (Plain ''foreign namespace'')),
      GenerateNacObjectUUID = (\<lambda>ns name. ns @ ''-'' @ name),
      GetNonAdminLabels = [''managed'' \<mapsto> ''true''],
      GetNonAdminBackupAnnotations = (\<lambda>m. [''origin-ns'' \<mapsto> Namespace m]),
      GetBackupQueueInfo = (\<lambda>c ns b. Inr \<lparr>EstimatedQueuePosition = 1\<rparr>),
      GetValidName = (\<lambda>n. n),
      generatedNameSuffix = (\<lambda>c. ''x'')\<rparr>"

definition exampleReconciler :: reconciler where
  "exampleReconciler = \<lparr>EnforcedBackupSpec = zeroBackupSpec\<lparr>TTL := 72\<rparr>, OADPNamespace = ''oadp''\<rparr>"

definition emptyStatus :: NonAdminBackupStatus where
  "emptyStatus =
     \<lparr>Phase = PhaseUnset, Conditions = [], VeleroBackupRef = None,
      VeleroDeleteBackupRequestRef = None, QueueInfoRef = None,
      FileSystemPodVolumeBackupsRef = None, DataMoverDataUploadsRef = None\<rparr>"

text \<open>A fresh tenant object \<open>team-a/db\<close> with an empty backup spec.\<close>

definition exampleNab :: NonAdminBackup where
  "exampleNab =
     \<lparr>nab_ObjectMeta = \<lparr>Name = ''db'', GenerateName = [], Namespace = ''team-a'', UID = ''1'',
         Labels = Map.empty, Annotations = None, Finalizers = [], DeletionTimestamp = None\<rparr>,
      nab_Spec = \<lparr>BackupSpecRef = zeroBackupSpec, DeleteBackup = False\<rparr>,
      nab_Status = emptyStatus\<rparr>"

definition clusterWith :: "NonAdminBackup \<Rightarrow> Backup list \<Rightarrow> cluster" where
  "clusterWith nab bs =
     \<lparr>tenantNab = Some nab, backups = bs, deleteBackupRequests = [], podVolumeBackups = [],
      dataUploads = [], nonAdminRestores = [], nonAdminBackupStorageLocations = [], clock = 7\<rparr>"

definition exampleCluster :: cluster where
  "exampleCluster = clusterWith exampleNab []"

definition exampleRequest :: Request where
  "exampleRequest = \<lparr>req_Namespace = ''team-a'', req_Name = ''db''\<rparr>"

text \<open>A pass of the example reconciler in which every API call succeeds.\<close>

definition examplePass :: "cluster \<Rightarrow> (bool \<times> error option) \<times> pass" where
  "examplePass c = Reconcile exampleEnv exampleReconciler exampleRequest c []"

text \<open>The cluster after the first pass: the engine backup exists, the phase is \<open>Created\<close>.\<close>

definition settledCluster :: cluster where
  "settledCluster = cl (snd (examplePass exampleCluster))"

text \<open>The tenant edits the spec of the stored object.\<close>

definition editSpec :: "(BackupSpec \<Rightarrow> BackupSpec) \<Rightarrow> cluster \<Rightarrow> cluster" where
  "editSpec f c =
     c\<lparr>tenantNab := map_option
          (\<lambda>n. n\<lparr>nab_Spec := (nab_Spec n)\<lparr>BackupSpecRef := f (BackupSpecRef (nab_Spec n))\<rparr>\<rparr>)
          (tenantNab c)\<rparr>"

text \<open>The settled cluster after the engine backup was deleted by someone else.\<close>

definition lostBackupCluster :: cluster where
  "lostBackupCluster = settledCluster\<lparr>backups := []\<rparr>"

text \<open>
  The settled object is edited to include a foreign namespace and reconciled (the phase
  becomes \<open>BackingOff\<close>); then the edit is undone and the engine backup is deleted by
  someone else.
\<close>

definition rejectedCluster :: cluster where
  "rejectedCluster =
     cl (snd (examplePass (editSpec (\<lambda>sp. sp\<lparr>IncludedNamespaces := Some [''team-b'']\<rparr>) settledCluster)))"

definition repairedCluster :: cluster where
  "repairedCluster =
     (editSpec (\<lambda>sp. sp\<lparr>IncludedNamespaces := None\<rparr>) rejectedCluster)\<lparr>backups := []\<rparr>"

text \<open>A fresh object whose spec includes a foreign namespace.\<close>

definition invalidCluster :: cluster where
  "invalidCluster = editSpec (\<lambda>sp. sp\<lparr>IncludedNamespaces := Some [''team-b'']\<rparr>) exampleCluster"

text \<open>The settled object after \<^verbatim>\<open>kubectl delete\<close>, once the engine backup is gone.\<close>

definition deletedCluster :: cluster where
  "deletedCluster =
     lostBackupCluster\<lparr>tenantNab := map_option
        (\<lambda>n. n\<lparr>nab_ObjectMeta := (nab_ObjectMeta n)\<lparr>DeletionTimestamp := Some 5\<rparr>\<rparr>)
        (tenantNab lostBackupCluster)\<rparr>"

text \<open>
  A fresh object with a sync label and a spec that includes a foreign namespace, next to
  an engine backup that carries the label's UUID and the tenant's origin annotation.
\<close>

definition syncNab :: NonAdminBackup where
  "syncNab =
     exampleNab\<lparr>nab_ObjectMeta := (nab_ObjectMeta exampleNab)\<lparr>Labels := [''sync'' \<mapsto> ''u1'']\<rparr>,
                nab_Spec := \<lparr>BackupSpecRef = zeroBackupSpec\<lparr>IncludedNamespaces := Some [''team-b'']\<rparr>,
                             DeleteBackup = False\<rparr>\<rparr>"



text \<open>Listed child objects, one of each list in a phase the counters do not recognise.\<close>

definition examplePodVolumeBackups :: "PodVolumeBackup list" where
  "examplePodVolumeBackups =
     map (\<lambda>ph. \<lparr>pvb_ObjectMeta = nab_ObjectMeta exampleNab, pvb_Phase = ph\<rparr>)
       [''New'', ''Canceled'', ''Completed'']"

definition exampleDataUploads :: "DataUpload list" where
  "exampleDataUploads =
     map (\<lambda>ph. \<lparr>du_ObjectMeta = nab_ObjectMeta exampleNab, du_Phase = ph\<rparr>)
       [''Accepted'', ''Paused'']"


text \<open>Objects that select the two deletion paths.\<close>

definition gracefulNab :: NonAdminBackup where
  "gracefulNab =
     syncNab\<lparr>nab_ObjectMeta := (nab_ObjectMeta syncNab)\<lparr>DeletionTimestamp := Some 5\<rparr>,
             nab_Spec := \<lparr>BackupSpecRef = zeroBackupSpec, DeleteBackup = True\<rparr>\<rparr>"

definition directNab :: NonAdminBackup where
  "directNab = syncNab\<lparr>nab_ObjectMeta := (nab_ObjectMeta syncNab)\<lparr>DeletionTimestamp := Some 5\<rparr>\<rparr>"



text \<open>
  The fresh object naming the tenant's storage location \<open>loc1\<close>, which stands for the
  Velero storage location \<open>velero-loc\<close>.
\<close>

definition exampleLocation :: NonAdminBackupStorageLocation where
  "exampleLocation =
     \<lparr>nabsl_ObjectMeta = (nab_ObjectMeta exampleNab)\<lparr>Name := ''loc1''\<rparr>,
      nabsl_VeleroBackupStorageLocationName = ''velero-loc''\<rparr>"

definition locatedCluster :: cluster where
  "locatedCluster =
     (editSpec (\<lambda>sp. sp\<lparr>StorageLocation := ''loc1''\<rparr>) exampleCluster)
       \<lparr>nonAdminBackupStorageLocations := [exampleLocation]\<rparr>"

section \<open>Lemmas\<close>

subsection \<open>Tracking a pass\<close>

lemma quiet_refl: "quiet s s"
  by (simp add: quiet_def)

lemma quiet_trans: "quiet s s1 \<Longrightarrow> quiet s1 s2 \<Longrightarrow> quiet s s2"
  by (auto simp: quiet_def)

lemma quiet_tracked: "quiet s s1 \<Longrightarrow> tracked ok c0 s \<Longrightarrow> tracked ok c0 s1"
  by (simp add: quiet_def tracked_def)

lemma quiet_synced: "quiet s s1 \<Longrightarrow> synced nab s \<Longrightarrow> synced nab s1"
  by (simp add: quiet_def synced_def)

lemma quiet_cl: "quiet s s1 \<Longrightarrow> cl s1 = cl s"
  by (simp add: quiet_def)

lemma quiet_writes: "quiet s s1 \<Longrightarrow> writes s1 = writes s"
  by (simp add: quiet_def)

lemma quiet_faults: "quiet s s1 \<Longrightarrow> set (faults s1) \<subseteq> set (faults s)"
  by (simp add: quiet_def)

lemma faults_send: "faults (send w s) = faults s"
  by (simp add: send_def)

lemma sentIn_append:
  "sentIn c (ws @ [w]) = sentIn c ws @ [(fold applyWrite ws c, w)]"
  by (induction ws arbitrary: c) simp_all

lemma tracked_send:
  "tracked ok c0 s \<Longrightarrow> ok (cl s) w \<Longrightarrow> tracked ok c0 (send w s)"
  by (simp add: tracked_def send_def sentIn_append)

lemma cl_send: "cl (send w s) = applyWrite w (cl s)"
  by (simp add: send_def)

lemma writes_send: "writes (send w s) = writes s @ [w]"
  by (simp add: send_def)

lemma apiCall_quiet: "apiCall s = (eo, s1) \<Longrightarrow> quiet s s1"
  by (cases "faults s") (auto simp: apiCall_def quiet_def)

lemma apiCall_error: "apiCall s = (Some e, s1) \<Longrightarrow> Some e \<in> set (faults s)"
  by (cases "faults s") (auto simp: apiCall_def)

lemma clientStatusUpdate_error:
  assumes run: "clientStatusUpdate n0 s = (Some e, nab', s')"
    and sy: "synced nab s" and m: "nab_ObjectMeta n0 = nab_ObjectMeta nab"
  shows "Some e \<in> set (faults s)"
proof (cases "apiCall s")
  case (Pair eo s1)
  from apiCall_quiet[OF Pair] have c: "cl s1 = cl s" by (simp add: quiet_def)
  show ?thesis
  proof (cases eo)
    case None
    with run Pair sy m c show ?thesis
      by (simp add: clientStatusUpdate_def synced_def sameObject_def)
  next
    case (Some a)
    with run Pair have "a = e" by (simp add: clientStatusUpdate_def)
    with Some Pair show ?thesis by (simp add: apiCall_error)
  qed
qed

lemma clientStatusUpdate_spec:
  "clientStatusUpdate nab s = (eo, nab', s') \<Longrightarrow>
     (\<exists>e. eo = Some e \<and> nab' = nab \<and> quiet s s')
     \<or> (\<exists>old s1. eo = None \<and> tenantNab (cl s) = Some old \<and> quiet s s1
          \<and> sameObject (nab_ObjectMeta old) (nab_ObjectMeta nab)
          \<and> nab' = old\<lparr>nab_Status := nab_Status nab\<rparr>
          \<and> s' = send (StatusUpdate nab') s1)"
  apply (cases "apiCall s")
  apply (frule apiCall_quiet)
  apply (simp add: clientStatusUpdate_def split: option.splits if_splits)
  apply (auto simp: quiet_def)
  done

lemma clientUpdate_spec:
  "clientUpdate nab s = (eo, nab', s') \<Longrightarrow>
     (\<exists>e. eo = Some e \<and> nab' = nab \<and> quiet s s')
     \<or> (\<exists>old s1. eo = None \<and> tenantNab (cl s) = Some old \<and> quiet s s1
          \<and> sameObject (nab_ObjectMeta old) (nab_ObjectMeta nab)
          \<and> nab' = nab\<lparr>nab_Status := nab_Status old\<rparr>
          \<and> s' = send (Update nab') s1)"
  apply (cases "apiCall s")
  apply (frule apiCall_quiet)
  apply (simp add: clientUpdate_def split: option.splits if_splits)
  apply (auto simp: quiet_def)
  done

lemma clientDeleteNab_spec:
  "clientDeleteNab nab s = (eo, s') \<Longrightarrow>
     (\<exists>e. eo = Some e \<and> quiet s s')
     \<or> (\<exists>s1. eo = None \<and> quiet s s1 \<and> s' = send (DeleteNonAdminBackup nab) s1)"
  apply (cases "apiCall s")
  apply (frule apiCall_quiet)
  apply (simp add: clientDeleteNab_def split: option.splits if_splits)
  apply (auto simp: quiet_def)
  done

lemma clientGetNab_spec:
  "clientGetNab ns name s = (res, s') \<Longrightarrow>
     quiet s s' \<and> (case res of Inl e \<Rightarrow> True
        | Inr n \<Rightarrow> tenantNab (cl s) = Some n \<and> Namespace (nab_ObjectMeta n) = ns
                   \<and> Name (nab_ObjectMeta n) = name)"
  apply (cases "apiCall s")
  apply (frule apiCall_quiet)
  apply (simp add: clientGetNab_def split: option.splits if_splits)
  apply (auto simp: quiet_def)
  done

lemma clientList_spec:
  "clientList objs meta ns sel s = (res, s') \<Longrightarrow>
     quiet s s' \<and> (case res of Inl e \<Rightarrow> True
        | Inr items \<Rightarrow> items = filter (\<lambda>x. Namespace (meta x) = ns
                         \<and> (case sel of None \<Rightarrow> True | Some (k, v) \<Rightarrow> Labels (meta x) k = Some v))
                  (objs (cl s)))"
  apply (cases "apiCall s")
  apply (frule apiCall_quiet)
  apply (rename_tac eo s1)
  apply (case_tac eo)
   apply (auto simp: clientList_def quiet_def)
  done

lemma clientCreateBackup_spec:
  "clientCreateBackup b s = (eo, s') \<Longrightarrow>
     (\<exists>e. eo = Some e \<and> quiet s s')
     \<or> (\<exists>s1. eo = None \<and> quiet s s1 \<and> s' = send (CreateBackup b) s1)"
  apply (cases "apiCall s")
  apply (frule apiCall_quiet)
  apply (simp add: clientCreateBackup_def split: option.splits if_splits)
  apply (auto simp: quiet_def)
  done

lemma clientDeleteBackup_spec:
  "clientDeleteBackup b s = (eo, s') \<Longrightarrow>
     (\<exists>e. eo = Some e \<and> quiet s s')
     \<or> (\<exists>s1. eo = None \<and> quiet s s1 \<and> s' = send (DeleteBackupObject b) s1)"
  apply (cases "apiCall s")
  apply (frule apiCall_quiet)
  apply (simp add: clientDeleteBackup_def split: option.splits if_splits)
  apply (auto simp: quiet_def)
  done

lemma clientDeleteDeleteBackupRequest_spec:
  "clientDeleteDeleteBackupRequest d s = (eo, s') \<Longrightarrow>
     (\<exists>e. eo = Some e \<and> quiet s s')
     \<or> (\<exists>s1. eo = None \<and> quiet s s1 \<and> s' = send (DeleteDeleteBackupRequest d) s1)"
  apply (cases "apiCall s")
  apply (frule apiCall_quiet)
  apply (simp add: clientDeleteDeleteBackupRequest_def split: option.splits if_splits)
  apply (auto simp: quiet_def)
  done

lemma clientDeleteNonAdminRestore_spec:
  "clientDeleteNonAdminRestore x s = (eo, s') \<Longrightarrow>
     (\<exists>e. eo = Some e \<and> quiet s s')
     \<or> (\<exists>s1. eo = None \<and> quiet s s1 \<and> s' = send (DeleteNonAdminRestore x) s1)"
  apply (cases "apiCall s")
  apply (frule apiCall_quiet)
  apply (simp add: clientDeleteNonAdminRestore_def split: option.splits if_splits)
  apply (auto simp: quiet_def)
  done

lemma clientGetNabsl_quiet: "clientGetNabsl ns name s = (res, s') \<Longrightarrow> quiet s s'"
  apply (cases "apiCall s")
  apply (frule apiCall_quiet)
  apply (simp add: clientGetNabsl_def split: option.splits list.splits)
  done

lemma CreateRetryGenerateName_spec:
  "CreateRetryGenerateName env d s = (eo, d', s') \<Longrightarrow>
     (\<exists>e. eo = Some e \<and> quiet s s')
     \<or> (\<exists>s1. eo = None \<and> quiet s s1 \<and> s' = send (CreateDeleteBackupRequest d') s1)"
  apply (cases "apiCall s")
  apply (frule apiCall_quiet)
  apply (simp add: CreateRetryGenerateName_def Let_def split: option.splits if_splits)
  apply (auto simp: quiet_def)
  done

lemma GetVeleroBackupByLabel_spec:
  "GetVeleroBackupByLabel env (OADPNamespace r) uuid s = (res, s') \<Longrightarrow>
     quiet s s' \<and> (case res of Inl e \<Rightarrow> True
        | Inr None \<Rightarrow> engineBackups env r uuid (cl s) = []
        | Inr (Some b) \<Rightarrow> engineBackups env r uuid (cl s) = [b])"
  apply (cases "clientList backups b_ObjectMeta (OADPNamespace r) (Some (NabOriginNACUUIDLabel env, uuid)) s")
  apply (frule clientList_spec)
  apply (simp add: GetVeleroBackupByLabel_def split: sum.splits list.splits)
  apply (auto simp: engineBackups_def)
  done

lemma GetVeleroDeleteBackupRequestByLabel_quiet:
  "GetVeleroDeleteBackupRequestByLabel env ns uuid s = (res, s') \<Longrightarrow> quiet s s'"
  apply (cases "clientList deleteBackupRequests dbr_ObjectMeta ns (Some (NabOriginNACUUIDLabel env, uuid)) s")
  apply (frule clientList_spec)
  apply (simp add: GetVeleroDeleteBackupRequestByLabel_def split: sum.splits list.splits)
  done

lemma SetStatusCondition_unchanged:
  "SetStatusCondition cs c = (cs', False) \<Longrightarrow> cs' = cs"
proof (induction cs arbitrary: cs')
  case Nil
  then show ?case by simp
next
  case (Cons a cs)
  show ?case
  proof (cases "c_Type a = c_Type c")
    case True
    with Cons.prems show ?thesis by auto
  next
    case False
    with Cons.prems Cons.IH show ?thesis
      by (auto split: prod.splits)
  qed
qed

lemma synced_send_other:
  "\<not> (\<exists>n. w = StatusUpdate n) \<Longrightarrow> \<not> (\<exists>n. w = Update n) \<Longrightarrow> \<not> (\<exists>n. w = DeleteNonAdminBackup n)
     \<Longrightarrow> synced nab (send w s) = synced nab s"
  by (cases w) (simp_all add: synced_def send_def)

lemma statusUpdate_tracked:
  assumes run: "clientStatusUpdate n0 s = (eo, nab', s')"
    and tr: "tracked ok c0 s" and sy: "synced nab s"
    and same: "nab_ObjectMeta n0 = nab_ObjectMeta nab" "nab_Spec n0 = nab_Spec nab"
    and ob: "ok (cl s) (StatusUpdate n0)"
  shows "tracked ok c0 s' \<and> (eo = None \<longrightarrow> synced nab' s' \<and> nab' = n0)"
proof -
  from clientStatusUpdate_spec[OF run] show ?thesis
  proof (elim disjE exE conjE)
    fix e assume "eo = Some e" "quiet s s'"
    with tr show ?thesis by (auto intro: quiet_tracked)
  next
    fix old s1
    assume a: "eo = None" "tenantNab (cl s) = Some old" "quiet s s1"
      "nab' = old\<lparr>nab_Status := nab_Status n0\<rparr>" "s' = send (StatusUpdate nab') s1"
    from a(2) sy have "old = nab" by (simp add: synced_def)
    with a(4) same have eq: "nab' = n0" by simp
    from a(3) tr have t1: "tracked ok c0 s1" by (rule quiet_tracked)
    from a(3) have c1: "cl s1 = cl s" by (simp add: quiet_def)
    from t1 ob c1 eq have "tracked ok c0 (send (StatusUpdate nab') s1)"
      by (intro tracked_send) simp_all
    moreover have "synced nab' (send (StatusUpdate nab') s1)"
      by (simp add: synced_def send_def)
    ultimately show ?thesis using a(5) eq by simp
  qed
qed

lemma updateNonAdminPhase_eq: "updateNonAdminPhase ph p = (p, ph \<noteq> p)"
  by (simp add: updateNonAdminPhase_def)

lemma setPhaseAndCondition_alt:
  "setPhaseAndCondition nab p cond s =
     (if Phase (nab_Status nab) \<noteq> p \<or> snd (SetStatusCondition (Conditions (nab_Status nab)) cond)
      then clientStatusUpdate
             (setConditions (setPhase nab p) (fst (SetStatusCondition (Conditions (nab_Status nab)) cond))) s
      else (None, nab, s))"
proof (cases "SetStatusCondition (Conditions (nab_Status nab)) cond")
  case (Pair cs ch)
  show ?thesis
  proof (cases "Phase (nab_Status nab) \<noteq> p \<or> ch")
    case True
    with Pair show ?thesis
      by (simp add: setPhaseAndCondition_def updateNonAdminPhase_eq)
  next
    case False
    then have ph: "Phase (nab_Status nab) = p" and "\<not> ch" by simp_all
    with Pair have "SetStatusCondition (Conditions (nab_Status nab)) cond = (cs, False)"
      by simp
    then have "cs = Conditions (nab_Status nab)"
      by (rule SetStatusCondition_unchanged)
    with Pair ph \<open>\<not> ch\<close> show ?thesis
      by (simp add: setPhaseAndCondition_def updateNonAdminPhase_eq setPhase_def setConditions_def)
  qed
qed

lemma setPhase_setConditions_simps:
  "nab_ObjectMeta (setPhase nab p) = nab_ObjectMeta nab"
  "nab_Spec (setPhase nab p) = nab_Spec nab"
  "Phase (nab_Status (setPhase nab p)) = p"
  "Conditions (nab_Status (setPhase nab p)) = Conditions (nab_Status nab)"
  "VeleroBackupRef (nab_Status (setPhase nab p)) = VeleroBackupRef (nab_Status nab)"
  "nab_ObjectMeta (setConditions nab cs) = nab_ObjectMeta nab"
  "nab_Spec (setConditions nab cs) = nab_Spec nab"
  "Phase (nab_Status (setConditions nab cs)) = Phase (nab_Status nab)"
  "Conditions (nab_Status (setConditions nab cs)) = cs"
  "VeleroBackupRef (nab_Status (setConditions nab cs)) = VeleroBackupRef (nab_Status nab)"
  by (simp_all add: setPhase_def setConditions_def)

lemma setPhaseAndCondition_tracked:
  assumes run: "setPhaseAndCondition nab p cond s = (eo, nab', s')"
    and tr: "tracked ok c0 s" and sy: "synced nab s"
    and ob: "\<And>n. nab_ObjectMeta n = nab_ObjectMeta nab \<Longrightarrow> Phase (nab_Status n) = p
                \<Longrightarrow> VeleroBackupRef (nab_Status n) = VeleroBackupRef (nab_Status nab)
                \<Longrightarrow> ok (cl s) (StatusUpdate n)"
  shows "tracked ok c0 s' \<and>
         (eo = None \<longrightarrow> synced nab' s' \<and> nab_ObjectMeta nab' = nab_ObjectMeta nab
            \<and> nab_Spec nab' = nab_Spec nab)"
proof (cases "Phase (nab_Status nab) \<noteq> p \<or> snd (SetStatusCondition (Conditions (nab_Status nab)) cond)")
  case True
  let ?n0 = "setConditions (setPhase nab p) (fst (SetStatusCondition (Conditions (nab_Status nab)) cond))"
  from True run have r: "clientStatusUpdate ?n0 s = (eo, nab', s')"
    by (simp add: setPhaseAndCondition_alt)
  have m: "nab_ObjectMeta ?n0 = nab_ObjectMeta nab" "nab_Spec ?n0 = nab_Spec nab"
    by (simp_all add: setPhase_setConditions_simps)
  have "ok (cl s) (StatusUpdate ?n0)"
    by (rule ob) (simp_all add: setPhase_setConditions_simps)
  from statusUpdate_tracked[OF r tr sy m this] m
  show ?thesis by auto
next
  case False
  with run have "eo = None" "nab' = nab" "s' = s"
    by (simp_all add: setPhaseAndCondition_alt)
  with tr sy show ?thesis by simp
qed

lemma clientUpdate_tracked:
  assumes run: "clientUpdate n0 s = (eo, nab', s')"
    and tr: "tracked ok c0 s" and sy: "synced nab s"
    and same: "nab_Status n0 = nab_Status nab"
    and ob: "ok (cl s) (Update n0)"
  shows "tracked ok c0 s' \<and>
         (eo = None \<longrightarrow> nab' = n0 \<and> (Finalizers (nab_ObjectMeta n0) \<noteq> [] \<longrightarrow> synced nab' s'))"
proof -
  from clientUpdate_spec[OF run] show ?thesis
  proof (elim disjE exE conjE)
    fix e assume "eo = Some e" "quiet s s'"
    with tr show ?thesis by (auto intro: quiet_tracked)
  next
    fix old s1
    assume a: "eo = None" "tenantNab (cl s) = Some old" "quiet s s1"
      "nab' = n0\<lparr>nab_Status := nab_Status old\<rparr>" "s' = send (Update nab') s1"
    from a(2) sy have "old = nab" by (simp add: synced_def)
    with a(4) same have eq: "nab' = n0" by simp
    from a(3) tr have t1: "tracked ok c0 s1" by (rule quiet_tracked)
    from a(3) have c1: "cl s1 = cl s" by (simp add: quiet_def)
    from t1 ob c1 eq have "tracked ok c0 (send (Update nab') s1)"
      by (intro tracked_send) simp_all
    moreover have "Finalizers (nab_ObjectMeta n0) \<noteq> [] \<longrightarrow> synced nab' (send (Update nab') s1)"
      using eq by (simp add: synced_def send_def)
    ultimately show ?thesis using a(5) eq by simp
  qed
qed

lemma send_tracked_quiet:
  "quiet s s1 \<Longrightarrow> tracked ok c0 s \<Longrightarrow> ok (cl s) w \<Longrightarrow> tracked ok c0 (send w s1)"
  by (rule tracked_send) (auto intro: quiet_tracked simp: quiet_cl)

lemma send_synced_quiet:
  "quiet s s1 \<Longrightarrow> \<not> (\<exists>n. w = StatusUpdate n) \<Longrightarrow> \<not> (\<exists>n. w = Update n)
     \<Longrightarrow> \<not> (\<exists>n. w = DeleteNonAdminBackup n) \<Longrightarrow> synced nab s \<Longrightarrow> synced nab (send w s1)"
  by (simp add: synced_send_other) (rule quiet_synced)

lemma initNabCreate_tracked:
  assumes run: "initNabCreate env r nab s = (res, nab', s')"
    and tr: "tracked ok c0 s" and sy: "synced nab s"
    and ob: "\<And>n. nab_ObjectMeta n = nab_ObjectMeta nab \<Longrightarrow> Phase (nab_Status nab) = PhaseUnset
                \<Longrightarrow> Phase (nab_Status n) = NonAdminPhaseNew \<Longrightarrow> ok (cl s) (StatusUpdate n)"
  shows "tracked ok c0 s' \<and>
         (res = (False, None) \<longrightarrow> synced nab' s' \<and> nab_ObjectMeta nab' = nab_ObjectMeta nab
            \<and> nab_Spec nab' = nab_Spec nab)"
proof (cases "Phase (nab_Status nab) = PhaseUnset")
  case False
  with run tr sy show ?thesis by (simp add: initNabCreate_def)
next
  case True
  obtain eo n1 s1 where u: "clientStatusUpdate (setPhase nab NonAdminPhaseNew) s = (eo, n1, s1)"
    by (cases "clientStatusUpdate (setPhase nab NonAdminPhaseNew) s") auto
  have m: "nab_ObjectMeta (setPhase nab NonAdminPhaseNew) = nab_ObjectMeta nab"
    "nab_Spec (setPhase nab NonAdminPhaseNew) = nab_Spec nab"
    by (simp_all add: setPhase_setConditions_simps)
  have "ok (cl s) (StatusUpdate (setPhase nab NonAdminPhaseNew))"
    by (rule ob) (simp_all add: setPhase_setConditions_simps True)
  note t = statusUpdate_tracked[OF u tr sy m this]
  from run True u have "res = (False, eo) \<and> nab' = n1 \<and> s' = s1"
    by (cases eo) (auto simp: initNabCreate_def updateNonAdminPhase_eq)
  with t m show ?thesis by auto
qed

lemma validateSpec_tracked:
  assumes run: "validateSpec env r nab s = (res, nab', s')"
    and tr: "tracked ok c0 s" and sy: "synced nab s"
    and ob1: "\<And>n. nab_ObjectMeta n = nab_ObjectMeta nab
                \<Longrightarrow> Phase (nab_Status n) = NonAdminPhaseBackingOff \<Longrightarrow> ok (cl s) (StatusUpdate n)"
    and ob2: "\<And>n. nab_ObjectMeta n = nab_ObjectMeta nab
                \<Longrightarrow> Phase (nab_Status n) = Phase (nab_Status nab) \<Longrightarrow> ok (cl s) (StatusUpdate n)"
  shows "tracked ok c0 s' \<and>
         (res = (False, None) \<longrightarrow> synced nab' s' \<and> nab_ObjectMeta nab' = nab_ObjectMeta nab
            \<and> nab_Spec nab' = nab_Spec nab)"
proof (cases "ValidateBackupSpec env (cl s) (OADPNamespace r) nab (EnforcedBackupSpec r)")
  case (Some err)
  let ?c = "\<lparr>c_Type = NonAdminConditionAccepted, c_Status = ConditionFalse,
             c_Reason = ''InvalidBackupSpec'', c_Message = Error err\<rparr>"
  obtain eo n1 s1 where u: "setPhaseAndCondition nab NonAdminPhaseBackingOff ?c s = (eo, n1, s1)"
    by (cases "setPhaseAndCondition nab NonAdminPhaseBackingOff ?c s") auto
  from setPhaseAndCondition_tracked[OF u tr sy] ob1
  have t: "tracked ok c0 s1" by blast
  from run Some u have "snd res \<noteq> None \<and> s' = s1"
    by (cases eo) (auto simp: validateSpec_def)
  with t show ?thesis by (cases res) auto
next
  case None
  let ?c = "\<lparr>c_Type = NonAdminConditionAccepted, c_Status = ConditionTrue,
             c_Reason = ''BackupAccepted'', c_Message = ''backup accepted''\<rparr>"
  obtain cs ch where ssc: "SetStatusCondition (Conditions (nab_Status nab)) ?c = (cs, ch)"
    by (cases "SetStatusCondition (Conditions (nab_Status nab)) ?c") auto
  show ?thesis
  proof (cases ch)
    case False
    with ssc have "cs = Conditions (nab_Status nab)"
      using SetStatusCondition_unchanged by simp
    then have "setConditions nab cs = nab" by (simp add: setConditions_def)
    with run None ssc False tr sy show ?thesis by (auto simp: validateSpec_def)
  next
    case True
    obtain eo n1 s1 where u: "clientStatusUpdate (setConditions nab cs) s = (eo, n1, s1)"
      by (cases "clientStatusUpdate (setConditions nab cs) s") auto
    have m: "nab_ObjectMeta (setConditions nab cs) = nab_ObjectMeta nab"
      "nab_Spec (setConditions nab cs) = nab_Spec nab"
      by (simp_all add: setPhase_setConditions_simps)
    have "ok (cl s) (StatusUpdate (setConditions nab cs))"
      by (rule ob2) (simp_all add: setPhase_setConditions_simps)
    note t = statusUpdate_tracked[OF u tr sy m this]
    from run None ssc True u have "res = (False, eo) \<and> nab' = n1 \<and> s' = s1"
      by (cases eo) (auto simp: validateSpec_def)
    with t m show ?thesis by auto
  qed
qed

lemma setBackupUUIDInStatus_tracked:
  assumes run: "setBackupUUIDInStatus env r nab s = (res, nab', s')"
    and tr: "tracked ok c0 s" and sy: "synced nab s"
    and ob: "\<And>n. nab_ObjectMeta n = nab_ObjectMeta nab
                \<Longrightarrow> Phase (nab_Status n) = Phase (nab_Status nab) \<Longrightarrow> ok (cl s) (StatusUpdate n)"
  shows "tracked ok c0 s' \<and>
         (res = (False, None) \<longrightarrow> synced nab' s' \<and> nab_ObjectMeta nab' = nab_ObjectMeta nab
            \<and> nab_Spec nab' = nab_Spec nab)"
proof -
  obtain g s0 where g: "clientGetNab (Namespace (nab_ObjectMeta nab)) (Name (nab_ObjectMeta nab)) s = (g, s0)"
    by (cases "clientGetNab (Namespace (nab_ObjectMeta nab)) (Name (nab_ObjectMeta nab)) s") auto
  from clientGetNab_spec[OF g] have q: "quiet s s0" by simp
  from q tr sy have tr0: "tracked ok c0 s0" and sy0: "synced nab s0"
    by (auto intro: quiet_tracked quiet_synced)
  from q have c0: "cl s0 = cl s" by (simp add: quiet_def)
  show ?thesis
  proof (cases g)
    case (Inl e)
    with run g tr0 show ?thesis by (auto simp: setBackupUUIDInStatus_def)
  next
    case (Inr n1)
    with clientGetNab_spec[OF g] sy have n1: "n1 = nab" by (simp add: synced_def)
    show ?thesis
    proof (cases "noBackupUUID nab")
      case False
      with run g Inr n1 tr0 sy0 show ?thesis by (auto simp: setBackupUUIDInStatus_def)
    next
      case True
      define n0 where "n0 = nab\<lparr>nab_Status := (nab_Status nab)\<lparr>VeleroBackupRef :=
          Some \<lparr>vb_NACUUID = (case Labels (nab_ObjectMeta nab) (NabSyncLabel env) of
                                Some val \<Rightarrow> val
                              | None \<Rightarrow> GenerateNacObjectUUID env (Namespace (nab_ObjectMeta nab))
                                          (Name (nab_ObjectMeta nab))),
                vb_Namespace = OADPNamespace r,
                vb_Name = (case Labels (nab_ObjectMeta nab) (NabSyncLabel env) of
                                Some val \<Rightarrow> val
                              | None \<Rightarrow> GenerateNacObjectUUID env (Namespace (nab_ObjectMeta nab))
                                          (Name (nab_ObjectMeta nab))),
                vb_Spec = None, vb_Status = None\<rparr>\<rparr>\<rparr>"
      obtain eo n2 s2 where u: "clientStatusUpdate n0 s0 = (eo, n2, s2)"
        by (cases "clientStatusUpdate n0 s0") auto
      have m: "nab_ObjectMeta n0 = nab_ObjectMeta nab" "nab_Spec n0 = nab_Spec nab"
        "Phase (nab_Status n0) = Phase (nab_Status nab)"
        by (simp_all add: n0_def)
      have "ok (cl s0) (StatusUpdate n0)"
        unfolding c0 by (rule ob) (fact m)+
      note t = statusUpdate_tracked[OF u tr0 sy0 m(1,2) this]
      from run g Inr n1 True u have "res = (False, eo) \<and> nab' = n2 \<and> s' = s2"
        by (cases eo) (auto simp: setBackupUUIDInStatus_def Let_def n0_def)
      with t m show ?thesis by auto
    qed
  qed
qed

lemma setFinalizerOnNonAdminBackup_tracked:
  assumes run: "setFinalizerOnNonAdminBackup env r nab s = (res, nab', s')"
    and tr: "tracked ok c0 s" and sy: "synced nab s"
    and ob: "\<And>n. NabFinalizerName env \<in> set (Finalizers (nab_ObjectMeta n))
                \<Longrightarrow> nab_Status n = nab_Status nab \<Longrightarrow> ok (cl s) (Update n)"
  shows "tracked ok c0 s' \<and>
         (res = (False, None) \<longrightarrow> synced nab' s'
            \<and> NabFinalizerName env \<in> set (Finalizers (nab_ObjectMeta nab'))
            \<and> Namespace (nab_ObjectMeta nab') = Namespace (nab_ObjectMeta nab)
            \<and> Labels (nab_ObjectMeta nab') = Labels (nab_ObjectMeta nab)
            \<and> nab_Spec nab' = nab_Spec nab \<and> nab_Status nab' = nab_Status nab)"
proof (cases "ContainsFinalizer (nab_ObjectMeta nab) (NabFinalizerName env)")
  case True
  with run tr sy show ?thesis by (auto simp: setFinalizerOnNonAdminBackup_def ContainsFinalizer_def)
next
  case False
  define n0 where "n0 = nab\<lparr>nab_ObjectMeta := AddFinalizer (nab_ObjectMeta nab) (NabFinalizerName env)\<rparr>"
  have fin: "NabFinalizerName env \<in> set (Finalizers (nab_ObjectMeta n0))"
    by (simp add: n0_def AddFinalizer_def)
  then have ne: "Finalizers (nab_ObjectMeta n0) \<noteq> []" by auto
  obtain eo n1 s1 where u: "clientUpdate n0 s = (eo, n1, s1)"
    by (cases "clientUpdate n0 s") auto
  have m: "nab_Status n0 = nab_Status nab" "nab_Spec n0 = nab_Spec nab"
    "Namespace (nab_ObjectMeta n0) = Namespace (nab_ObjectMeta nab)"
    "Labels (nab_ObjectMeta n0) = Labels (nab_ObjectMeta nab)"
    by (simp_all add: n0_def AddFinalizer_def)
  have "ok (cl s) (Update n0)"
    by (rule ob[OF fin]) (fact m)
  note t = clientUpdate_tracked[OF u tr sy m(1) this]
  from run False u have "res = (False, eo) \<and> nab' = n1 \<and> s' = s1"
    by (cases eo) (auto simp: setFinalizerOnNonAdminBackup_def n0_def)
  with t fin ne m show ?thesis by auto
qed

lemma removeNabFinalizer_tracked:
  assumes run: "removeNabFinalizerUponVeleroBackupDeletion env r nab s = (res, nab', s')"
    and tr: "tracked ok c0 s" and sy: "synced nab s"
    and ob: "\<And>n. nab_Status n = nab_Status nab \<Longrightarrow> ok (cl s) (Update n)"
  shows "tracked ok c0 s'"
proof -
  define n0 where "n0 = nab\<lparr>nab_ObjectMeta := RemoveFinalizer (nab_ObjectMeta nab) (NabFinalizerName env)\<rparr>"
  obtain eo n1 s1 where u: "clientUpdate n0 s = (eo, n1, s1)"
    by (cases "clientUpdate n0 s") auto
  have m: "nab_Status n0 = nab_Status nab" by (simp add: n0_def)
  have "ok (cl s) (Update n0)" by (rule ob) (fact m)
  note t = clientUpdate_tracked[OF u tr sy m this]
  from run u have "s' = s1"
    by (cases eo) (auto simp: removeNabFinalizerUponVeleroBackupDeletion_def n0_def)
  with t show ?thesis by simp
qed

lemma deleteMatchingRestores_tracked:
  assumes ob: "\<And>c x. ok c (DeleteNonAdminRestore x)"
  shows "deleteMatchingRestores name xs s = (eo, s') \<Longrightarrow> tracked ok c0 s \<Longrightarrow> synced nab s
           \<Longrightarrow> tracked ok c0 s' \<and> synced nab s'"
proof (induction xs arbitrary: s)
  case Nil
  then show ?case by simp
next
  case (Cons x xs)
  show ?case
  proof (cases "nar_BackupName x = name")
    case False
    with Cons show ?thesis by simp
  next
    case True
    obtain e1 s1 where d: "clientDeleteNonAdminRestore x s = (e1, s1)"
      by (cases "clientDeleteNonAdminRestore x s") auto
    from clientDeleteNonAdminRestore_spec[OF d]
    have t1: "tracked ok c0 s1 \<and> synced nab s1"
    proof (elim disjE exE conjE)
      fix e assume "quiet s s1"
      with Cons.prems show ?thesis by (auto intro: quiet_tracked quiet_synced)
    next
      fix s0 assume q: "quiet s s0" and s1: "s1 = send (DeleteNonAdminRestore x) s0"
      from send_tracked_quiet[OF q Cons.prems(2) ob]
        send_synced_quiet[OF q _ _ _ Cons.prems(3), of "DeleteNonAdminRestore x"] s1
      show ?thesis by simp
    qed
    show ?thesis
    proof (cases e1)
      case None
      with Cons.prems(1) True d have "deleteMatchingRestores name xs s1 = (eo, s')" by simp
      from Cons.IH[OF this] t1 show ?thesis by simp
    next
      case (Some e)
      with Cons.prems(1) True d have "s' = s1" by auto
      with t1 show ?thesis by simp
    qed
  qed
qed

lemma deleteNonAdminRestores_tracked:
  assumes run: "deleteNonAdminRestores env r nab s = (res, nab', s')"
    and tr: "tracked ok c0 s" and sy: "synced nab s"
    and ob: "\<And>c x. ok c (DeleteNonAdminRestore x)"
  shows "tracked ok c0 s' \<and> synced nab' s' \<and> nab' = nab"
proof -
  obtain l s1 where l: "clientList nonAdminRestores nar_ObjectMeta (Namespace (nab_ObjectMeta nab)) None s = (l, s1)"
    by (cases "clientList nonAdminRestores nar_ObjectMeta (Namespace (nab_ObjectMeta nab)) None s") auto
  from clientList_spec[OF l] have q: "quiet s s1" by simp
  from q tr sy have t1: "tracked ok c0 s1" "synced nab s1"
    by (auto intro: quiet_tracked quiet_synced)
  show ?thesis
  proof (cases l)
    case (Inl e)
    with run l t1 show ?thesis by (auto simp: deleteNonAdminRestores_def)
  next
    case (Inr items)
    obtain e2 s2 where d: "deleteMatchingRestores (Name (nab_ObjectMeta nab)) items s1 = (e2, s2)"
      by (cases "deleteMatchingRestores (Name (nab_ObjectMeta nab)) items s1") auto
    from deleteMatchingRestores_tracked[OF ob d t1]
    have t2: "tracked ok c0 s2 \<and> synced nab s2" .
    from run l Inr d have "nab' = nab \<and> s' = s2"
      by (cases e2) (auto simp: deleteNonAdminRestores_def)
    with t2 show ?thesis by simp
  qed
qed

lemma setStatusForDirectKubernetesAPIDeletion_tracked:
  assumes run: "setStatusForDirectKubernetesAPIDeletion env r nab s = (res, nab', s')"
    and tr: "tracked ok c0 s" and sy: "synced nab s"
    and ob: "\<And>n. nab_ObjectMeta n = nab_ObjectMeta nab
                \<Longrightarrow> Phase (nab_Status n) = NonAdminPhaseDeleting \<Longrightarrow> ok (cl s) (StatusUpdate n)"
  shows "tracked ok c0 s' \<and>
         (res = (False, None) \<longrightarrow> synced nab' s' \<and> nab_ObjectMeta nab' = nab_ObjectMeta nab
            \<and> nab_Spec nab' = nab_Spec nab)"
proof -
  let ?c = "\<lparr>c_Type = NonAdminConditionDeleting, c_Status = ConditionTrue,
              c_Reason = ''DeletionPending'',
              c_Message = ''permanent backup deletion requires setting spec.deleteBackup to true''\<rparr>"
  obtain eo n1 s1 where u: "setPhaseAndCondition nab NonAdminPhaseDeleting ?c s = (eo, n1, s1)"
    by (cases "setPhaseAndCondition nab NonAdminPhaseDeleting ?c s") auto
  from setPhaseAndCondition_tracked[OF u tr sy] ob
  have t: "tracked ok c0 s1 \<and>
         (eo = None \<longrightarrow> synced n1 s1 \<and> nab_ObjectMeta n1 = nab_ObjectMeta nab
            \<and> nab_Spec n1 = nab_Spec nab)" by blast
  from run u have "res = (False, eo) \<and> nab' = n1 \<and> s' = s1"
    by (cases eo) (auto simp: setStatusForDirectKubernetesAPIDeletion_def)
  with t show ?thesis by auto
qed

lemma setStatusAndConditionForDeletionAndCallDelete_tracked:
  assumes run: "setStatusAndConditionForDeletionAndCallDelete env r nab s = (res, nab', s')"
    and tr: "tracked ok c0 s" and sy: "synced nab s"
    and ob: "\<And>n. nab_ObjectMeta n = nab_ObjectMeta nab
                \<Longrightarrow> Phase (nab_Status n) = NonAdminPhaseDeleting \<Longrightarrow> ok (cl s) (StatusUpdate n)"
    and obd: "\<And>c n. ok c (DeleteNonAdminBackup n)"
  shows "tracked ok c0 s' \<and>
         (res = (False, None) \<longrightarrow> synced nab' s' \<and> nab_ObjectMeta nab' = nab_ObjectMeta nab
            \<and> nab_Spec nab' = nab_Spec nab)"
proof -
  let ?c = "\<lparr>c_Type = NonAdminConditionDeleting, c_Status = ConditionTrue,
              c_Reason = ''DeletionPending'', c_Message = ''backup accepted for deletion''\<rparr>"
  obtain eo n1 s1 where u: "setPhaseAndCondition nab NonAdminPhaseDeleting ?c s = (eo, n1, s1)"
    by (cases "setPhaseAndCondition nab NonAdminPhaseDeleting ?c s") auto
  from setPhaseAndCondition_tracked[OF u tr sy] ob
  have t: "tracked ok c0 s1 \<and>
         (eo = None \<longrightarrow> synced n1 s1 \<and> nab_ObjectMeta n1 = nab_ObjectMeta nab
            \<and> nab_Spec n1 = nab_Spec nab)" by blast
  show ?thesis
  proof (cases eo)
    case (Some e)
    with run u have "res = (False, Some e) \<and> s' = s1"
      by (auto simp: setStatusAndConditionForDeletionAndCallDelete_def)
    with t show ?thesis by simp
  next
    case None
    show ?thesis
    proof (cases "timeIsZero (DeletionTimestamp (nab_ObjectMeta n1))")
      case False
      with run u None have "res = (False, None) \<and> nab' = n1 \<and> s' = s1"
        by (auto simp: setStatusAndConditionForDeletionAndCallDelete_def)
      with t None show ?thesis by simp
    next
      case True
      obtain e2 s2 where d: "clientDeleteNab n1 s1 = (e2, s2)"
        by (cases "clientDeleteNab n1 s1") auto
      from clientDeleteNab_spec[OF d] t obd have t2: "tracked ok c0 s2"
        by (auto intro: quiet_tracked send_tracked_quiet)
      from run u None True d have "res \<noteq> (False, None) \<and> s' = s2"
        by (cases e2) (auto simp: setStatusAndConditionForDeletionAndCallDelete_def)
      with t2 show ?thesis by simp
    qed
  qed
qed

lemma deleteDeleteBackupRequestObjects_tracked:
  assumes run: "deleteDeleteBackupRequestObjects env r nab s = (res, nab', s')"
    and tr: "tracked ok c0 s" and sy: "synced nab s"
    and ob: "\<And>c d. ok c (DeleteDeleteBackupRequest d)"
  shows "tracked ok c0 s' \<and> synced nab' s' \<and> nab' = nab"
proof (cases "noBackupUUID nab")
  case True
  with run tr sy show ?thesis
    by (auto simp: deleteDeleteBackupRequestObjects_def noBackupUUID_def split: option.splits)
next
  case False
  then obtain ref where ref: "VeleroBackupRef (nab_Status nab) = Some ref" "vb_NACUUID ref \<noteq> []"
    by (auto simp: noBackupUUID_def split: option.splits)
  obtain g s1 where g: "GetVeleroDeleteBackupRequestByLabel env (OADPNamespace r) (vb_NACUUID ref) s = (g, s1)"
    by (cases "GetVeleroDeleteBackupRequestByLabel env (OADPNamespace r) (vb_NACUUID ref) s") auto
  from GetVeleroDeleteBackupRequestByLabel_quiet[OF g] have q: "quiet s s1" .
  from q tr sy have t1: "tracked ok c0 s1" "synced nab s1"
    by (auto intro: quiet_tracked quiet_synced)
  show ?thesis
  proof (cases g)
    case (Inl e)
    with run ref g t1 show ?thesis by (auto simp: deleteDeleteBackupRequestObjects_def)
  next
    case (Inr found)
    show ?thesis
    proof (cases found)
      case None
      with run ref g Inr t1 show ?thesis by (auto simp: deleteDeleteBackupRequestObjects_def)
    next
      case (Some d)
      obtain e2 s2 where dd: "clientDeleteDeleteBackupRequest d s1 = (e2, s2)"
        by (cases "clientDeleteDeleteBackupRequest d s1") auto
      from clientDeleteDeleteBackupRequest_spec[OF dd]
      have t2: "tracked ok c0 s2 \<and> synced nab s2"
      proof (elim disjE exE conjE)
        fix e assume "quiet s1 s2"
        with t1 show ?thesis by (auto intro: quiet_tracked quiet_synced)
      next
        fix s0 assume q: "quiet s1 s0" and s2: "s2 = send (DeleteDeleteBackupRequest d) s0"
        from send_tracked_quiet[OF q t1(1) ob]
          send_synced_quiet[OF q _ _ _ t1(2), of "DeleteDeleteBackupRequest d"] s2
        show ?thesis by simp
      qed
      from run ref g Inr Some dd have "nab' = nab \<and> s' = s2"
        by (cases e2) (auto simp: deleteDeleteBackupRequestObjects_def)
      with t2 show ?thesis by simp
    qed
  qed
qed

lemma deleteVeleroBackupObjects_tracked:
  assumes run: "deleteVeleroBackupObjects env r nab s = (res, nab', s')"
    and tr: "tracked ok c0 s" and sy: "synced nab s"
    and obd: "\<And>c b. ok c (DeleteBackupObject b)"
    and obr: "\<And>n. nab_Status n = nab_Status nab \<Longrightarrow> \<not> noBackupUUID nab
                \<Longrightarrow> engineBackups env r (backupUUID nab) (cl s) = [] \<Longrightarrow> ok (cl s) (Update n)"
  shows "tracked ok c0 s'"
proof (cases "noBackupUUID nab")
  case True
  with run tr show ?thesis
    by (auto simp: deleteVeleroBackupObjects_def noBackupUUID_def split: option.splits)
next
  case False
  then obtain ref where ref: "VeleroBackupRef (nab_Status nab) = Some ref" "vb_NACUUID ref \<noteq> []"
    by (auto simp: noBackupUUID_def split: option.splits)
  then have uu: "backupUUID nab = vb_NACUUID ref" by (simp add: backupUUID_def)
  obtain g s1 where g: "GetVeleroBackupByLabel env (OADPNamespace r) (vb_NACUUID ref) s = (g, s1)"
    by (cases "GetVeleroBackupByLabel env (OADPNamespace r) (vb_NACUUID ref) s") auto
  note gs = GetVeleroBackupByLabel_spec[OF g]
  from gs have q: "quiet s s1" by simp
  from q tr sy have t1: "tracked ok c0 s1" "synced nab s1"
    by (auto intro: quiet_tracked quiet_synced)
  from q have c1: "cl s1 = cl s" by (rule quiet_cl)
  show ?thesis
  proof (cases g)
    case (Inl e)
    with run ref g t1 show ?thesis by (auto simp: deleteVeleroBackupObjects_def)
  next
    case (Inr found)
    show ?thesis
    proof (cases found)
      case None
      with gs Inr uu have "engineBackups env r (backupUUID nab) (cl s) = []" by simp
      with obr False c1 have "\<And>n. nab_Status n = nab_Status nab \<Longrightarrow> ok (cl s1) (Update n)" by simp
      with run ref g Inr None removeNabFinalizer_tracked[OF _ t1, of env r res nab' s']
      show ?thesis by (simp add: deleteVeleroBackupObjects_def)
    next
      case (Some b)
      obtain e2 s2 where dd: "clientDeleteBackup b s1 = (e2, s2)"
        by (cases "clientDeleteBackup b s1") auto
      from clientDeleteBackup_spec[OF dd] t1 obd have t2: "tracked ok c0 s2"
        by (auto intro: quiet_tracked send_tracked_quiet)
      from run ref g Inr Some dd have "s' = s2"
        by (cases e2) (auto simp: deleteVeleroBackupObjects_def)
      with t2 show ?thesis by simp
    qed
  qed
qed

lemma setIfChanged_eq: "setIfChanged a b u = (b, u \<or> a \<noteq> b)"
  by (auto simp: setIfChanged_def)

lemma Phase_updateVeleroBackupSpecStatus:
  "Phase (fst (updateNonAdminBackupVeleroBackupSpecStatus st b)) = Phase st"
  "Conditions (fst (updateNonAdminBackupVeleroBackupSpecStatus st b)) = Conditions st"
  by (simp_all add: updateNonAdminBackupVeleroBackupSpecStatus_def Let_def split: option.splits)

lemma Phase_updatePodVolumeBackupStatus:
  "Phase (fst (updateNonAdminBackupPodVolumeBackupStatus st items)) = Phase st"
  "Conditions (fst (updateNonAdminBackupPodVolumeBackupStatus st items)) = Conditions st"
  by (simp_all add: updateNonAdminBackupPodVolumeBackupStatus_def Let_def setIfChanged_eq
      split: prod.splits)

lemma Phase_updateDataUploadStatus:
  "Phase (fst (updateNonAdminBackupDataUploadStatus st items)) = Phase st"
  "Conditions (fst (updateNonAdminBackupDataUploadStatus st items)) = Conditions st"
  by (simp_all add: updateNonAdminBackupDataUploadStatus_def Let_def setIfChanged_eq)

lemma Phase_updateDeleteBackupRequestStatus:
  "Phase (fst (updateNonAdminBackupDeleteBackupRequestStatus st d)) = Phase st"
  by (simp add: updateNonAdminBackupDeleteBackupRequestStatus_def Let_def split: option.splits)

lemma IsStatusConditionTrue_SetStatusCondition:
  "IsStatusConditionTrue (fst (SetStatusCondition cs c)) (c_Type c) = (c_Status c = ConditionTrue)"
  by (induction cs) (auto split: prod.splits)

lemma syncWithNonAdminBackup_shape:
  "\<exists>st5 upd s2. quiet s s2 \<and> Phase st5 = NonAdminPhaseCreated
     \<and> IsStatusConditionTrue (Conditions st5) NonAdminConditionQueued
     \<and> (isl (GetBackupQueueInfo env (cl s) (OADPNamespace r) vb) \<or> upd)
     \<and> syncWithNonAdminBackup env r nab vb s =
         (if upd
          then (case clientStatusUpdate (nab\<lparr>nab_Status := st5\<rparr>) s2 of
                  (Some e, n, s3) \<Rightarrow> ((False, Some e), n, s3)
                | (None, n, s3) \<Rightarrow> ((False, None), n, s3))
          else ((False, None), nab\<lparr>nab_Status := st5\<rparr>, s2))"
proof -
  let ?q = "GetBackupQueueInfo env (cl s) (OADPNamespace r) vb"
  let ?cond = "\<lparr>c_Type = NonAdminConditionQueued, c_Status = ConditionTrue,
              c_Reason = ''BackupScheduled'', c_Message = ''Created Velero Backup object''\<rparr>"
  let ?sel = "Some (BackupNameLabel env, GetValidName env (Name (b_ObjectMeta vb)))"
  define st1 where "st1 = (case ?q of Inl e \<Rightarrow> nab_Status nab
                             | Inr q \<Rightarrow> (nab_Status nab)\<lparr>QueueInfoRef := Some q\<rparr>)"
  have q1: "(case ?q of Inl e \<Rightarrow> (nab_Status nab, False)
                      | Inr queueInfo \<Rightarrow> ((nab_Status nab)\<lparr>QueueInfoRef := Some queueInfo\<rparr>, True))
            = (st1, \<not> isl ?q)"
    by (simp add: st1_def split: sum.splits)
  obtain cs uc where ssc: "SetStatusCondition (Conditions st1) ?cond = (cs, uc)"
    by (cases "SetStatusCondition (Conditions st1) ?cond") auto
  obtain st3 u3 where v: "updateNonAdminBackupVeleroBackupSpecStatus
       (st1\<lparr>Phase := NonAdminPhaseCreated, Conditions := cs\<rparr>) (Some vb) = (st3, u3)"
    by (cases "updateNonAdminBackupVeleroBackupSpecStatus
       (st1\<lparr>Phase := NonAdminPhaseCreated, Conditions := cs\<rparr>) (Some vb)") auto
  obtain pvbs s1 where l1: "clientList podVolumeBackups pvb_ObjectMeta (OADPNamespace r) ?sel s = (pvbs, s1)"
    by (cases "clientList podVolumeBackups pvb_ObjectMeta (OADPNamespace r) ?sel s") auto
  obtain st4 u4 where p: "updateNonAdminBackupPodVolumeBackupStatus st3 (listedItems pvbs) = (st4, u4)"
    by (cases "updateNonAdminBackupPodVolumeBackupStatus st3 (listedItems pvbs)") auto
  obtain dus s2 where l2: "clientList dataUploads du_ObjectMeta (OADPNamespace r) ?sel s1 = (dus, s2)"
    by (cases "clientList dataUploads du_ObjectMeta (OADPNamespace r) ?sel s1") auto
  obtain st5 u5 where d: "updateNonAdminBackupDataUploadStatus st4 (listedItems dus) = (st5, u5)"
    by (cases "updateNonAdminBackupDataUploadStatus st4 (listedItems dus)") auto
  let ?upd = "u3 \<or> Phase st1 \<noteq> NonAdminPhaseCreated \<or> uc \<or> \<not> isl ?q \<or> u4 \<or> u5"
  have eq: "syncWithNonAdminBackup env r nab vb s =
         (if ?upd
          then (case clientStatusUpdate (nab\<lparr>nab_Status := st5\<rparr>) s2 of
                  (Some e, n, s3) \<Rightarrow> ((False, Some e), n, s3)
                | (None, n, s3) \<Rightarrow> ((False, None), n, s3))
          else ((False, None), nab\<lparr>nab_Status := st5\<rparr>, s2))"
    by (simp add: syncWithNonAdminBackup_def q1 updateNonAdminPhase_eq ssc v l1 p l2 d Let_def
        cong: if_cong)
  from clientList_spec[OF l1] clientList_spec[OF l2] have q: "quiet s s2"
    by (auto intro: quiet_trans)
  have "Phase st5 = Phase st4" "Conditions st5 = Conditions st4"
    using Phase_updateDataUploadStatus[of st4 "listedItems dus"] d by simp_all
  moreover have "Phase st4 = Phase st3" "Conditions st4 = Conditions st3"
    using Phase_updatePodVolumeBackupStatus[of st3 "listedItems pvbs"] p by simp_all
  moreover have "Phase st3 = NonAdminPhaseCreated" "Conditions st3 = cs"
    using Phase_updateVeleroBackupSpecStatus[of "st1\<lparr>Phase := NonAdminPhaseCreated, Conditions := cs\<rparr>" "Some vb"] v
    by simp_all
  moreover have "IsStatusConditionTrue cs NonAdminConditionQueued"
    using IsStatusConditionTrue_SetStatusCondition[of "Conditions st1" ?cond] ssc by simp
  ultimately have ph: "Phase st5 = NonAdminPhaseCreated"
    "IsStatusConditionTrue (Conditions st5) NonAdminConditionQueued" by simp_all
  have "isl ?q \<or> ?upd" by blast
  with q ph eq show ?thesis
    by - (rule exI[of _ st5], rule exI[of _ "?upd"], rule exI[of _ s2], (rule conjI, assumption)+, assumption)
qed

lemma syncWithNonAdminBackup_tracked:
  assumes run: "syncWithNonAdminBackup env r nab vb s = (res, nab', s')"
    and tr: "tracked ok c0 s" and sy: "synced nab s"
    and ob: "\<And>n. nab_ObjectMeta n = nab_ObjectMeta nab
                \<Longrightarrow> Phase (nab_Status n) = NonAdminPhaseCreated \<Longrightarrow> ok (cl s) (StatusUpdate n)"
  shows "tracked ok c0 s'"
proof -
  from syncWithNonAdminBackup_shape[of s env r vb nab]
  obtain st5 upd s2 where q: "quiet s s2" and ph: "Phase st5 = NonAdminPhaseCreated"
    and eq: "syncWithNonAdminBackup env r nab vb s =
         (if upd
          then (case clientStatusUpdate (nab\<lparr>nab_Status := st5\<rparr>) s2 of
                  (Some e, n, s3) \<Rightarrow> ((False, Some e), n, s3)
                | (None, n, s3) \<Rightarrow> ((False, None), n, s3))
          else ((False, None), nab\<lparr>nab_Status := st5\<rparr>, s2))"
    by blast
  from q tr sy have t2: "tracked ok c0 s2" "synced nab s2"
    by (auto intro: quiet_tracked quiet_synced)
  show ?thesis
  proof (cases upd)
    case False
    with run eq t2 show ?thesis by auto
  next
    case True
    obtain eo n1 s3 where u: "clientStatusUpdate (nab\<lparr>nab_Status := st5\<rparr>) s2 = (eo, n1, s3)"
      by (cases "clientStatusUpdate (nab\<lparr>nab_Status := st5\<rparr>) s2") auto
    have "ok (cl s) (StatusUpdate (nab\<lparr>nab_Status := st5\<rparr>))"
      by (rule ob) (simp_all add: ph)
    with q have "ok (cl s2) (StatusUpdate (nab\<lparr>nab_Status := st5\<rparr>))" by (simp add: quiet_cl)
    from statusUpdate_tracked[OF u t2 _ _ this] have t3: "tracked ok c0 s3" by simp
    from run eq True u have "s' = s3" by (cases eo) auto
    with t3 show ?thesis by simp
  qed
qed

lemma veleroBackupNotFound_tracked:
  assumes run: "veleroBackupNotFound env nab s = (res, nab', s')"
    and tr: "tracked ok c0 s" and sy: "synced nab s"
    and ob: "\<And>n. nab_ObjectMeta n = nab_ObjectMeta nab
                \<Longrightarrow> Phase (nab_Status n) = NonAdminPhaseBackingOff \<Longrightarrow> ok (cl s) (StatusUpdate n)"
  shows "tracked ok c0 s' \<and> snd res \<noteq> None"
proof -
  define err where "err =
     (if IsStatusConditionTrue (Conditions (nab_Status nab)) NonAdminConditionQueued
      then Some (Plain finalizedMessage)
      else if CheckLabelAnnotationValueIsValid env (Labels (nab_ObjectMeta nab)) (NabSyncLabel env)
           then Some (Plain syncSourceMissingMessage)
           else None)"
  show ?thesis
  proof (cases err)
    case None
    with run tr show ?thesis
      by (auto simp: veleroBackupNotFound_def Let_def err_def split: if_splits)
  next
    case (Some e)
    let ?c = "\<lparr>c_Type = NonAdminConditionAccepted, c_Status = ConditionFalse,
                c_Reason = ''VeleroBackupNotFound'', c_Message = Error e\<rparr>"
    obtain eo n1 s1 where u: "setPhaseAndCondition nab NonAdminPhaseBackingOff ?c s = (eo, n1, s1)"
      by (cases "setPhaseAndCondition nab NonAdminPhaseBackingOff ?c s") auto
    from setPhaseAndCondition_tracked[OF u tr sy] ob have t: "tracked ok c0 s1" by blast
    from run Some u have "snd res \<noteq> None \<and> s' = s1"
      by (cases eo) (auto simp: veleroBackupNotFound_def Let_def err_def split: if_splits)
    with t show ?thesis by simp
  qed
qed

lemma confinedBackupSpec_IncludedNamespaces:
  "IncludedNamespaces (confinedBackupSpec r nab) = Some [Namespace (nab_ObjectMeta nab)]"
  by (simp add: confinedBackupSpec_def)

lemma resolveStorageLocation_spec:
  "resolveStorageLocation nab spec s = (res, s') \<Longrightarrow>
     quiet s s' \<and> (case res of Inl e \<Rightarrow> True
                    | Inr spec' \<Rightarrow> \<exists>loc. spec' = spec\<lparr>StorageLocation := loc\<rparr>)"
proof (cases "StorageLocation spec = []")
  case True
  assume "resolveStorageLocation nab spec s = (res, s')"
  with True have "res = Inr spec" "s' = s" by (simp_all add: resolveStorageLocation_def)
  moreover have "spec = spec\<lparr>StorageLocation := StorageLocation spec\<rparr>" by simp
  ultimately show ?thesis using quiet_refl by (simp only: sum.case) blast
next
  case False
  assume run: "resolveStorageLocation nab spec s = (res, s')"
  obtain g s1 where g: "clientGetNabsl (Namespace (nab_ObjectMeta nab)) (StorageLocation spec) s = (g, s1)"
    by (cases "clientGetNabsl (Namespace (nab_ObjectMeta nab)) (StorageLocation spec) s") auto
  from clientGetNabsl_quiet[OF g] have q: "quiet s s1" .
  from run False g q show ?thesis
    by (cases g) (auto simp: resolveStorageLocation_def)
qed

lemma excludeNacResources_IncludedNamespaces:
  "IncludedNamespaces (excludeNacResources spec) = IncludedNamespaces spec"
  by (simp add: excludeNacResources_def Let_def)

lemma excludeNacResources_StorageLocation:
  "(excludeNacResources (spec\<lparr>StorageLocation := loc\<rparr>))\<lparr>StorageLocation := loc'\<rparr>
     = excludeNacResources (spec\<lparr>StorageLocation := loc'\<rparr>)"
  by (simp add: excludeNacResources_def Let_def)

lemma createVeleroBackup_spec:
  "createVeleroBackup env r nab uuid s = (res, s') \<Longrightarrow>
     (\<exists>e. res = Inl e \<and> quiet s s')
     \<or> (\<exists>b s1. res = Inr b \<and> quiet s s1 \<and> s' = send (CreateBackup b) s1
          \<and> IncludedNamespaces (b_Spec b) = Some [Namespace (nab_ObjectMeta nab)]
          \<and> (b_Spec b)\<lparr>StorageLocation := []\<rparr>
              = excludeNacResources ((confinedBackupSpec r nab)\<lparr>StorageLocation := []\<rparr>)
          \<and> Labels (b_ObjectMeta b) (NabOriginNACUUIDLabel env) = Some uuid
          \<and> Namespace (b_ObjectMeta b) = OADPNamespace r
          \<and> Name (b_ObjectMeta b) = uuid)"
proof -
  assume run: "createVeleroBackup env r nab uuid s = (res, s')"
  obtain g s1 where g: "resolveStorageLocation nab (confinedBackupSpec r nab) s = (g, s1)"
    by (cases "resolveStorageLocation nab (confinedBackupSpec r nab) s") auto
  note gs = resolveStorageLocation_spec[OF g]
  then have q: "quiet s s1" by simp
  show ?thesis
  proof (cases g)
    case (Inl e)
    with run g q show ?thesis by (auto simp: createVeleroBackup_def)
  next
    case (Inr spec)
    with gs obtain loc where sp: "spec = (confinedBackupSpec r nab)\<lparr>StorageLocation := loc\<rparr>"
      by auto
    define b where "b = newVeleroBackup env r nab uuid (excludeNacResources spec)"
    have bprops: "IncludedNamespaces (b_Spec b) = Some [Namespace (nab_ObjectMeta nab)]"
      "(b_Spec b)\<lparr>StorageLocation := []\<rparr>
         = excludeNacResources ((confinedBackupSpec r nab)\<lparr>StorageLocation := []\<rparr>)"
      "Labels (b_ObjectMeta b) (NabOriginNACUUIDLabel env) = Some uuid"
      "Namespace (b_ObjectMeta b) = OADPNamespace r" "Name (b_ObjectMeta b) = uuid"
      by (simp_all add: b_def newVeleroBackup_def excludeNacResources_IncludedNamespaces sp
          confinedBackupSpec_IncludedNamespaces excludeNacResources_StorageLocation)
    obtain e2 s2 where c: "clientCreateBackup b s1 = (e2, s2)"
      by (cases "clientCreateBackup b s1") auto
    from run g Inr c have r: "res = (case e2 of Some e \<Rightarrow> Inl e | None \<Rightarrow> Inr b)" "s' = s2"
      by (cases e2; simp add: createVeleroBackup_def Let_def b_def)+
    from clientCreateBackup_spec[OF c] show ?thesis
    proof (elim disjE exE conjE)
      fix e assume "e2 = Some e" "quiet s1 s2"
      with r q show ?thesis by (auto intro: quiet_trans)
    next
      fix s0 assume "e2 = None" "quiet s1 s0" "s2 = send (CreateBackup b) s0"
      with r q bprops show ?thesis by (auto intro: quiet_trans)
    qed
  qed
qed

lemma clientGetNabsl_found:
  "clientGetNabsl ns name s = (Inr x, s') \<Longrightarrow>
     storageLocationOf (cl s) ns name = Some (nabsl_VeleroBackupStorageLocationName x)"
  apply (cases "apiCall s")
  apply (frule apiCall_quiet)
  apply (auto simp: clientGetNabsl_def storageLocationOf_def quiet_def
      split: option.splits list.splits)
  done

lemma resolveStorageLocation_location:
  assumes run: "resolveStorageLocation nab spec s = (Inr spec', s')"
  shows "locationResolved (cl s) (Namespace (nab_ObjectMeta nab)) (StorageLocation spec)
           (StorageLocation spec')"
proof (cases "StorageLocation spec = []")
  case True
  with run show ?thesis by (simp add: resolveStorageLocation_def locationResolved_def)
next
  case False
  obtain g s1 where g: "clientGetNabsl (Namespace (nab_ObjectMeta nab)) (StorageLocation spec) s = (g, s1)"
    by (cases "clientGetNabsl (Namespace (nab_ObjectMeta nab)) (StorageLocation spec) s") auto
  from run False g obtain x where x: "g = Inr x"
    "spec' = spec\<lparr>StorageLocation := nabsl_VeleroBackupStorageLocationName x\<rparr>"
    by (cases g) (auto simp: resolveStorageLocation_def)
  from g x(1) have "clientGetNabsl (Namespace (nab_ObjectMeta nab)) (StorageLocation spec) s = (Inr x, s1)"
    by simp
  from clientGetNabsl_found[OF this] False x(2) show ?thesis
    by (simp add: locationResolved_def)
qed

lemma excludeNacResources_location:
  "StorageLocation (excludeNacResources spec) = StorageLocation spec"
  by (simp add: excludeNacResources_def Let_def)

lemma createVeleroBackup_location:
  assumes run: "createVeleroBackup env r nab uuid s = (Inr b, s')"
  shows "locationResolved (cl s) (Namespace (nab_ObjectMeta nab))
           (StorageLocation (confinedBackupSpec r nab)) (StorageLocation (b_Spec b))"
proof -
  obtain g s1 where g: "resolveStorageLocation nab (confinedBackupSpec r nab) s = (g, s1)"
    by (cases "resolveStorageLocation nab (confinedBackupSpec r nab) s") auto
  from run g obtain spec where sp: "g = Inr spec" by (cases g) (auto simp: createVeleroBackup_def)
  from run g sp have "b = newVeleroBackup env r nab uuid (excludeNacResources spec)"
    by (auto simp: createVeleroBackup_def Let_def split: prod.splits option.splits)
  then have "StorageLocation (b_Spec b) = StorageLocation spec"
    by (simp add: newVeleroBackup_def excludeNacResources_location)
  moreover from g sp have "resolveStorageLocation nab (confinedBackupSpec r nab) s = (Inr spec, s1)"
    by simp
  note resolveStorageLocation_location[OF this]
  ultimately show ?thesis by simp
qed

lemma createVeleroBackupAndSync_tracked:
  assumes run: "createVeleroBackupAndSyncWithNonAdminBackup env r nab s = (res, nab', s')"
    and tr: "tracked ok c0 s" and sy: "synced nab s"
    and obB: "\<And>n. nab_ObjectMeta n = nab_ObjectMeta nab
                \<Longrightarrow> Phase (nab_Status n) = NonAdminPhaseBackingOff \<Longrightarrow> ok (cl s) (StatusUpdate n)"
    and obC: "\<And>b. \<not> CheckLabelAnnotationValueIsValid env (Labels (nab_ObjectMeta nab)) (NabSyncLabel env)
                \<Longrightarrow> Phase (nab_Status nab) \<noteq> NonAdminPhaseCreated
                \<Longrightarrow> IncludedNamespaces (b_Spec b) = Some [Namespace (nab_ObjectMeta nab)]
                \<Longrightarrow> (b_Spec b)\<lparr>StorageLocation := []\<rparr>
                      = excludeNacResources ((confinedBackupSpec r nab)\<lparr>StorageLocation := []\<rparr>)
                \<Longrightarrow> locationResolved (cl s) (Namespace (nab_ObjectMeta nab))
                      (StorageLocation (confinedBackupSpec r nab)) (StorageLocation (b_Spec b))
                \<Longrightarrow> ok (cl s) (CreateBackup b)"
    and obS: "\<And>c n. tenantNab c = Some nab \<Longrightarrow> nab_ObjectMeta n = nab_ObjectMeta nab
                \<Longrightarrow> Phase (nab_Status n) = NonAdminPhaseCreated \<Longrightarrow> ok c (StatusUpdate n)"
  shows "tracked ok c0 s'"
proof (cases "noBackupUUID nab")
  case True
  with run tr show ?thesis by (auto simp: createVeleroBackupAndSyncWithNonAdminBackup_def)
next
  case False
  obtain g s1 where g: "GetVeleroBackupByLabel env (OADPNamespace r) (backupUUID nab) s = (g, s1)"
    by (cases "GetVeleroBackupByLabel env (OADPNamespace r) (backupUUID nab) s") auto
  from GetVeleroBackupByLabel_spec[OF g] have q: "quiet s s1" by simp
  from q tr sy have t1: "tracked ok c0 s1" "synced nab s1"
    by (auto intro: quiet_tracked quiet_synced)
  from q have c1: "cl s1 = cl s" by (rule quiet_cl)
  from sy have st: "tenantNab (cl s) = Some nab" by (simp add: synced_def)
  show ?thesis
  proof (cases g)
    case (Inl e)
    with run False g t1 show ?thesis by (auto simp: createVeleroBackupAndSyncWithNonAdminBackup_def)
  next
    case (Inr found)
    show ?thesis
    proof (cases found)
      case (Some vb)
      show ?thesis
      proof (cases "case Annotations (b_ObjectMeta vb) of None \<Rightarrow> True
                    | Some a \<Rightarrow> mapIndex a (NabOriginNamespaceAnnotation env)
                                  \<noteq> Namespace (nab_ObjectMeta nab)")
        case True
        with run False g Inr Some t1 show ?thesis
          by (auto simp: createVeleroBackupAndSyncWithNonAdminBackup_def)
      next
        case notforeign: False
        with run False g Inr Some
        have "syncWithNonAdminBackup env r nab vb s1 = (res, nab', s')"
          by (simp add: createVeleroBackupAndSyncWithNonAdminBackup_def)
        from syncWithNonAdminBackup_tracked[OF this t1] obS st c1 show ?thesis by simp
      qed
    next
      case None
      show ?thesis
      proof (cases "CheckLabelAnnotationValueIsValid env (Labels (nab_ObjectMeta nab)) (NabSyncLabel env)
                \<or> Phase (nab_Status nab) = NonAdminPhaseCreated")
        case True
        with run False g Inr None
        have "veleroBackupNotFound env nab s1 = (res, nab', s')"
          by (simp add: createVeleroBackupAndSyncWithNonAdminBackup_def)
        from veleroBackupNotFound_tracked[OF this t1] obB c1 show ?thesis by simp
      next
        case create: False
        obtain cr s2 where cr: "createVeleroBackup env r nab (backupUUID nab) s1 = (cr, s2)"
          by (cases "createVeleroBackup env r nab (backupUUID nab) s1") auto
        from createVeleroBackup_spec[OF cr] show ?thesis
        proof (elim disjE exE conjE)
          fix e assume "cr = Inl e" "quiet s1 s2"
          with run False g Inr None create cr t1 show ?thesis
            by (auto simp: createVeleroBackupAndSyncWithNonAdminBackup_def intro: quiet_tracked)
        next
          fix b s0
          assume a: "cr = Inr b" "quiet s1 s0" "s2 = send (CreateBackup b) s0"
            "IncludedNamespaces (b_Spec b) = Some [Namespace (nab_ObjectMeta nab)]"
            "(b_Spec b)\<lparr>StorageLocation := []\<rparr>
               = excludeNacResources ((confinedBackupSpec r nab)\<lparr>StorageLocation := []\<rparr>)"
          from create have g1: "\<not> CheckLabelAnnotationValueIsValid env (Labels (nab_ObjectMeta nab)) (NabSyncLabel env)"
            and g2: "Phase (nab_Status nab) \<noteq> NonAdminPhaseCreated" by simp_all
          from cr a(1) have "createVeleroBackup env r nab (backupUUID nab) s1 = (Inr b, s2)"
            by simp
          from createVeleroBackup_location[OF this] c1
          have g3: "locationResolved (cl s) (Namespace (nab_ObjectMeta nab))
                  (StorageLocation (confinedBackupSpec r nab)) (StorageLocation (b_Spec b))" by simp
          from obC[OF g1 g2 a(4,5) g3] c1 have "ok (cl s1) (CreateBackup b)" by simp
          from send_tracked_quiet[OF a(2) t1(1) this] a(3) have t2: "tracked ok c0 s2" by simp
          from send_synced_quiet[OF a(2) _ _ _ t1(2), of "CreateBackup b"] a(3)
          have sy2: "synced nab s2" by simp
          then have st2: "tenantNab (cl s2) = Some nab" by (simp add: synced_def)
          from run False g Inr None create cr a(1)
          have "syncWithNonAdminBackup env r nab b s2 = (res, nab', s')"
            by (simp add: createVeleroBackupAndSyncWithNonAdminBackup_def)
          from syncWithNonAdminBackup_tracked[OF this t2 sy2] obS st2 show ?thesis by simp
        qed
      qed
    qed
  qed
qed

lemma createVeleroDeleteBackupRequest_tracked:
  assumes run: "createVeleroDeleteBackupRequest env r nab s = (res, nab', s')"
    and tr: "tracked ok c0 s" and sy: "synced nab s"
    and obr: "\<And>n. nab_Status n = nab_Status nab \<Longrightarrow> \<not> noBackupUUID nab
                \<Longrightarrow> engineBackups env r (backupUUID nab) (cl s) = [] \<Longrightarrow> ok (cl s) (Update n)"
    and obc: "\<And>c d. ok c (CreateDeleteBackupRequest d)"
    and obs: "\<And>c n. tenantNab c = Some nab \<Longrightarrow> nab_ObjectMeta n = nab_ObjectMeta nab
                \<Longrightarrow> Phase (nab_Status n) = Phase (nab_Status nab) \<Longrightarrow> ok c (StatusUpdate n)"
  shows "tracked ok c0 s'"
proof (cases "noBackupUUID nab \<or> \<not> ContainsFinalizer (nab_ObjectMeta nab) (NabFinalizerName env)")
  case True
  with run tr show ?thesis
    by (auto simp: createVeleroDeleteBackupRequest_def noBackupUUID_def split: option.splits)
next
  case False
  then obtain ref where ref: "VeleroBackupRef (nab_Status nab) = Some ref" "vb_NACUUID ref \<noteq> []"
    and fin: "ContainsFinalizer (nab_ObjectMeta nab) (NabFinalizerName env)"
    and nu: "\<not> noBackupUUID nab"
    by (auto simp: noBackupUUID_def split: option.splits)
  then have uu: "backupUUID nab = vb_NACUUID ref" by (simp add: backupUUID_def)
  obtain g s1 where g: "GetVeleroBackupByLabel env (OADPNamespace r) (vb_NACUUID ref) s = (g, s1)"
    by (cases "GetVeleroBackupByLabel env (OADPNamespace r) (vb_NACUUID ref) s") auto
  note gs = GetVeleroBackupByLabel_spec[OF g]
  from gs have q: "quiet s s1" by simp
  from q tr sy have t1: "tracked ok c0 s1" "synced nab s1"
    by (auto intro: quiet_tracked quiet_synced)
  from q have c1: "cl s1 = cl s" by (rule quiet_cl)
  show ?thesis
  proof (cases g)
    case (Inl e)
    with run ref fin g t1 show ?thesis by (auto simp: createVeleroDeleteBackupRequest_def)
  next
    case (Inr found)
    show ?thesis
    proof (cases found)
      case None
      with gs Inr uu have "engineBackups env r (backupUUID nab) (cl s) = []" by simp
      with obr nu c1 have "\<And>n. nab_Status n = nab_Status nab \<Longrightarrow> ok (cl s1) (Update n)" by simp
      with run ref fin g Inr None removeNabFinalizer_tracked[OF _ t1, of env r res nab' s']
      show ?thesis by (simp add: createVeleroDeleteBackupRequest_def)
    next
      case (Some vb)
      obtain g2 s2 where g2: "GetVeleroDeleteBackupRequestByLabel env (OADPNamespace r) (vb_NACUUID ref) s1 = (g2, s2)"
        by (cases "GetVeleroDeleteBackupRequestByLabel env (OADPNamespace r) (vb_NACUUID ref) s1") auto
      from GetVeleroDeleteBackupRequestByLabel_quiet[OF g2] have q2: "quiet s1 s2" .
      from q2 t1 have t2: "tracked ok c0 s2" "synced nab s2"
        by (auto intro: quiet_tracked quiet_synced)
      show ?thesis
      proof (cases g2)
        case (Inl e)
        with run ref fin g Inr Some g2 t2 show ?thesis
          by (auto simp: createVeleroDeleteBackupRequest_def)
      next
        case found2: (Inr fd)
        define mid where "mid = (case fd of
                               Some d \<Rightarrow> (None, d, nab, s2)
                             | None \<Rightarrow>
                                 (case CreateRetryGenerateName env
                                         (newDeleteBackupRequest env r nab vb (vb_NACUUID ref)) s2 of
                                    (Some e, d, s3) \<Rightarrow> (Some e, d, nab, s3)
                                  | (None, d, s3) \<Rightarrow>
                                      (None, d,
                                       nab\<lparr>nab_Status := (nab_Status nab)\<lparr>VeleroDeleteBackupRequestRef :=
                                         Some \<lparr>vdbr_NACUUID = vb_NACUUID ref,
                                               vdbr_Namespace = OADPNamespace r,
                                               vdbr_Name = Name (dbr_ObjectMeta d),
                                               vdbr_Status = None\<rparr>\<rparr>\<rparr>, s3)))"
        obtain e3 d nab1 s3 where mid: "mid = (e3, d, nab1, s3)" by (cases mid) auto
        have m3: "tracked ok c0 s3 \<and> synced nab s3 \<and> nab_ObjectMeta nab1 = nab_ObjectMeta nab
                  \<and> nab_Spec nab1 = nab_Spec nab \<and> Phase (nab_Status nab1) = Phase (nab_Status nab)"
        proof (cases fd)
          case (Some d0)
          with mid t2 show ?thesis by (simp add: mid_def)
        next
          case None
          obtain e4 d4 s4 where c: "CreateRetryGenerateName env
                 (newDeleteBackupRequest env r nab vb (vb_NACUUID ref)) s2 = (e4, d4, s4)"
            by (cases "CreateRetryGenerateName env
                 (newDeleteBackupRequest env r nab vb (vb_NACUUID ref)) s2") auto
          from CreateRetryGenerateName_spec[OF c]
          have t4: "tracked ok c0 s4 \<and> synced nab s4"
          proof (elim disjE exE conjE)
            fix e assume "quiet s2 s4"
            with t2 show ?thesis by (auto intro: quiet_tracked quiet_synced)
          next
            fix s0 assume q0: "quiet s2 s0" and s4: "s4 = send (CreateDeleteBackupRequest d4) s0"
            from send_tracked_quiet[OF q0 t2(1) obc]
              send_synced_quiet[OF q0 _ _ _ t2(2), of "CreateDeleteBackupRequest d4"] s4
            show ?thesis by simp
          qed
          from mid None c have "s3 = s4 \<and> nab_ObjectMeta nab1 = nab_ObjectMeta nab
                  \<and> nab_Spec nab1 = nab_Spec nab \<and> Phase (nab_Status nab1) = Phase (nab_Status nab)"
            by (cases e4) (auto simp: mid_def)
          with t4 show ?thesis by simp
        qed
        show ?thesis
        proof (cases e3)
          case (Some e)
          with run ref fin g Inr \<open>found = Some vb\<close> g2 found2 mid m3
          show ?thesis
            by (simp add: createVeleroDeleteBackupRequest_def mid_def[symmetric])
        next
          case None
          obtain st up where up: "updateNonAdminBackupDeleteBackupRequestStatus (nab_Status nab1) (Some d) = (st, up)"
            by (cases "updateNonAdminBackupDeleteBackupRequestStatus (nab_Status nab1) (Some d)") auto
          have phst: "Phase st = Phase (nab_Status nab)"
            using Phase_updateDeleteBackupRequestStatus[of "nab_Status nab1" "Some d"] up m3 by simp
          show ?thesis
          proof (cases up)
            case False
            with run ref fin g Inr \<open>found = Some vb\<close> g2 found2 mid m3 None up
            show ?thesis
              by (simp add: createVeleroDeleteBackupRequest_def mid_def[symmetric])
          next
            case True
            obtain e5 n5 s5 where u: "clientStatusUpdate (nab1\<lparr>nab_Status := st\<rparr>) s3 = (e5, n5, s5)"
              by (cases "clientStatusUpdate (nab1\<lparr>nab_Status := st\<rparr>) s3") auto
            from m3 have sy3: "synced nab s3" and t3: "tracked ok c0 s3" by simp_all
            from sy3 have "tenantNab (cl s3) = Some nab" by (simp add: synced_def)
            from obs[OF this, of "nab1\<lparr>nab_Status := st\<rparr>"] m3 phst
            have "ok (cl s3) (StatusUpdate (nab1\<lparr>nab_Status := st\<rparr>))" by simp
            from statusUpdate_tracked[OF u t3 sy3 _ _ this] m3 have t5: "tracked ok c0 s5" by simp
            from run ref fin g Inr \<open>found = Some vb\<close> g2 found2 mid None up True u
            have "s' = s5"
              by (cases e5) (auto simp: createVeleroDeleteBackupRequest_def mid_def[symmetric])
            with t5 show ?thesis by simp
          qed
        qed
      qed
    qed
  qed
qed

lemma runSteps_Cons_cases:
  assumes "runSteps (f # fs) nab s = (res, s')"
  obtains (stop) r1 n1 where "f nab s = (r1, n1, s')" "r1 \<noteq> (False, None)"
  | (continue) n1 s1 where "f nab s = ((False, None), n1, s1)" "runSteps fs n1 s1 = (res, s')"
proof (cases "f nab s")
  case (fields r1 n1 s1)
  obtain rq eo where r1: "r1 = (rq, eo)" by (cases r1)
  show ?thesis
  proof (cases eo)
    case (Some e)
    with assms fields r1 have "s' = s1" by simp
    with fields r1 Some stop show ?thesis by simp
  next
    case None
    show ?thesis
    proof (cases rq)
      case True
      with assms fields r1 None have "s' = s1" by simp
      with fields r1 None True stop show ?thesis by simp
    next
      case False
      with assms fields r1 None have "runSteps fs n1 s1 = (res, s')" by simp
      with fields r1 None False continue show ?thesis by simp
    qed
  qed
qed

lemma runSteps_single:
  "runSteps [f] nab s = (res, s') \<Longrightarrow> \<exists>r1 n1. f nab s = (r1, n1, s')"
  by (erule runSteps_Cons_cases) auto

lemma noBackupUUID_cong: "nab_Status n = nab_Status nab \<Longrightarrow> noBackupUUID n = noBackupUUID nab"
  "nab_Status n = nab_Status nab \<Longrightarrow> backupUUID n = backupUUID nab"
  by (simp_all add: noBackupUUID_def backupUUID_def)

lemma adopt_steps_tracked:
  assumes run: "runSteps [setBackupUUIDInStatus env r, setFinalizerOnNonAdminBackup env r,
                   createVeleroBackupAndSyncWithNonAdminBackup env r] nab s = (res, s')"
    and tr: "tracked (okWrite env r (Namespace (nab_ObjectMeta nab)) (BackupSpecRef (nab_Spec nab)) False
      (CheckLabelAnnotationValueIsValid env (Labels (nab_ObjectMeta nab)) (NabSyncLabel env))) c0 s"
    and sy: "synced nab s"
  shows "tracked (okWrite env r (Namespace (nab_ObjectMeta nab)) (BackupSpecRef (nab_Spec nab)) False
      (CheckLabelAnnotationValueIsValid env (Labels (nab_ObjectMeta nab)) (NabSyncLabel env))) c0 s'"
proof -
  let ?ok = "okWrite env r (Namespace (nab_ObjectMeta nab)) (BackupSpecRef (nab_Spec nab)) False
      (CheckLabelAnnotationValueIsValid env (Labels (nab_ObjectMeta nab)) (NabSyncLabel env))"
  from sy have st: "tenantNab (cl s) = Some nab" by (simp add: synced_def)
  have ob1: "\<And>n::NonAdminBackup. Phase (nab_Status n) = Phase (nab_Status nab)
               \<Longrightarrow> ?ok (cl s) (StatusUpdate n)"
    using st by (simp add: phaseChangeAllowed_def)
  from run show ?thesis
  proof (cases rule: runSteps_Cons_cases)
    case (stop r1 n1)
    from setBackupUUIDInStatus_tracked[OF stop(1) tr sy ob1] show ?thesis by simp
  next
    case (continue n1 s1)
    from setBackupUUIDInStatus_tracked[OF continue(1) tr sy ob1]
    have t1: "tracked ?ok c0 s1" and sy1: "synced n1 s1"
      and m1: "nab_ObjectMeta n1 = nab_ObjectMeta nab" "nab_Spec n1 = nab_Spec nab" by simp_all
    have ob2: "\<And>n. NabFinalizerName env \<in> set (Finalizers (nab_ObjectMeta n)) \<Longrightarrow> ?ok (cl s1) (Update n)"
      by simp
    from continue(2) show ?thesis
    proof (cases rule: runSteps_Cons_cases)
      case (stop r2 n2)
      from setFinalizerOnNonAdminBackup_tracked[OF stop(1) t1 sy1 ob2] show ?thesis by simp
    next
      case (continue n2 s2)
      from setFinalizerOnNonAdminBackup_tracked[OF continue(1) t1 sy1 ob2]
      have t2: "tracked ?ok c0 s2" and sy2: "synced n2 s2"
        and fin: "NabFinalizerName env \<in> set (Finalizers (nab_ObjectMeta n2))"
        and ns: "Namespace (nab_ObjectMeta n2) = Namespace (nab_ObjectMeta n1)"
          "nab_Spec n2 = nab_Spec n1"
        and lb: "Labels (nab_ObjectMeta n2) = Labels (nab_ObjectMeta n1)" by simp_all
      from runSteps_single[OF continue(2)] obtain r3 n3 where
        last: "createVeleroBackupAndSyncWithNonAdminBackup env r n2 s2 = (r3, n3, s')" by blast
      from sy2 have st2: "tenantNab (cl s2) = Some n2" by (simp add: synced_def)
      show ?thesis
      proof (rule createVeleroBackupAndSync_tracked[OF last t2 sy2])
        fix n :: NonAdminBackup assume "Phase (nab_Status n) = NonAdminPhaseBackingOff"
        with st2 show "?ok (cl s2) (StatusUpdate n)" by (simp add: phaseChangeAllowed_def)
      next
        fix b :: Backup
        assume "\<not> CheckLabelAnnotationValueIsValid env (Labels (nab_ObjectMeta n2)) (NabSyncLabel env)"
          "Phase (nab_Status n2) \<noteq> NonAdminPhaseCreated"
          "IncludedNamespaces (b_Spec b) = Some [Namespace (nab_ObjectMeta n2)]"
          "(b_Spec b)\<lparr>StorageLocation := []\<rparr>
             = excludeNacResources ((confinedBackupSpec r n2)\<lparr>StorageLocation := []\<rparr>)"
          "locationResolved (cl s2) (Namespace (nab_ObjectMeta n2))
             (StorageLocation (confinedBackupSpec r n2)) (StorageLocation (b_Spec b))"
        with st2 fin ns lb m1 show "?ok (cl s2) (CreateBackup b)"
          by (simp add: storedFinalizer_def storedPhase_def engineSpec_def confinedBackupSpec_def)
      next
        fix c :: cluster and n :: NonAdminBackup assume "tenantNab c = Some n2" "Phase (nab_Status n) = NonAdminPhaseCreated"
        then show "?ok c (StatusUpdate n)" by (simp add: phaseChangeAllowed_def)
      qed
    qed
  qed
qed

lemma create_steps_tracked:
  assumes run: "runSteps [initNabCreate env r, validateSpec env r, setBackupUUIDInStatus env r,
                   setFinalizerOnNonAdminBackup env r,
                   createVeleroBackupAndSyncWithNonAdminBackup env r] nab s = (res, s')"
    and tr: "tracked (okWrite env r (Namespace (nab_ObjectMeta nab)) (BackupSpecRef (nab_Spec nab)) False
      (CheckLabelAnnotationValueIsValid env (Labels (nab_ObjectMeta nab)) (NabSyncLabel env))) c0 s"
    and sy: "synced nab s"
  shows "tracked (okWrite env r (Namespace (nab_ObjectMeta nab)) (BackupSpecRef (nab_Spec nab)) False
      (CheckLabelAnnotationValueIsValid env (Labels (nab_ObjectMeta nab)) (NabSyncLabel env))) c0 s'"
proof -
  let ?ok = "okWrite env r (Namespace (nab_ObjectMeta nab)) (BackupSpecRef (nab_Spec nab)) False
      (CheckLabelAnnotationValueIsValid env (Labels (nab_ObjectMeta nab)) (NabSyncLabel env))"
  from sy have st: "tenantNab (cl s) = Some nab" by (simp add: synced_def)
  have ob0: "\<And>n. Phase (nab_Status nab) = PhaseUnset \<Longrightarrow> Phase (nab_Status n) = NonAdminPhaseNew
               \<Longrightarrow> ?ok (cl s) (StatusUpdate n)"
    using st by (simp add: phaseChangeAllowed_def)
  from run show ?thesis
  proof (cases rule: runSteps_Cons_cases)
    case (stop r1 n1)
    from initNabCreate_tracked[OF stop(1) tr sy ob0] show ?thesis by simp
  next
    case (continue n1 s1)
    from initNabCreate_tracked[OF continue(1) tr sy ob0]
    have t1: "tracked ?ok c0 s1" and sy1: "synced n1 s1"
      and m1: "nab_ObjectMeta n1 = nab_ObjectMeta nab" "nab_Spec n1 = nab_Spec nab" by simp_all
    from sy1 have st1: "tenantNab (cl s1) = Some n1" by (simp add: synced_def)
    have ob1: "\<And>n. Phase (nab_Status n) = NonAdminPhaseBackingOff \<Longrightarrow> ?ok (cl s1) (StatusUpdate n)"
      "\<And>n. Phase (nab_Status n) = Phase (nab_Status n1) \<Longrightarrow> ?ok (cl s1) (StatusUpdate n)"
      using st1 by (simp_all add: phaseChangeAllowed_def)
    from continue(2) show ?thesis
    proof (cases rule: runSteps_Cons_cases)
      case (stop r2 n2)
      from validateSpec_tracked[OF stop(1) t1 sy1 ob1] show ?thesis by simp
    next
      case (continue n2 s2)
      from validateSpec_tracked[OF continue(1) t1 sy1 ob1]
      have t2: "tracked ?ok c0 s2" and sy2: "synced n2 s2"
        and m2: "nab_ObjectMeta n2 = nab_ObjectMeta n1" "nab_Spec n2 = nab_Spec n1" by simp_all
      from adopt_steps_tracked[OF continue(2)] t2 sy2 m2 m1 show ?thesis by simp
    qed
  qed
qed

lemma graceful_delete_steps_tracked:
  assumes run: "runSteps [setStatusAndConditionForDeletionAndCallDelete env r,
                   deleteNonAdminRestores env r, createVeleroDeleteBackupRequest env r] nab s = (res, s')"
    and tr: "tracked (okWrite env r ns ts True ad) c0 s"
    and sy: "synced nab s"
  shows "tracked (okWrite env r ns ts True ad) c0 s'"
proof -
  let ?ok = "okWrite env r ns ts True ad"
  from sy have st: "tenantNab (cl s) = Some nab" by (simp add: synced_def)
  have ob0: "\<And>n. Phase (nab_Status n) = NonAdminPhaseDeleting \<Longrightarrow> ?ok (cl s) (StatusUpdate n)"
    using st by (simp add: phaseChangeAllowed_def)
  have obd: "\<And>c n. ?ok c (DeleteNonAdminBackup n)" by simp
  from run show ?thesis
  proof (cases rule: runSteps_Cons_cases)
    case (stop r1 n1)
    from setStatusAndConditionForDeletionAndCallDelete_tracked[OF stop(1) tr sy ob0 obd]
    show ?thesis by simp
  next
    case (continue n1 s1)
    from setStatusAndConditionForDeletionAndCallDelete_tracked[OF continue(1) tr sy ob0 obd]
    have t1: "tracked ?ok c0 s1" and sy1: "synced n1 s1" by simp_all
    have obx: "\<And>c x. ?ok c (DeleteNonAdminRestore x)" by simp
    from continue(2) show ?thesis
    proof (cases rule: runSteps_Cons_cases)
      case (stop r2 n2)
      from deleteNonAdminRestores_tracked[OF stop(1) t1 sy1 obx] show ?thesis by simp
    next
      case (continue n2 s2)
      from deleteNonAdminRestores_tracked[OF continue(1) t1 sy1 obx]
      have t2: "tracked ?ok c0 s2" and sy2: "synced n2 s2" by auto
      from runSteps_single[OF continue(2)] obtain r3 n3 where
        last: "createVeleroDeleteBackupRequest env r n2 s2 = (r3, n3, s')" by blast
      show ?thesis
      proof (rule createVeleroDeleteBackupRequest_tracked[OF last t2 sy2])
        fix n :: NonAdminBackup assume "nab_Status n = nab_Status n2" "\<not> noBackupUUID n2"
          "engineBackups env r (backupUUID n2) (cl s2) = []"
        with noBackupUUID_cong[of n n2] show "?ok (cl s2) (Update n)" by simp
      next
        fix c d show "?ok c (CreateDeleteBackupRequest d)" by simp
      next
        fix c :: cluster and n :: NonAdminBackup assume "tenantNab c = Some n2" "Phase (nab_Status n) = Phase (nab_Status n2)"
        then show "?ok c (StatusUpdate n)" by (simp add: phaseChangeAllowed_def)
      qed
    qed
  qed
qed

lemma direct_delete_steps_tracked:
  assumes run: "runSteps [setStatusForDirectKubernetesAPIDeletion env r,
                   deleteDeleteBackupRequestObjects env r, deleteVeleroBackupObjects env r] nab s = (res, s')"
    and tr: "tracked (okWrite env r ns ts True ad) c0 s"
    and sy: "synced nab s"
  shows "tracked (okWrite env r ns ts True ad) c0 s'"
proof -
  let ?ok = "okWrite env r ns ts True ad"
  from sy have st: "tenantNab (cl s) = Some nab" by (simp add: synced_def)
  have ob0: "\<And>n. Phase (nab_Status n) = NonAdminPhaseDeleting \<Longrightarrow> ?ok (cl s) (StatusUpdate n)"
    using st by (simp add: phaseChangeAllowed_def)
  from run show ?thesis
  proof (cases rule: runSteps_Cons_cases)
    case (stop r1 n1)
    from setStatusForDirectKubernetesAPIDeletion_tracked[OF stop(1) tr sy ob0]
    show ?thesis by simp
  next
    case (continue n1 s1)
    from setStatusForDirectKubernetesAPIDeletion_tracked[OF continue(1) tr sy ob0]
    have t1: "tracked ?ok c0 s1" and sy1: "synced n1 s1" by simp_all
    have obx: "\<And>c d. ?ok c (DeleteDeleteBackupRequest d)" by simp
    from continue(2) show ?thesis
    proof (cases rule: runSteps_Cons_cases)
      case (stop r2 n2)
      from deleteDeleteBackupRequestObjects_tracked[OF stop(1) t1 sy1 obx] show ?thesis by simp
    next
      case (continue n2 s2)
      from deleteDeleteBackupRequestObjects_tracked[OF continue(1) t1 sy1 obx]
      have t2: "tracked ?ok c0 s2" and sy2: "synced n2 s2" by auto
      from runSteps_single[OF continue(2)] obtain r3 n3 where
        last: "deleteVeleroBackupObjects env r n2 s2 = (r3, n3, s')" by blast
      show ?thesis
      proof (rule deleteVeleroBackupObjects_tracked[OF last t2 sy2])
        fix c b show "?ok c (DeleteBackupObject b)" by simp
      next
        fix n :: NonAdminBackup assume "nab_Status n = nab_Status n2" "\<not> noBackupUUID n2"
          "engineBackups env r (backupUUID n2) (cl s2) = []"
        with noBackupUUID_cong[of n n2] show "?ok (cl s2) (Update n)" by simp
      qed
    qed
  qed
qed

lemma tracked_init: "tracked ok c \<lparr>cl = c, faults = schedule, writes = []\<rparr>"
  by (simp add: tracked_def)

lemma Reconcile_tracked:
  assumes run: "Reconcile env r req c schedule = (res, s')"
    and nab: "tenantNab c = Some nab"
  shows "tracked (okWrite env r (req_Namespace req) (BackupSpecRef (nab_Spec nab)) (deletionRequested nab)
      (CheckLabelAnnotationValueIsValid env (Labels (nab_ObjectMeta nab)) (NabSyncLabel env))) c s'"
proof -
  let ?s0 = "\<lparr>cl = c, faults = schedule, writes = []\<rparr>"
  obtain g s1 where g: "clientGetNab (req_Namespace req) (req_Name req) ?s0 = (g, s1)"
    by (cases "clientGetNab (req_Namespace req) (req_Name req) ?s0") auto
  note gs = clientGetNab_spec[OF g]
  then have q: "quiet ?s0 s1" by simp
  have t1: "\<And>ok. tracked ok c s1" by (rule quiet_tracked[OF q tracked_init])
  show ?thesis
  proof (cases g)
    case (Inl e)
    with run g have "s' = s1" by (auto simp: Reconcile_def split: if_splits)
    with t1 show ?thesis by simp
  next
    case (Inr n)
    with gs nab have n: "n = nab" and ns: "Namespace (nab_ObjectMeta nab) = req_Namespace req"
      by auto
    from q nab have sy: "synced nab s1" by (simp add: synced_def quiet_cl)
    from run g Inr n have rs: "runSteps (reconcileSteps env r nab) nab s1 = (res, s')"
      by (simp add: Reconcile_def)
    show ?thesis
    proof (cases "DeleteBackup (nab_Spec nab)")
      case True
      with rs graceful_delete_steps_tracked[OF _ t1 sy, where env = env and r = r and res = res
          and s' = s' and ns = "req_Namespace req" and ts = "BackupSpecRef (nab_Spec nab)"
          and ad = "CheckLabelAnnotationValueIsValid env (Labels (nab_ObjectMeta nab)) (NabSyncLabel env)"]
      show ?thesis by (simp add: reconcileSteps_def deletionRequested_def)
    next
      case nd: False
      show ?thesis
      proof (cases "timeIsZero (DeletionTimestamp (nab_ObjectMeta nab))")
        case False
        with nd rs direct_delete_steps_tracked[OF _ t1 sy, where env = env and r = r and res = res
          and s' = s' and ns = "req_Namespace req" and ts = "BackupSpecRef (nab_Spec nab)"
          and ad = "CheckLabelAnnotationValueIsValid env (Labels (nab_ObjectMeta nab)) (NabSyncLabel env)"]
        show ?thesis by (simp add: reconcileSteps_def deletionRequested_def)
      next
        case True
        show ?thesis
        proof (cases "CheckLabelAnnotationValueIsValid env (Labels (nab_ObjectMeta nab)) (NabSyncLabel env)")
          case True
          with nd \<open>timeIsZero (DeletionTimestamp (nab_ObjectMeta nab))\<close> rs
            adopt_steps_tracked[OF _ t1 sy, of env r res s'] ns
          show ?thesis by (simp add: reconcileSteps_def deletionRequested_def)
        next
          case False
          with nd \<open>timeIsZero (DeletionTimestamp (nab_ObjectMeta nab))\<close> rs
            create_steps_tracked[OF _ t1 sy, of env r res s'] ns
          show ?thesis by (simp add: reconcileSteps_def deletionRequested_def)
        qed
      qed
    qed
  qed
qed

subsection \<open>Counters\<close>

lemmas pvbPhase_defs = PodVolumeBackupPhaseNew_def PodVolumeBackupPhaseInProgress_def
  PodVolumeBackupPhaseFailed_def PodVolumeBackupPhaseCompleted_def

lemmas duPhase_defs = DataUploadPhaseNew_def DataUploadPhaseAccepted_def
  DataUploadPhasePrepared_def DataUploadPhaseInProgress_def DataUploadPhaseCanceling_def
  DataUploadPhaseCanceled_def DataUploadPhaseFailed_def DataUploadPhaseCompleted_def

lemma countPodVolumeBackups_filter:
  "countPodVolumeBackups ps (n, i, f, c) =
     (n + countPhase pvb_Phase PodVolumeBackupPhaseNew ps,
      i + countPhase pvb_Phase PodVolumeBackupPhaseInProgress ps,
      f + countPhase pvb_Phase PodVolumeBackupPhaseFailed ps,
      c + countPhase pvb_Phase PodVolumeBackupPhaseCompleted ps)"
  by (induction ps arbitrary: n i f c) (simp_all add: countPhase_def pvbPhase_defs)

lemma pvb_counters:
  "FileSystemPodVolumeBackupsRef (fst (updateNonAdminBackupPodVolumeBackupStatus status items)) =
     Some \<lparr>fs_Total = int (length items),
           fs_New = countPhase pvb_Phase PodVolumeBackupPhaseNew items,
           fs_InProgress = countPhase pvb_Phase PodVolumeBackupPhaseInProgress items,
           fs_Failed = countPhase pvb_Phase PodVolumeBackupPhaseFailed items,
           fs_Completed = countPhase pvb_Phase PodVolumeBackupPhaseCompleted items\<rparr>"
  by (simp add: updateNonAdminBackupPodVolumeBackupStatus_def Let_def countPodVolumeBackups_filter
      setIfChanged_eq)

lemma pvb_recognized_sum:
  "countPhase pvb_Phase PodVolumeBackupPhaseNew items
   + countPhase pvb_Phase PodVolumeBackupPhaseInProgress items
   + countPhase pvb_Phase PodVolumeBackupPhaseFailed items
   + countPhase pvb_Phase PodVolumeBackupPhaseCompleted items
   = int (length (filter (\<lambda>p. pvbRecognized (pvb_Phase p)) items))"
  by (induction items) (auto simp add: countPhase_def pvbRecognized_def pvbPhase_defs)

lemma countDataUploads_filter:
  "countDataUploads ds k =
     \<lparr>numberOfNew = numberOfNew k + countPhase du_Phase DataUploadPhaseNew ds,
      numberOfAccepted = numberOfAccepted k + countPhase du_Phase DataUploadPhaseAccepted ds,
      numberOfPrepared = numberOfPrepared k + countPhase du_Phase DataUploadPhasePrepared ds,
      numberOfInProgress = numberOfInProgress k + countPhase du_Phase DataUploadPhaseInProgress ds,
      numberOfCanceling = numberOfCanceling k + countPhase du_Phase DataUploadPhaseCanceling ds,
      numberOfCanceled = numberOfCanceled k + countPhase du_Phase DataUploadPhaseCanceled ds,
      numberOfFailed = numberOfFailed k + countPhase du_Phase DataUploadPhaseFailed ds,
      numberOfCompleted = numberOfCompleted k + countPhase du_Phase DataUploadPhaseCompleted ds\<rparr>"
proof (induction ds arbitrary: k)
  case Nil
  show ?case by (simp add: countPhase_def)
next
  case (Cons d ds)
  show ?case
    unfolding countDataUploads.simps Cons.IH
    by (simp add: countDataUpload_def countPhase_def duPhase_defs)
qed

lemma du_counters:
  "DataMoverDataUploadsRef (fst (updateNonAdminBackupDataUploadStatus status items)) =
     Some \<lparr>dm_Total = int (length items),
           dm_New = countPhase du_Phase DataUploadPhaseNew items,
           dm_Accepted = countPhase du_Phase DataUploadPhaseAccepted items,
           dm_Prepared = countPhase du_Phase DataUploadPhasePrepared items,
           dm_InProgress = countPhase du_Phase DataUploadPhaseInProgress items,
           dm_Canceling = countPhase du_Phase DataUploadPhaseCanceling items,
           dm_Canceled = countPhase du_Phase DataUploadPhaseCanceled items,
           dm_Failed = countPhase du_Phase DataUploadPhaseFailed items,
           dm_Completed = countPhase du_Phase DataUploadPhaseCompleted items\<rparr>"
  by (simp add: updateNonAdminBackupDataUploadStatus_def Let_def countDataUploads_filter
      setIfChanged_eq zeroDuCounts_def)

lemma du_recognized_sum:
  "countPhase du_Phase DataUploadPhaseNew items
   + countPhase du_Phase DataUploadPhaseAccepted items
   + countPhase du_Phase DataUploadPhasePrepared items
   + countPhase du_Phase DataUploadPhaseInProgress items
   + countPhase du_Phase DataUploadPhaseCanceling items
   + countPhase du_Phase DataUploadPhaseCanceled items
   + countPhase du_Phase DataUploadPhaseFailed items
   + countPhase du_Phase DataUploadPhaseCompleted items
   = int (length (filter (\<lambda>d. duRecognized (du_Phase d)) items))"
  by (induction items) (auto simp add: countPhase_def duRecognized_def duPhase_defs)

subsection \<open>Reading a pass\<close>

lemma sentIn_mem: "w \<in> set ws \<Longrightarrow> \<exists>c1. (c1, w) \<in> set (sentIn c ws)"
  by (induction ws arbitrary: c) auto

lemma sentIn_snd: "(c1, w) \<in> set (sentIn c ws) \<Longrightarrow> w \<in> set ws"
  by (induction ws arbitrary: c) auto

lemma createdBackups_mem: "b \<in> set (createdBackups ws) \<longleftrightarrow> CreateBackup b \<in> set ws"
  by (induction ws rule: createdBackups.induct) auto

lemma updatedFinalizers_mem:
  "fs \<in> set (updatedFinalizers ws) \<longleftrightarrow> (\<exists>n. Update n \<in> set ws \<and> Finalizers (nab_ObjectMeta n) = fs)"
  by (induction ws rule: updatedFinalizers.induct) auto

lemma statusPhases_mem:
  "p \<in> set (statusPhases ws) \<longleftrightarrow> (\<exists>n. StatusUpdate n \<in> set ws \<and> Phase (nab_Status n) = p)"
  by (induction ws rule: statusPhases.induct) auto

lemma tracked_sentIn:
  "tracked ok c s \<Longrightarrow> (c1, w) \<in> set (sentIn c (writes s)) \<Longrightarrow> ok c1 w"
  by (auto simp: tracked_def list_all_iff)

lemma Reconcile_absent:
  assumes run: "Reconcile env r req c schedule = (res, s')" and none: "tenantNab c = None"
  shows "writes s' = []"
proof -
  let ?s0 = "\<lparr>cl = c, faults = schedule, writes = []\<rparr>"
  obtain g s1 where g: "clientGetNab (req_Namespace req) (req_Name req) ?s0 = (g, s1)"
    by (cases "clientGetNab (req_Namespace req) (req_Name req) ?s0") auto
  note gs = clientGetNab_spec[OF g]
  then have w: "writes s1 = []" by (simp add: quiet_def)
  from gs none obtain e where "g = Inl e" by (cases g) auto
  with run g have "s' = s1" by (auto simp: Reconcile_def split: if_splits)
  with w show ?thesis by simp
qed

lemma Reconcile_writes_ok:
  assumes run: "Reconcile env r req c schedule = (res, s')"
    and w: "(c1, w) \<in> set (sentIn c (writes s'))"
  shows "\<exists>nab. tenantNab c = Some nab
           \<and> okWrite env r (req_Namespace req) (BackupSpecRef (nab_Spec nab)) (deletionRequested nab)
               (CheckLabelAnnotationValueIsValid env (Labels (nab_ObjectMeta nab)) (NabSyncLabel env)) c1 w"
proof (cases "tenantNab c")
  case None
  from Reconcile_absent[OF run None] w show ?thesis by simp
next
  case (Some nab)
  from tracked_sentIn[OF Reconcile_tracked[OF run Some] w] Some show ?thesis by simp
qed

lemma examplePass_run:
  "Reconcile exampleEnv exampleReconciler exampleRequest c [] = (fst (examplePass c), snd (examplePass c))"
  by (simp add: examplePass_def)

lemma enforceBackupSpec_specMerge: "enforceBackupSpec e t = specMerge e t"
  by (simp add: enforceBackupSpec_def specMerge_def enforceField_def mergedField_def isNil_def
      isEmptyString_def isZeroDuration_def)

lemma mergedField_tenant: "tenant \<noteq> zero \<Longrightarrow> mergedField zero enforced tenant = tenant"
  by (simp add: mergedField_def)

lemma engineSpec_fields:
  "IncludedNamespaces (engineSpec r ns ts loc) = Some [ns]"
  "ExcludedNamespaces (engineSpec r ns ts loc) = ExcludedNamespaces (specMerge (EnforcedBackupSpec r) ts)"
  "IncludedResources (engineSpec r ns ts loc) = IncludedResources (specMerge (EnforcedBackupSpec r) ts)"
  "IncludedClusterScopedResources (engineSpec r ns ts loc)
     = IncludedClusterScopedResources (specMerge (EnforcedBackupSpec r) ts)"
  "IncludedNamespaceScopedResources (engineSpec r ns ts loc)
     = IncludedNamespaceScopedResources (specMerge (EnforcedBackupSpec r) ts)"
  "SnapshotVolumes (engineSpec r ns ts loc) = SnapshotVolumes (specMerge (EnforcedBackupSpec r) ts)"
  "TTL (engineSpec r ns ts loc) = TTL (specMerge (EnforcedBackupSpec r) ts)"
  "IncludeClusterResources (engineSpec r ns ts loc)
     = IncludeClusterResources (specMerge (EnforcedBackupSpec r) ts)"
  "VolumeSnapshotLocations (engineSpec r ns ts loc)
     = VolumeSnapshotLocations (specMerge (EnforcedBackupSpec r) ts)"
  "DefaultVolumesToFsBackup (engineSpec r ns ts loc)
     = DefaultVolumesToFsBackup (specMerge (EnforcedBackupSpec r) ts)"
  "SnapshotMoveData (engineSpec r ns ts loc) = SnapshotMoveData (specMerge (EnforcedBackupSpec r) ts)"
  "DataMover (engineSpec r ns ts loc) = DataMover (specMerge (EnforcedBackupSpec r) ts)"
  by (simp_all add: engineSpec_def excludeNacResources_def Let_def enforceBackupSpec_specMerge)

lemma unset_location_fields:
  assumes "sp\<lparr>StorageLocation := []\<rparr> = sp'"
  shows "ExcludedNamespaces sp = ExcludedNamespaces sp'"
    "IncludedResources sp = IncludedResources sp'"
    "IncludedClusterScopedResources sp = IncludedClusterScopedResources sp'"
    "IncludedNamespaceScopedResources sp = IncludedNamespaceScopedResources sp'"
    "SnapshotVolumes sp = SnapshotVolumes sp'"
    "TTL sp = TTL sp'"
    "IncludeClusterResources sp = IncludeClusterResources sp'"
    "VolumeSnapshotLocations sp = VolumeSnapshotLocations sp'"
    "DefaultVolumesToFsBackup sp = DefaultVolumesToFsBackup sp'"
    "SnapshotMoveData sp = SnapshotMoveData sp'"
    "DataMover sp = DataMover sp'"
  using assms by auto

lemma excludeNacResources_scoped:
  assumes "usesScopedFilters sp"
  shows "ExcludedResources (excludeNacResources sp) = ExcludedResources sp"
    "ExcludedNamespaceScopedResources (excludeNacResources sp)
       = Some (sliceElems (ExcludedNamespaceScopedResources sp) @ alwaysExcludedNamespacedResources)"
    "ExcludedClusterScopedResources (excludeNacResources sp)
       = Some (sliceElems (ExcludedClusterScopedResources sp) @ alwaysExcludedClusterResources)"
  using assms
  by (auto simp: excludeNacResources_def usesScopedFilters_def sliceLen_def sliceAppend_def
      sliceElems_def alwaysExcludedNamespacedResources_def alwaysExcludedClusterResources_def
      split: option.splits)

lemma excludeNacResources_unscoped:
  assumes "\<not> usesScopedFilters sp"
  shows "ExcludedResources (excludeNacResources sp)
       = Some (sliceElems (ExcludedResources sp) @ alwaysExcludedNamespacedResources
               @ alwaysExcludedClusterResources)"
    "ExcludedNamespaceScopedResources (excludeNacResources sp) = ExcludedNamespaceScopedResources sp"
    "ExcludedClusterScopedResources (excludeNacResources sp) = ExcludedClusterScopedResources sp"
  using assms
  by (auto simp: excludeNacResources_def usesScopedFilters_def sliceLen_def sliceAppend_def
      sliceElems_def alwaysExcludedNamespacedResources_def alwaysExcludedClusterResources_def
      split: option.splits)

lemma unset_location_exclusions:
  assumes "sp\<lparr>StorageLocation := []\<rparr> = sp'"
  shows "ExcludedResources sp = ExcludedResources sp'"
    "ExcludedNamespaceScopedResources sp = ExcludedNamespaceScopedResources sp'"
    "ExcludedClusterScopedResources sp = ExcludedClusterScopedResources sp'"
  using assms by auto

lemma applyWrite_locations:
  "nonAdminBackupStorageLocations (applyWrite w c) = nonAdminBackupStorageLocations c"
  by (cases w) (simp_all add: Let_def split: option.splits)

lemma sentIn_locations:
  "(c1, w) \<in> set (sentIn c ws)
     \<Longrightarrow> nonAdminBackupStorageLocations c1 = nonAdminBackupStorageLocations c"
  by (induction ws arbitrary: c) (auto simp: applyWrite_locations)

lemma storageLocationOf_cong:
  "nonAdminBackupStorageLocations c1 = nonAdminBackupStorageLocations c
     \<Longrightarrow> storageLocationOf c1 ns name = storageLocationOf c ns name"
  by (simp add: storageLocationOf_def)

lemma reconcileSteps_pathSteps: "reconcileSteps env r nab = pathSteps env r (selectedPath env nab)"
  by (simp add: reconcileSteps_def selectedPath_def)

lemma createdBackups_snoc:
  "createdBackups (ws @ [w]) = createdBackups ws @ createdBackups [w]"
  by (induction ws rule: createdBackups.induct) simp_all

lemma quiet_created: "quiet s s1 \<Longrightarrow> createdBackups (writes s1) = createdBackups (writes s)"
  by (simp add: quiet_def)

lemma Condition_overwrite:
  "c_Type a = c_Type c \<Longrightarrow>
     a\<lparr>c_Status := c_Status c, c_Reason := c_Reason c, c_Message := c_Message c\<rparr> = (c::Condition)"
  by (cases a, cases c) simp

lemma FindStatusCondition_SetStatusCondition:
  "FindStatusCondition (fst (SetStatusCondition cs c)) (c_Type c) = Some (c::Condition)"
  by (induction cs) (auto simp: FindStatusCondition_def Condition_overwrite split: prod.splits)

lemma clientStatusUpdate_result:
  assumes run: "clientStatusUpdate n0 s = (eo, nab', s')"
    and sy: "synced nab s" and m: "nab_ObjectMeta n0 = nab_ObjectMeta nab" "nab_Spec n0 = nab_Spec nab"
  shows "createdBackups (writes s') = createdBackups (writes s)
         \<and> set (faults s') \<subseteq> set (faults s)
         \<and> (case eo of Some e \<Rightarrow> Some e \<in> set (faults s)
             | None \<Rightarrow> synced nab' s' \<and> nab' = n0)"
proof -
  from clientStatusUpdate_spec[OF run] show ?thesis
  proof (elim disjE exE conjE)
    fix e assume a: "eo = Some e" "quiet s s'"
    with run have "clientStatusUpdate n0 s = (Some e, nab', s')" by simp
    from clientStatusUpdate_error[OF this sy m(1)] a show ?thesis
      by (simp add: quiet_def)
  next
    fix old s1
    assume a: "eo = None" "tenantNab (cl s) = Some old" "quiet s s1"
      "nab' = old\<lparr>nab_Status := nab_Status n0\<rparr>" "s' = send (StatusUpdate nab') s1"
    from a(2) sy have "old = nab" by (simp add: synced_def)
    with a(4) m have eq: "nab' = n0" by simp
    have "synced nab' (send (StatusUpdate nab') s1)"
      by (simp add: synced_def send_def)
    with a eq show ?thesis
      by (simp add: quiet_def writes_send faults_send createdBackups_snoc)
  qed
qed

lemma setPhaseAndCondition_result:
  assumes run: "setPhaseAndCondition nab p cond s = (eo, nab', s')" and sy: "synced nab s"
  shows "createdBackups (writes s') = createdBackups (writes s)
         \<and> set (faults s') \<subseteq> set (faults s)
         \<and> (case eo of Some e \<Rightarrow> Some e \<in> set (faults s)
             | None \<Rightarrow> synced nab' s' \<and> nab_ObjectMeta nab' = nab_ObjectMeta nab
                        \<and> nab_Spec nab' = nab_Spec nab
                        \<and> Phase (nab_Status nab') = p
                        \<and> FindStatusCondition (Conditions (nab_Status nab')) (c_Type cond) = Some cond)"
proof (cases "Phase (nab_Status nab) \<noteq> p \<or> snd (SetStatusCondition (Conditions (nab_Status nab)) cond)")
  case True
  let ?n0 = "setConditions (setPhase nab p) (fst (SetStatusCondition (Conditions (nab_Status nab)) cond))"
  from True run have r: "clientStatusUpdate ?n0 s = (eo, nab', s')"
    by (simp add: setPhaseAndCondition_alt)
  have m: "nab_ObjectMeta ?n0 = nab_ObjectMeta nab" "nab_Spec ?n0 = nab_Spec nab"
    by (simp_all add: setPhase_setConditions_simps)
  have f: "Phase (nab_Status ?n0) = p"
    "FindStatusCondition (Conditions (nab_Status ?n0)) (c_Type cond) = Some cond"
    by (simp_all add: setPhase_def setConditions_def FindStatusCondition_SetStatusCondition)
  from clientStatusUpdate_result[OF r sy m] m f show ?thesis
    by (cases eo) auto
next
  case False
  with run have e: "eo = None" "nab' = nab" "s' = s"
    by (simp_all add: setPhaseAndCondition_alt)
  from False have ph: "Phase (nab_Status nab) = p"
    and un: "SetStatusCondition (Conditions (nab_Status nab)) cond
               = (fst (SetStatusCondition (Conditions (nab_Status nab)) cond), False)"
    by (simp_all add: prod_eq_iff)
  from SetStatusCondition_unchanged[OF un]
  have "FindStatusCondition (Conditions (nab_Status nab)) (c_Type cond) = Some cond"
    using FindStatusCondition_SetStatusCondition[of "Conditions (nab_Status nab)" cond] by simp
  with e ph sy show ?thesis by simp
qed

lemma veleroBackupNotFound_result:
  assumes run: "veleroBackupNotFound env nab s = (res, nab', s')" and sy: "synced nab s"
    and why: "IsStatusConditionTrue (Conditions (nab_Status nab)) NonAdminConditionQueued
              \<or> CheckLabelAnnotationValueIsValid env (Labels (nab_ObjectMeta nab)) (NabSyncLabel env)"
    and msg: "msg = (if IsStatusConditionTrue (Conditions (nab_Status nab)) NonAdminConditionQueued
                     then finalizedMessage else syncSourceMissingMessage)"
  shows "createdBackups (writes s') = createdBackups (writes s)
         \<and> ((res = (False, Some (TerminalError (Plain msg))) \<and> synced nab' s'
              \<and> Phase (nab_Status nab') = NonAdminPhaseBackingOff
              \<and> FindStatusCondition (Conditions (nab_Status nab')) NonAdminConditionAccepted
                  = Some \<lparr>c_Type = NonAdminConditionAccepted, c_Status = ConditionFalse,
                          c_Reason = ''VeleroBackupNotFound'', c_Message = msg\<rparr>)
             \<or> (\<exists>e. res = (False, Some e) \<and> Some e \<in> set (faults s)))"
proof -
  let ?c = "\<lparr>c_Type = NonAdminConditionAccepted, c_Status = ConditionFalse,
              c_Reason = ''VeleroBackupNotFound'', c_Message = msg\<rparr>"
  obtain eo n1 s1 where u: "setPhaseAndCondition nab NonAdminPhaseBackingOff ?c s = (eo, n1, s1)"
    by (cases "setPhaseAndCondition nab NonAdminPhaseBackingOff ?c s") auto
  from run why msg u have r: "res = (False, case eo of Some e \<Rightarrow> Some e
                                       | None \<Rightarrow> Some (TerminalError (Plain msg)))"
      "nab' = n1" "s' = s1"
    by (cases eo; auto simp: veleroBackupNotFound_def Let_def split: if_splits)+
  from setPhaseAndCondition_result[OF u sy] r show ?thesis
    by (cases eo) auto
qed

lemma notFound_step:
  assumes run: "createVeleroBackupAndSyncWithNonAdminBackup env r nab s = (res, nab', s')"
    and uuid: "noBackupUUID nab = False"
    and absent: "GetVeleroBackupByLabel env (OADPNamespace r) (backupUUID nab) s = (Inr None, s1)"
    and guard: "CheckLabelAnnotationValueIsValid env (Labels (nab_ObjectMeta nab)) (NabSyncLabel env)
                \<or> Phase (nab_Status nab) = NonAdminPhaseCreated"
  shows "veleroBackupNotFound env nab s1 = (res, nab', s')"
  using run uuid absent guard
  by (simp add: createVeleroBackupAndSyncWithNonAdminBackup_def)

lemma exampleGet:
  "tenantNab c = Some nab \<Longrightarrow> Namespace (nab_ObjectMeta nab) = ''team-a''
     \<Longrightarrow> Name (nab_ObjectMeta nab) = ''db''
     \<Longrightarrow> clientGetNab (req_Namespace exampleRequest) (req_Name exampleRequest)
           \<lparr>cl = c, faults = [], writes = []\<rparr> = (Inr nab, \<lparr>cl = c, faults = [], writes = []\<rparr>)"
  by (simp add: clientGetNab_def apiCall_def exampleRequest_def)

lemma lookup_quiet:
  assumes "GetVeleroBackupByLabel env (OADPNamespace (r::reconciler)) uuid s = (g, s1)"
    and "synced nab s"
  shows "synced nab s1" "createdBackups (writes s1) = createdBackups (writes s)"
    "set (faults s1) \<subseteq> set (faults s)"
proof -
  from GetVeleroBackupByLabel_spec[OF assms(1)] have q: "quiet s s1" by simp
  from quiet_synced[OF q assms(2)] show "synced nab s1" .
  from q show "createdBackups (writes s1) = createdBackups (writes s)"
    "set (faults s1) \<subseteq> set (faults s)" by (simp_all add: quiet_def)
qed



lemma created_backup_gone:
  assumes created: "Phase (nab_Status nab) = NonAdminPhaseCreated"
    and queued: "IsStatusConditionTrue (Conditions (nab_Status nab)) NonAdminConditionQueued"
    and uuid: "noBackupUUID nab = False"
    and absent: "GetVeleroBackupByLabel env (OADPNamespace r) (backupUUID nab) s = (Inr None, s1)"
    and sy: "synced nab s"
    and run: "createVeleroBackupAndSyncWithNonAdminBackup env r nab s = (res, nab', s')"
  shows "createdBackups (writes s') = createdBackups (writes s)
         \<and> ((res = (False, Some (TerminalError (Plain finalizedMessage)))
              \<and> synced nab' s'
              \<and> Phase (nab_Status nab') = NonAdminPhaseBackingOff
              \<and> FindStatusCondition (Conditions (nab_Status nab')) NonAdminConditionAccepted
                  = Some \<lparr>c_Type = NonAdminConditionAccepted, c_Status = ConditionFalse,
                          c_Reason = ''VeleroBackupNotFound'', c_Message = finalizedMessage\<rparr>)
             \<or> (\<exists>e. res = (False, Some e) \<and> Some e \<in> set (faults s)))"
proof -
  note l = lookup_quiet[OF absent sy]
  from notFound_step[OF run uuid absent] created
  have nf: "veleroBackupNotFound env nab s1 = (res, nab', s')" by simp
  from veleroBackupNotFound_result[OF nf l(1), of finalizedMessage] queued l(2,3)
  show ?thesis by auto
qed

lemma clientStatusUpdate_stored:
  assumes run: "clientStatusUpdate n0 s = (None, nab', s')"
    and sy: "synced nab s" and m: "nab_ObjectMeta n0 = nab_ObjectMeta nab" "nab_Spec n0 = nab_Spec nab"
  shows "nab' = n0" "cl s' = (cl s)\<lparr>tenantNab := Some n0\<rparr>"
proof -
  from clientStatusUpdate_spec[OF run] obtain old s1 where
    a: "tenantNab (cl s) = Some old" "quiet s s1"
      "nab' = old\<lparr>nab_Status := nab_Status n0\<rparr>" "s' = send (StatusUpdate nab') s1"
    by auto
  from a(1) sy have "old = nab" by (simp add: synced_def)
  with a(3) m show eq: "nab' = n0" by simp
  from a(2) have "cl s1 = cl s" by (simp add: quiet_def)
  with a(4) eq show "cl s' = (cl s)\<lparr>tenantNab := Some n0\<rparr>" by (simp add: send_def)
qed

lemma initNabCreate_result:
  assumes run: "initNabCreate env r nab s = (res, nab', s')" and sy: "synced nab s"
  shows "createdBackups (writes s') = createdBackups (writes s)
         \<and> set (faults s') \<subseteq> set (faults s)
         \<and> ((\<exists>e. res = (False, Some e) \<and> Some e \<in> set (faults s))
             \<or> (res = (False, None) \<and> nab' = initialised nab \<and> synced nab' s'
                 \<and> cl s' = (cl s)\<lparr>tenantNab := Some (initialised nab)\<rparr>))"
proof (cases "Phase (nab_Status nab) = PhaseUnset")
  case False
  from sy have "(cl s)\<lparr>tenantNab := Some nab\<rparr> = cl s" by (simp add: synced_def)
  with False run sy show ?thesis by (simp add: initNabCreate_def initialised_def)
next
  case True
  let ?n0 = "setPhase nab NonAdminPhaseNew"
  obtain eo n1 s1 where u: "clientStatusUpdate ?n0 s = (eo, n1, s1)"
    by (cases "clientStatusUpdate ?n0 s") auto
  have m: "nab_ObjectMeta ?n0 = nab_ObjectMeta nab" "nab_Spec ?n0 = nab_Spec nab"
    by (simp_all add: setPhase_def)
  from run True u have r: "res = (False, eo)" "nab' = n1" "s' = s1"
    by (cases eo; simp add: initNabCreate_def updateNonAdminPhase_eq)+
  note t = clientStatusUpdate_result[OF u sy m]
  show ?thesis
  proof (cases eo)
    case (Some e)
    with t r show ?thesis by simp
  next
    case None
    with u have "clientStatusUpdate ?n0 s = (None, n1, s1)" by simp
    from clientStatusUpdate_stored[OF this sy m] t r None True show ?thesis
      by (simp add: initialised_def)
  qed
qed

lemma validateSpec_rejects:
  assumes run: "validateSpec env r nab s = (res, nab', s')" and sy: "synced nab s"
    and invalid: "ValidateBackupSpec env (cl s) (OADPNamespace r) nab (EnforcedBackupSpec r) = Some err"
  shows "createdBackups (writes s') = createdBackups (writes s)
         \<and> ((res = (False, Some (TerminalError err)) \<and> synced nab' s'
              \<and> Phase (nab_Status nab') = NonAdminPhaseBackingOff
              \<and> FindStatusCondition (Conditions (nab_Status nab')) NonAdminConditionAccepted
                  = Some \<lparr>c_Type = NonAdminConditionAccepted, c_Status = ConditionFalse,
                          c_Reason = ''InvalidBackupSpec'', c_Message = Error err\<rparr>)
             \<or> (\<exists>e. res = (False, Some e) \<and> Some e \<in> set (faults s)))"
proof -
  let ?c = "\<lparr>c_Type = NonAdminConditionAccepted, c_Status = ConditionFalse,
              c_Reason = ''InvalidBackupSpec'', c_Message = Error err\<rparr>"
  obtain eo n1 s1 where u: "setPhaseAndCondition nab NonAdminPhaseBackingOff ?c s = (eo, n1, s1)"
    by (cases "setPhaseAndCondition nab NonAdminPhaseBackingOff ?c s") auto
  from run invalid u have r: "res = (False, case eo of Some e \<Rightarrow> Some e
                                       | None \<Rightarrow> Some (TerminalError err))"
      "nab' = n1" "s' = s1"
    by (cases eo; simp add: validateSpec_def)+
  from setPhaseAndCondition_result[OF u sy] r show ?thesis
    by (cases eo) auto
qed



section \<open>The claims\<close>

text \<open>
  Claim C1. Every engine backup a reconciliation pass creates has its included namespaces
  set to the one-element list of the namespace of the reconciled NonAdminBackup, whatever
  the tenant's spec and the enforced spec contain, and whichever API calls fail.
\<close>

theorem C1_included_namespaces:
  assumes "Reconcile env r req c schedule = (res, s')"
    and "b \<in> set (createdBackups (writes s'))"
  shows "IncludedNamespaces (b_Spec b) = Some [req_Namespace req]"
proof -
  from assms(2) have "CreateBackup b \<in> set (writes s')" by (simp add: createdBackups_mem)
  then obtain c1 where "(c1, CreateBackup b) \<in> set (sentIn c (writes s'))"
    using sentIn_mem by blast
  from Reconcile_writes_ok[OF assms(1) this] show ?thesis by auto
qed

text \<open>
  The first pass on the fresh object \<open>team-a/db\<close> creates one engine backup, and its
  included namespaces are \<open>[team-a]\<close>.
\<close>

theorem C1_witness:
  "map (\<lambda>b. IncludedNamespaces (b_Spec b))
     (createdBackups (writes (snd (examplePass exampleCluster)))) = [Some [''team-a'']]"
proof -
  have "length (createdBackups (writes (snd (examplePass exampleCluster)))) = 1"
    by code_simp
  then obtain b where b: "createdBackups (writes (snd (examplePass exampleCluster))) = [b]"
    by (cases "createdBackups (writes (snd (examplePass exampleCluster)))") auto
  then have "b \<in> set (createdBackups (writes (snd (examplePass exampleCluster))))" by simp
  from C1_included_namespaces[OF examplePass_run this]
  have "IncludedNamespaces (b_Spec b) = Some [''team-a'']" by (simp add: exampleRequest_def)
  with b show ?thesis by simp
qed

text \<open>
  Claim C2, as amended. The enforcement loop of the code is the spec's merge: each enforced
  field is copied in exactly when it is non-zero and the tenant's field is zero, so a
  non-zero tenant field is never replaced by an enforced value. The spec written to a
  newly created engine backup is that merge followed by the controller's own settings.
  The included namespaces are the tenant's namespace. The storage location is empty when
  the merge names none, and otherwise the Velero storage location of the tenant's
  NonAdminBackupStorageLocation of that name in the tenant's namespace. The always-excluded
  resources are appended to the scoped exclusion lists when the merge uses a scoped
  filter, and to the excluded resources otherwise. Every other field of the written spec
  equals the merge.
\<close>

theorem C2_engine_spec:
  fixes r :: reconciler and nab :: NonAdminBackup and req :: Request
  defines "m \<equiv> specMerge (EnforcedBackupSpec r) (BackupSpecRef (nab_Spec nab))"
  assumes run: "Reconcile env r req c schedule = (res, s')"
    and nab: "tenantNab c = Some nab"
    and b: "b \<in> set (createdBackups (writes s'))"
  shows "enforceBackupSpec (EnforcedBackupSpec r) (BackupSpecRef (nab_Spec nab)) = m
    \<and> (b_Spec b)\<lparr>StorageLocation := []\<rparr>
        = excludeNacResources (m\<lparr>IncludedNamespaces := Some [req_Namespace req], StorageLocation := []\<rparr>)
    \<and> IncludedNamespaces (b_Spec b) = Some [req_Namespace req]
    \<and> ExcludedNamespaces (b_Spec b) = ExcludedNamespaces m
    \<and> IncludedResources (b_Spec b) = IncludedResources m
    \<and> IncludedClusterScopedResources (b_Spec b) = IncludedClusterScopedResources m
    \<and> IncludedNamespaceScopedResources (b_Spec b) = IncludedNamespaceScopedResources m
    \<and> SnapshotVolumes (b_Spec b) = SnapshotVolumes m
    \<and> TTL (b_Spec b) = TTL m
    \<and> IncludeClusterResources (b_Spec b) = IncludeClusterResources m
    \<and> VolumeSnapshotLocations (b_Spec b) = VolumeSnapshotLocations m
    \<and> DefaultVolumesToFsBackup (b_Spec b) = DefaultVolumesToFsBackup m
    \<and> SnapshotMoveData (b_Spec b) = SnapshotMoveData m
    \<and> DataMover (b_Spec b) = DataMover m
    \<and> (if StorageLocation m = [] then StorageLocation (b_Spec b) = []
        else storageLocationOf c (req_Namespace req) (StorageLocation m)
               = Some (StorageLocation (b_Spec b)))
    \<and> (if usesScopedFilters m
        then ExcludedResources (b_Spec b) = ExcludedResources m
             \<and> ExcludedNamespaceScopedResources (b_Spec b)
                 = Some (sliceElems (ExcludedNamespaceScopedResources m)
                         @ alwaysExcludedNamespacedResources)
             \<and> ExcludedClusterScopedResources (b_Spec b)
                 = Some (sliceElems (ExcludedClusterScopedResources m)
                         @ alwaysExcludedClusterResources)
        else ExcludedResources (b_Spec b)
                 = Some (sliceElems (ExcludedResources m) @ alwaysExcludedNamespacedResources
                         @ alwaysExcludedClusterResources)
             \<and> ExcludedNamespaceScopedResources (b_Spec b) = ExcludedNamespaceScopedResources m
             \<and> ExcludedClusterScopedResources (b_Spec b) = ExcludedClusterScopedResources m)"
proof -
  let ?sp = "m\<lparr>IncludedNamespaces := Some [req_Namespace req], StorageLocation := []\<rparr>"
  from b have "CreateBackup b \<in> set (writes s')" by (simp add: createdBackups_mem)
  then obtain c1 where w: "(c1, CreateBackup b) \<in> set (sentIn c (writes s'))"
    using sentIn_mem by blast
  from Reconcile_writes_ok[OF run w] nab
  have ns: "IncludedNamespaces (b_Spec b) = Some [req_Namespace req]"
    and sp: "(b_Spec b)\<lparr>StorageLocation := []\<rparr>
               = engineSpec r (req_Namespace req) (BackupSpecRef (nab_Spec nab)) []"
    and lr: "locationResolved c1 (req_Namespace req)
               (StorageLocation (enforceBackupSpec (EnforcedBackupSpec r) (BackupSpecRef (nab_Spec nab))))
               (StorageLocation (b_Spec b))"
    by auto
  note f = unset_location_fields[OF sp]
  have e: "engineSpec r (req_Namespace req) (BackupSpecRef (nab_Spec nab)) [] = excludeNacResources ?sp"
    by (simp add: engineSpec_def enforceBackupSpec_specMerge m_def)
  have old: "enforceBackupSpec (EnforcedBackupSpec r) (BackupSpecRef (nab_Spec nab)) = m
    \<and> (b_Spec b)\<lparr>StorageLocation := []\<rparr> = excludeNacResources ?sp
    \<and> IncludedNamespaces (b_Spec b) = Some [req_Namespace req]
    \<and> ExcludedNamespaces (b_Spec b) = ExcludedNamespaces m
    \<and> IncludedResources (b_Spec b) = IncludedResources m
    \<and> IncludedClusterScopedResources (b_Spec b) = IncludedClusterScopedResources m
    \<and> IncludedNamespaceScopedResources (b_Spec b) = IncludedNamespaceScopedResources m
    \<and> SnapshotVolumes (b_Spec b) = SnapshotVolumes m
    \<and> TTL (b_Spec b) = TTL m
    \<and> IncludeClusterResources (b_Spec b) = IncludeClusterResources m
    \<and> VolumeSnapshotLocations (b_Spec b) = VolumeSnapshotLocations m
    \<and> DefaultVolumesToFsBackup (b_Spec b) = DefaultVolumesToFsBackup m
    \<and> SnapshotMoveData (b_Spec b) = SnapshotMoveData m
    \<and> DataMover (b_Spec b) = DataMover m"
    unfolding f engineSpec_fields
    using ns sp e by (simp add: enforceBackupSpec_specMerge m_def)
  from sentIn_locations[OF w] have "storageLocationOf c1 (req_Namespace req) (StorageLocation m)
      = storageLocationOf c (req_Namespace req) (StorageLocation m)"
    by (rule storageLocationOf_cong)
  with lr have loc: "if StorageLocation m = [] then StorageLocation (b_Spec b) = []
        else storageLocationOf c (req_Namespace req) (StorageLocation m)
               = Some (StorageLocation (b_Spec b))"
    by (auto simp: locationResolved_def enforceBackupSpec_specMerge m_def split: if_splits)
  from sp e have sp': "(b_Spec b)\<lparr>StorageLocation := []\<rparr> = excludeNacResources ?sp" by simp
  note x = unset_location_exclusions[OF sp']
  have u: "usesScopedFilters ?sp = usesScopedFilters m" by (simp add: usesScopedFilters_def)
  have ex: "if usesScopedFilters m
        then ExcludedResources (b_Spec b) = ExcludedResources m
             \<and> ExcludedNamespaceScopedResources (b_Spec b)
                 = Some (sliceElems (ExcludedNamespaceScopedResources m)
                         @ alwaysExcludedNamespacedResources)
             \<and> ExcludedClusterScopedResources (b_Spec b)
                 = Some (sliceElems (ExcludedClusterScopedResources m)
                         @ alwaysExcludedClusterResources)
        else ExcludedResources (b_Spec b)
                 = Some (sliceElems (ExcludedResources m) @ alwaysExcludedNamespacedResources
                         @ alwaysExcludedClusterResources)
             \<and> ExcludedNamespaceScopedResources (b_Spec b) = ExcludedNamespaceScopedResources m
             \<and> ExcludedClusterScopedResources (b_Spec b) = ExcludedClusterScopedResources m"
  proof (cases "usesScopedFilters m")
    case True
    with u have "usesScopedFilters ?sp" by simp
    from excludeNacResources_scoped[OF this] True show ?thesis unfolding x by simp
  next
    case False
    with u have "\<not> usesScopedFilters ?sp" by simp
    from excludeNacResources_unscoped[OF this] False show ?thesis unfolding x by simp
  qed
  from old loc ex show ?thesis by (simp only: simp_thms)
qed

text \<open>
  With an enforced TTL of 72 and a tenant spec that names the storage location \<open>loc1\<close>,
  the engine backup of the first pass has a TTL of 72, the included namespaces
  \<open>[team-a]\<close>, the storage location \<open>velero-loc\<close> and the ten always-excluded resources.
\<close>

theorem C2_witness:
  "map (\<lambda>b. (TTL (b_Spec b), IncludedNamespaces (b_Spec b), StorageLocation (b_Spec b),
              ExcludedResources (b_Spec b)))
     (createdBackups (writes (snd (examplePass locatedCluster))))
   = [(72, Some [''team-a''], ''velero-loc'',
       Some [''nonadminbackups'', ''nonadminrestores'', ''nonadminbackupstoragelocations'',
             ''securitycontextconstraints'', ''clusterroles'', ''clusterrolebindings'',
             ''priorityclasses'', ''customresourcedefinitions'',
             ''virtualmachineclusterinstancetypes'', ''virtualmachineclusterpreferences''])]"
proof -
  define located where "located = exampleNab\<lparr>nab_Spec := (nab_Spec exampleNab)\<lparr>BackupSpecRef :=
      (BackupSpecRef (nab_Spec exampleNab))\<lparr>StorageLocation := ''loc1''\<rparr>\<rparr>\<rparr>"
  have "length (createdBackups (writes (snd (examplePass locatedCluster)))) = 1"
    by code_simp
  then obtain b where b: "createdBackups (writes (snd (examplePass locatedCluster))) = [b]"
    by (cases "createdBackups (writes (snd (examplePass locatedCluster)))") auto
  then have mem: "b \<in> set (createdBackups (writes (snd (examplePass locatedCluster))))" by simp
  have st: "tenantNab locatedCluster = Some located"
    by (simp add: locatedCluster_def editSpec_def exampleCluster_def clusterWith_def located_def)
  let ?m = "specMerge (EnforcedBackupSpec exampleReconciler) (BackupSpecRef (nab_Spec located))"
  have m: "TTL ?m = 72" "StorageLocation ?m = ''loc1''" "\<not> usesScopedFilters ?m"
    "ExcludedResources ?m = None"
    by (simp_all add: specMerge_def mergedField_def exampleReconciler_def exampleNab_def
        zeroBackupSpec_def located_def usesScopedFilters_def sliceElems_def)
  have l: "storageLocationOf locatedCluster ''team-a'' ''loc1'' = Some ''velero-loc''"
    by (simp add: storageLocationOf_def locatedCluster_def exampleLocation_def exampleNab_def)
  from C2_engine_spec[OF examplePass_run st mem] m l
  have "TTL (b_Spec b) = 72 \<and> IncludedNamespaces (b_Spec b) = Some [''team-a'']
        \<and> StorageLocation (b_Spec b) = ''velero-loc''
        \<and> ExcludedResources (b_Spec b)
            = Some [''nonadminbackups'', ''nonadminrestores'', ''nonadminbackupstoragelocations'',
                    ''securitycontextconstraints'', ''clusterroles'', ''clusterrolebindings'',
                    ''priorityclasses'', ''customresourcedefinitions'',
                    ''virtualmachineclusterinstancetypes'', ''virtualmachineclusterpreferences'']"
    by (simp add: exampleRequest_def sliceElems_def alwaysExcludedNamespacedResources_def
        alwaysExcludedClusterResources_def)
  with b show ?thesis by simp
qed

text \<open>
  The claim as stated fails: for the fresh object with an empty spec the written spec is
  not the merge, since the merge has no included namespaces and the written spec has
  \<open>[team-a]\<close>.
\<close>

theorem C2_counterexample:
  "\<not> (\<forall>b \<in> set (createdBackups (writes (snd (examplePass exampleCluster)))).
        b_Spec b = specMerge (EnforcedBackupSpec exampleReconciler) (BackupSpecRef (nab_Spec exampleNab)))"
proof
  assume a: "\<forall>b \<in> set (createdBackups (writes (snd (examplePass exampleCluster)))).
        b_Spec b = specMerge (EnforcedBackupSpec exampleReconciler) (BackupSpecRef (nab_Spec exampleNab))"
  have "map (\<lambda>b. IncludedNamespaces (b_Spec b))
          (createdBackups (writes (snd (examplePass exampleCluster)))) = [Some [''team-a'']]"
    by code_simp
  then obtain b where b: "b \<in> set (createdBackups (writes (snd (examplePass exampleCluster))))"
    and i: "IncludedNamespaces (b_Spec b) = Some [''team-a'']"
    by (cases "createdBackups (writes (snd (examplePass exampleCluster)))") auto
  have "IncludedNamespaces (specMerge (EnforcedBackupSpec exampleReconciler)
           (BackupSpecRef (nab_Spec exampleNab))) = None"
    by (simp add: specMerge_def mergedField_def exampleReconciler_def exampleNab_def zeroBackupSpec_def)
  with a b i show False by simp
qed

text \<open>
  Claim C3. A pass that has read the NonAdminBackup runs the step list of exactly one of
  the four paths, and the path is chosen from the object just read, in this order:
  \<open>spec.deleteBackup\<close> selects the graceful-delete path; otherwise a non-zero deletion
  timestamp selects the direct-delete path; otherwise a valid sync label selects the
  sync-import path; otherwise the create/update path runs.
\<close>

theorem C3_path_selection:
  assumes "clientGetNab (req_Namespace req) (req_Name req)
             \<lparr>cl = c, faults = schedule, writes = []\<rparr> = (Inr nab, s1)"
  shows "Reconcile env r req c schedule = runSteps (pathSteps env r (selectedPath env nab)) nab s1
         \<and> reconcileSteps env r nab = pathSteps env r (selectedPath env nab)
         \<and> tenantNab c = Some nab
         \<and> (selectedPath env nab = GracefulDeletePath) = DeleteBackup (nab_Spec nab)
         \<and> (selectedPath env nab = DirectDeletePath)
             = (\<not> DeleteBackup (nab_Spec nab)
                \<and> \<not> timeIsZero (DeletionTimestamp (nab_ObjectMeta nab)))
         \<and> (selectedPath env nab = SyncImportPath)
             = (\<not> DeleteBackup (nab_Spec nab)
                \<and> timeIsZero (DeletionTimestamp (nab_ObjectMeta nab))
                \<and> CheckLabelAnnotationValueIsValid env (Labels (nab_ObjectMeta nab)) (NabSyncLabel env))
         \<and> (selectedPath env nab = CreateUpdatePath)
             = (\<not> DeleteBackup (nab_Spec nab)
                \<and> timeIsZero (DeletionTimestamp (nab_ObjectMeta nab))
                \<and> \<not> CheckLabelAnnotationValueIsValid env (Labels (nab_ObjectMeta nab)) (NabSyncLabel env))"
proof -
  from clientGetNab_spec[OF assms] have "tenantNab c = Some nab" by simp
  moreover have "Reconcile env r req c schedule
                   = runSteps (pathSteps env r (selectedPath env nab)) nab s1"
    using assms by (simp add: Reconcile_def reconcileSteps_pathSteps)
  ultimately show ?thesis
    by (simp add: reconcileSteps_pathSteps selectedPath_def)
qed

text \<open>
  Four objects, one for each path: with \<open>deleteBackup\<close> set (and a deletion timestamp and
  a sync label besides), with a deletion timestamp (and a sync label), with a sync label,
  and the fresh object, whose pass runs the steps of the create/update path.
\<close>

theorem C3_witness:
  "selectedPath exampleEnv gracefulNab = GracefulDeletePath
   \<and> selectedPath exampleEnv directNab = DirectDeletePath
   \<and> selectedPath exampleEnv syncNab = SyncImportPath
   \<and> selectedPath exampleEnv exampleNab = CreateUpdatePath
   \<and> examplePass exampleCluster
       = runSteps (pathSteps exampleEnv exampleReconciler CreateUpdatePath) exampleNab
           \<lparr>cl = exampleCluster, faults = [], writes = []\<rparr>"
proof -
  have g: "\<And>nab. Namespace (nab_ObjectMeta nab) = ''team-a'' \<Longrightarrow> Name (nab_ObjectMeta nab) = ''db''
     \<Longrightarrow> clientGetNab (req_Namespace exampleRequest) (req_Name exampleRequest)
           \<lparr>cl = clusterWith nab [], faults = [], writes = []\<rparr>
         = (Inr nab, \<lparr>cl = clusterWith nab [], faults = [], writes = []\<rparr>)"
    by (rule exampleGet) (simp_all add: clusterWith_def)
  have 1: "selectedPath exampleEnv gracefulNab = GracefulDeletePath"
    using C3_path_selection[OF g[of gracefulNab], of exampleEnv exampleReconciler]
    by (simp add: gracefulNab_def syncNab_def exampleNab_def)
  have 2: "selectedPath exampleEnv directNab = DirectDeletePath"
    using C3_path_selection[OF g[of directNab], of exampleEnv exampleReconciler]
    by (simp add: directNab_def syncNab_def exampleNab_def timeIsZero_def)
  have 3: "selectedPath exampleEnv syncNab = SyncImportPath"
    using C3_path_selection[OF g[of syncNab], of exampleEnv exampleReconciler]
    by (simp add: syncNab_def exampleNab_def timeIsZero_def exampleEnv_def)
  have 4: "selectedPath exampleEnv exampleNab = CreateUpdatePath"
    using C3_path_selection[OF g[of exampleNab], of exampleEnv exampleReconciler]
    by (simp add: exampleNab_def timeIsZero_def exampleEnv_def)
  have 5: "examplePass exampleCluster
       = runSteps (pathSteps exampleEnv exampleReconciler CreateUpdatePath) exampleNab
           \<lparr>cl = exampleCluster, faults = [], writes = []\<rparr>"
    using C3_path_selection[OF g[of exampleNab], of exampleEnv exampleReconciler] 4
    by (simp add: exampleNab_def examplePass_def exampleCluster_def)
  from 1 2 3 4 5 show ?thesis by (intro conjI)
qed

text \<open>
  Claim C4. In the two paths that can create an engine backup (no deletion requested) the
  step list ends with the finalizer step followed by the create-or-adopt step. In every
  pass an engine backup is created only in a cluster in which the stored NonAdminBackup
  carries the finalizer, and an update that leaves the object without the finalizer is
  sent only in a cluster in which no engine backup carries the object's UUID label.
\<close>

theorem C4_finalizer_discipline:
  assumes run: "Reconcile env r req c schedule = (res, s')"
  shows "(deletionRequested nab = False \<longrightarrow>
            (\<exists>pre. reconcileSteps env r nab
                     = pre @ [setFinalizerOnNonAdminBackup env r,
                              createVeleroBackupAndSyncWithNonAdminBackup env r]))
    \<and> ((c1, CreateBackup b) \<in> set (sentIn c (writes s')) \<longrightarrow> storedFinalizer env c1)
    \<and> ((c2, Update n) \<in> set (sentIn c (writes s')) \<longrightarrow>
          NabFinalizerName env \<in> set (Finalizers (nab_ObjectMeta n))
          \<or> (noBackupUUID n = False \<and> engineBackups env r (backupUUID n) c2 = []))"
proof (intro conjI impI)
  assume "deletionRequested nab = False"
  then show "\<exists>pre. reconcileSteps env r nab
                     = pre @ [setFinalizerOnNonAdminBackup env r,
                              createVeleroBackupAndSyncWithNonAdminBackup env r]"
    by (auto simp: reconcileSteps_def deletionRequested_def)
next
  assume "(c1, CreateBackup b) \<in> set (sentIn c (writes s'))"
  from Reconcile_writes_ok[OF run this] show "storedFinalizer env c1" by auto
next
  assume "(c2, Update n) \<in> set (sentIn c (writes s'))"
  from Reconcile_writes_ok[OF run this]
  show "NabFinalizerName env \<in> set (Finalizers (nab_ObjectMeta n))
          \<or> (noBackupUUID n = False \<and> engineBackups env r (backupUUID n) c2 = [])"
    by auto
qed

text \<open>
  The first pass on the fresh object creates the engine backup after the finalizer was
  stored; the pass on the deleted object whose engine backup is gone removes the finalizer.
\<close>

theorem C4_witness:
  "(\<exists>pre. reconcileSteps exampleEnv exampleReconciler exampleNab
             = pre @ [setFinalizerOnNonAdminBackup exampleEnv exampleReconciler,
                      createVeleroBackupAndSyncWithNonAdminBackup exampleEnv exampleReconciler])
   \<and> (\<exists>c1 b. (c1, CreateBackup b) \<in> set (sentIn exampleCluster (writes (snd (examplePass exampleCluster))))
          \<and> storedFinalizer exampleEnv c1)
   \<and> (\<exists>c2 n. (c2, Update n) \<in> set (sentIn deletedCluster (writes (snd (examplePass deletedCluster))))
          \<and> NabFinalizerName exampleEnv \<notin> set (Finalizers (nab_ObjectMeta n))
          \<and> engineBackups exampleEnv exampleReconciler (backupUUID n) c2 = [])"
proof -
  have d: "deletionRequested exampleNab = False"
    by (simp add: deletionRequested_def exampleNab_def timeIsZero_def)
  have "length (createdBackups (writes (snd (examplePass exampleCluster)))) = 1"
    by code_simp
  then obtain b where "b \<in> set (createdBackups (writes (snd (examplePass exampleCluster))))"
    by (cases "createdBackups (writes (snd (examplePass exampleCluster)))") auto
  then have "CreateBackup b \<in> set (writes (snd (examplePass exampleCluster)))"
    by (simp add: createdBackups_mem)
  then obtain c1 where c1: "(c1, CreateBackup b)
      \<in> set (sentIn exampleCluster (writes (snd (examplePass exampleCluster))))"
    using sentIn_mem by blast
  have "updatedFinalizers (writes (snd (examplePass deletedCluster))) = [[]]"
    by code_simp
  then have "[] \<in> set (updatedFinalizers (writes (snd (examplePass deletedCluster))))" by simp
  then obtain n where n: "Update n \<in> set (writes (snd (examplePass deletedCluster)))"
    and fin: "Finalizers (nab_ObjectMeta n) = []"
    by (auto simp: updatedFinalizers_mem)
  from n obtain c2 where c2: "(c2, Update n)
      \<in> set (sentIn deletedCluster (writes (snd (examplePass deletedCluster))))"
    using sentIn_mem by blast
  from C4_finalizer_discipline[OF examplePass_run, where nab = exampleNab and c = exampleCluster
      and ?c1.0 = c1 and b = b] d c1
  have one: "(\<exists>pre. reconcileSteps exampleEnv exampleReconciler exampleNab
             = pre @ [setFinalizerOnNonAdminBackup exampleEnv exampleReconciler,
                      createVeleroBackupAndSyncWithNonAdminBackup exampleEnv exampleReconciler])"
    and two: "storedFinalizer exampleEnv c1" by blast+
  from C4_finalizer_discipline[OF examplePass_run, where c = deletedCluster
      and ?c2.0 = c2 and n = n] c2 fin
  have three: "engineBackups exampleEnv exampleReconciler (backupUUID n) c2 = []" by simp
  from fin have nf: "NabFinalizerName exampleEnv \<notin> set (Finalizers (nab_ObjectMeta n))" by simp
  from c1 two have created:
    "\<exists>c1 b. (c1, CreateBackup b) \<in> set (sentIn exampleCluster (writes (snd (examplePass exampleCluster))))
          \<and> storedFinalizer exampleEnv c1" by blast
  from c2 nf three have removed:
    "\<exists>c2 n. (c2, Update n) \<in> set (sentIn deletedCluster (writes (snd (examplePass deletedCluster))))
          \<and> NabFinalizerName exampleEnv \<notin> set (Finalizers (nab_ObjectMeta n))
          \<and> engineBackups exampleEnv exampleReconciler (backupUUID n) c2 = []" by blast
  from one created removed show ?thesis by (intro conjI)
qed

text \<open>
  Claim C5, as amended. Every status update of a pass changes the stored phase only as
  follows: a pass on an object whose deletion is requested (\<open>deleteBackup\<close> or a deletion
  timestamp) writes \<open>Deleting\<close> or keeps the phase; any other pass keeps the phase, writes
  \<open>New\<close> over an unset phase, or writes \<open>BackingOff\<close> or \<open>Created\<close> over any phase. No
  pass writes an unset phase, and \<open>New\<close> is never written over a set phase.
\<close>

theorem C5_phase_changes:
  assumes run: "Reconcile env r req c schedule = (res, s')"
    and nab: "tenantNab c = Some nab"
    and w: "(c1, StatusUpdate n) \<in> set (sentIn c (writes s'))"
  shows "\<exists>p. storedPhase c1 = Some p
           \<and> phaseChangeAllowed (deletionRequested nab) p (Phase (nab_Status n))"
proof -
  from Reconcile_writes_ok[OF run w] nab show ?thesis
    by (auto simp: storedPhase_def split: option.splits)
qed

text \<open>
  The pass on the settled object whose engine backup was deleted writes \<open>BackingOff\<close>
  over \<open>Created\<close>, which the amended claim allows.
\<close>

theorem C5_witness:
  "\<exists>c1 n. (c1, StatusUpdate n) \<in> set (sentIn lostBackupCluster (writes (snd (examplePass lostBackupCluster))))
     \<and> Phase (nab_Status n) = NonAdminPhaseBackingOff
     \<and> (\<exists>p. storedPhase c1 = Some p \<and> phaseChangeAllowed False p NonAdminPhaseBackingOff)"
proof -
  have "statusPhases (writes (snd (examplePass lostBackupCluster))) = [NonAdminPhaseBackingOff]"
    by code_simp
  then have "NonAdminPhaseBackingOff \<in> set (statusPhases (writes (snd (examplePass lostBackupCluster))))"
    by simp
  then obtain n where n: "StatusUpdate n \<in> set (writes (snd (examplePass lostBackupCluster)))"
    and ph: "Phase (nab_Status n) = NonAdminPhaseBackingOff"
    by (auto simp: statusPhases_mem)
  from n obtain c1 where c1: "(c1, StatusUpdate n)
      \<in> set (sentIn lostBackupCluster (writes (snd (examplePass lostBackupCluster))))"
    using sentIn_mem by blast
  have "Option.is_none (tenantNab lostBackupCluster) = False" by code_simp
  then obtain stored where st: "tenantNab lostBackupCluster = Some stored"
    by (cases "tenantNab lostBackupCluster") (auto simp: Option.is_none_def)
  have "map_option deletionRequested (tenantNab lostBackupCluster) = Some False" by code_simp
  with st have d: "deletionRequested stored = False" by simp
  from C5_phase_changes[OF examplePass_run st c1] d ph c1 show ?thesis by auto
qed

text \<open>
  The claim as stated fails: the settled object is in phase \<open>Created\<close>; after its engine
  backup is deleted by someone else, the next pass stores the phase \<open>BackingOff\<close>, and
  \<open>Created\<close> to \<open>BackingOff\<close> is not an edge of the spec's graph.
\<close>

theorem C5_counterexample:
  "storedPhase lostBackupCluster = Some NonAdminPhaseCreated
   \<and> statusPhases (writes (snd (examplePass lostBackupCluster))) = [NonAdminPhaseBackingOff]
   \<and> storedPhase (cl (snd (examplePass lostBackupCluster))) = Some NonAdminPhaseBackingOff
   \<and> phaseDAG NonAdminPhaseCreated NonAdminPhaseBackingOff = False"
  by code_simp




text \<open>
  Claim C7 fails in the code. The settled object \<open>team-a/db\<close> of the create/update path,
  with condition \<open>Queued\<close> true, whose engine backup is gone: in phase \<open>Created\<close> the pass
  refuses with the terminal error that asks for a new NonAdminBackup and creates nothing.
  The same object after a rejected edit of its spec, since undone, is in phase
  \<open>BackingOff\<close> with \<open>Queued\<close> still true: its pass creates a new engine backup and ends
  without error in phase \<open>Created\<close>. The refusal is guarded by the phase, the message is
  chosen by the condition.
\<close>

theorem C7_recreated_backup:
  "map_option (selectedPath exampleEnv) (tenantNab lostBackupCluster) = Some CreateUpdatePath
   \<and> storedConditionTrue lostBackupCluster NonAdminConditionQueued
   \<and> storedPhase lostBackupCluster = Some NonAdminPhaseCreated
   \<and> length (engineBackups exampleEnv exampleReconciler ''team-a-db'' lostBackupCluster) = 0
   \<and> fst (examplePass lostBackupCluster) = (False, Some (TerminalError (Plain finalizedMessage)))
   \<and> length (createdBackups (writes (snd (examplePass lostBackupCluster)))) = 0
   \<and> map_option (selectedPath exampleEnv) (tenantNab repairedCluster) = Some CreateUpdatePath
   \<and> storedConditionTrue repairedCluster NonAdminConditionQueued
   \<and> storedPhase repairedCluster = Some NonAdminPhaseBackingOff
   \<and> map_option backupUUID (tenantNab repairedCluster) = Some ''team-a-db''
   \<and> length (engineBackups exampleEnv exampleReconciler ''team-a-db'' repairedCluster) = 0
   \<and> fst (examplePass repairedCluster) = (False, None)
   \<and> length (createdBackups (writes (snd (examplePass repairedCluster)))) = 1
   \<and> storedPhase (cl (snd (examplePass repairedCluster))) = Some NonAdminPhaseCreated"
  by code_simp

text \<open>
  Claim C8. In a pass of the create/update path on an object whose spec the validation
  rejects with an error, no engine backup is created; and unless an API call failed, the
  pass returns that error as a terminal error without requeue, and the stored object has
  phase \<open>BackingOff\<close> and condition \<open>Accepted=False\<close> with reason \<open>InvalidBackupSpec\<close> and
  the message of the error.
\<close>

theorem C8_invalid_spec:
  assumes get: "clientGetNab (req_Namespace req) (req_Name req)
                  \<lparr>cl = c, faults = schedule, writes = []\<rparr> = (Inr nab, s1)"
    and path: "selectedPath env nab = CreateUpdatePath"
    and invalid: "ValidateBackupSpec env (c\<lparr>tenantNab := Some (initialised nab)\<rparr>) (OADPNamespace r)
                    (initialised nab) (EnforcedBackupSpec r) = Some err"
    and run: "Reconcile env r req c schedule = (res, s')"
  shows "createdBackups (writes s') = []
         \<and> ((res = (False, Some (TerminalError err))
              \<and> storedPhase (cl s') = Some NonAdminPhaseBackingOff
              \<and> storedCondition (cl s') NonAdminConditionAccepted
                  = Some \<lparr>c_Type = NonAdminConditionAccepted, c_Status = ConditionFalse,
                          c_Reason = ''InvalidBackupSpec'', c_Message = Error err\<rparr>)
             \<or> (\<exists>e. res = (False, Some e) \<and> Some e \<in> set schedule))"
proof -
  note gs = clientGetNab_spec[OF get]
  then have q: "cl s1 = c" "writes s1 = []" "set (faults s1) \<subseteq> set schedule"
    by (simp_all add: quiet_def)
  from gs q have sy: "synced nab s1" by (simp add: synced_def)
  from run get path
  have rs: "runSteps (initNabCreate env r # validateSpec env r # [setBackupUUIDInStatus env r,
              setFinalizerOnNonAdminBackup env r,
              createVeleroBackupAndSyncWithNonAdminBackup env r]) nab s1 = (res, s')"
    by (simp add: Reconcile_def reconcileSteps_pathSteps)
  from rs show ?thesis
  proof (cases rule: runSteps_Cons_cases)
    case (stop r1 n1)
    from initNabCreate_result[OF stop(1) sy] stop(2) q
    obtain e where e: "createdBackups (writes s') = []" "r1 = (False, Some e)" "Some e \<in> set schedule"
      by auto
    from rs stop(1) e(2) have "res = r1" by simp
    with e show ?thesis by simp
  next
    case (continue n1 s2)
    from initNabCreate_result[OF continue(1) sy] q
    have i: "createdBackups (writes s2) = []" "set (faults s2) \<subseteq> set schedule"
      "n1 = initialised nab" "synced n1 s2" "cl s2 = c\<lparr>tenantNab := Some (initialised nab)\<rparr>"
      by auto
    from invalid i have inv: "ValidateBackupSpec env (cl s2) (OADPNamespace r) n1 (EnforcedBackupSpec r)
                                = Some err" by simp
    from continue(2) show ?thesis
    proof (cases rule: runSteps_Cons_cases)
      case (stop r2 n2)
      note v = validateSpec_rejects[OF stop(1) i(4) inv]
      from v obtain e where "r2 = (False, Some e)" by auto
      with continue(2) stop(1) have res: "res = r2" by simp
      from v i(1) have cb: "createdBackups (writes s') = []" by simp
      from v show ?thesis
      proof (elim conjE disjE exE)
        fix e assume "r2 = (False, Some e)" "Some e \<in> set (faults s2)"
        with res i(2) cb show ?thesis by auto
      next
        assume a: "r2 = (False, Some (TerminalError err))" "synced n2 s'"
          "Phase (nab_Status n2) = NonAdminPhaseBackingOff"
          "FindStatusCondition (Conditions (nab_Status n2)) NonAdminConditionAccepted
             = Some \<lparr>c_Type = NonAdminConditionAccepted, c_Status = ConditionFalse,
                     c_Reason = ''InvalidBackupSpec'', c_Message = Error err\<rparr>"
        from a(2) have "tenantNab (cl s') = Some n2" by (simp add: synced_def)
        with a res cb show ?thesis by (simp add: storedPhase_def storedCondition_def)
      qed
    next
      case (continue n2 s3)
      from validateSpec_rejects[OF continue(1) i(4) inv] show ?thesis by simp
    qed
  qed
qed

text \<open>
  The fresh object \<open>team-a/db\<close> with the included namespaces \<open>[team-b]\<close>: the pass
  returns the terminal error, creates nothing, and stores phase and condition.
\<close>

theorem C8_witness:
  "fst (examplePass invalidCluster) = (False, Some (TerminalError (Plain ''foreign namespace'')))
   \<and> createdBackups (writes (snd (examplePass invalidCluster))) = []
   \<and> storedPhase (cl (snd (examplePass invalidCluster))) = Some NonAdminPhaseBackingOff
   \<and> storedCondition (cl (snd (examplePass invalidCluster))) NonAdminConditionAccepted
       = Some \<lparr>c_Type = NonAdminConditionAccepted, c_Status = ConditionFalse,
               c_Reason = ''InvalidBackupSpec'', c_Message = ''foreign namespace''\<rparr>"
proof -
  define bad where "bad = exampleNab\<lparr>nab_Spec := (nab_Spec exampleNab)\<lparr>BackupSpecRef :=
      (BackupSpecRef (nab_Spec exampleNab))\<lparr>IncludedNamespaces := Some [''team-b'']\<rparr>\<rparr>\<rparr>"
  have t: "tenantNab invalidCluster = Some bad"
    by (simp add: invalidCluster_def editSpec_def exampleCluster_def clusterWith_def bad_def)
  have g: "clientGetNab (req_Namespace exampleRequest) (req_Name exampleRequest)
             \<lparr>cl = invalidCluster, faults = [], writes = []\<rparr>
           = (Inr bad, \<lparr>cl = invalidCluster, faults = [], writes = []\<rparr>)"
    by (rule exampleGet[OF t]) (simp_all add: bad_def exampleNab_def)
  have p: "selectedPath exampleEnv bad = CreateUpdatePath"
    by (simp add: selectedPath_def bad_def exampleNab_def exampleEnv_def timeIsZero_def)
  have v: "ValidateBackupSpec exampleEnv (invalidCluster\<lparr>tenantNab := Some (initialised bad)\<rparr>)
             (OADPNamespace exampleReconciler) (initialised bad) (EnforcedBackupSpec exampleReconciler)
           = Some (Plain ''foreign namespace'')"
    by (simp add: exampleEnv_def initialised_def setPhase_def bad_def exampleNab_def emptyStatus_def)
  from C8_invalid_spec[OF g p v examplePass_run] show ?thesis by simp
qed

text \<open>
  Claim C9 fails in the code. The first pass on the fresh object \<open>team-a/db\<close> succeeds;
  a second pass on the cluster it leaves, with nothing changed in between and no API
  failure, runs the create/update path, again succeeds and sends one status update,
  which leaves the stored status as it was: the queue information counts as updated
  whenever it could be read.
\<close>

theorem C9_second_pass_writes:
  "fst (examplePass exampleCluster) = (False, None)
   \<and> map_option (selectedPath exampleEnv) (tenantNab settledCluster) = Some CreateUpdatePath
   \<and> fst (examplePass settledCluster) = (False, None)
   \<and> statusPhases (writes (snd (examplePass settledCluster))) = [NonAdminPhaseCreated]
   \<and> length (writes (snd (examplePass settledCluster))) = 1
   \<and> map_option nab_Status (tenantNab (cl (snd (examplePass settledCluster))))
       = map_option nab_Status (tenantNab settledCluster)"
  by code_simp

text \<open>
  Claim C10. In the projected child-resource counters, \<open>Total\<close> is the number of listed
  PodVolumeBackup (respectively DataUpload) objects and each per-phase counter is the
  number of listed objects in that phase; an object in a phase that is not recognised
  counts in \<open>Total\<close> only, so the per-phase counters add up to the number of objects in a
  recognised phase, which is at most \<open>Total\<close>. This holds after every update, whatever the
  status held before.
\<close>

theorem C10_child_counters:
  "\<exists>fs dm.
     FileSystemPodVolumeBackupsRef (fst (updateNonAdminBackupPodVolumeBackupStatus status pvbs)) = Some fs
     \<and> fs_Total fs = int (length pvbs)
     \<and> fs_New fs = countPhase pvb_Phase PodVolumeBackupPhaseNew pvbs
     \<and> fs_InProgress fs = countPhase pvb_Phase PodVolumeBackupPhaseInProgress pvbs
     \<and> fs_Failed fs = countPhase pvb_Phase PodVolumeBackupPhaseFailed pvbs
     \<and> fs_Completed fs = countPhase pvb_Phase PodVolumeBackupPhaseCompleted pvbs
     \<and> fsPhaseSum fs = int (length (filter (\<lambda>p. pvbRecognized (pvb_Phase p)) pvbs))
     \<and> fsPhaseSum fs \<le> fs_Total fs
     \<and> DataMoverDataUploadsRef (fst (updateNonAdminBackupDataUploadStatus status' dus)) = Some dm
     \<and> dm_Total dm = int (length dus)
     \<and> dm_New dm = countPhase du_Phase DataUploadPhaseNew dus
     \<and> dm_Accepted dm = countPhase du_Phase DataUploadPhaseAccepted dus
     \<and> dm_Prepared dm = countPhase du_Phase DataUploadPhasePrepared dus
     \<and> dm_InProgress dm = countPhase du_Phase DataUploadPhaseInProgress dus
     \<and> dm_Canceling dm = countPhase du_Phase DataUploadPhaseCanceling dus
     \<and> dm_Canceled dm = countPhase du_Phase DataUploadPhaseCanceled dus
     \<and> dm_Failed dm = countPhase du_Phase DataUploadPhaseFailed dus
     \<and> dm_Completed dm = countPhase du_Phase DataUploadPhaseCompleted dus
     \<and> dmPhaseSum dm = int (length (filter (\<lambda>d. duRecognized (du_Phase d)) dus))
     \<and> dmPhaseSum dm \<le> dm_Total dm"
proof -
  have a: "int (length (filter (\<lambda>p. pvbRecognized (pvb_Phase p)) pvbs)) \<le> int (length pvbs)"
    by simp
  have b: "int (length (filter (\<lambda>d. duRecognized (du_Phase d)) dus)) \<le> int (length dus)"
    by simp
  show ?thesis
    unfolding pvb_counters du_counters
    using a b pvb_recognized_sum[of pvbs] du_recognized_sum[of dus]
    by (simp add: fsPhaseSum_def dmPhaseSum_def)
qed

text \<open>
  Three volume backups, one of them in phase \<open>Canceled\<close>, count as a total of three with
  per-phase counters adding up to two; two data uploads, one in phase \<open>Paused\<close>, count as
  a total of two with per-phase counters adding up to one.
\<close>

theorem C10_witness:
  "\<exists>fs dm.
     FileSystemPodVolumeBackupsRef
       (fst (updateNonAdminBackupPodVolumeBackupStatus emptyStatus examplePodVolumeBackups)) = Some fs
     \<and> fs_Total fs = 3 \<and> fsPhaseSum fs = 2
     \<and> DataMoverDataUploadsRef
       (fst (updateNonAdminBackupDataUploadStatus emptyStatus exampleDataUploads)) = Some dm
     \<and> dm_Total dm = 2 \<and> dmPhaseSum dm = 1"
proof -
  have p: "int (length (filter (\<lambda>p. pvbRecognized (pvb_Phase p)) examplePodVolumeBackups)) = 2"
    by (simp add: examplePodVolumeBackups_def pvbRecognized_def pvbPhase_defs)
  have d: "int (length (filter (\<lambda>d. duRecognized (du_Phase d)) exampleDataUploads)) = 1"
    by (simp add: exampleDataUploads_def duRecognized_def duPhase_defs)
  have l: "int (length examplePodVolumeBackups) = 3" "int (length exampleDataUploads) = 2"
    by (simp_all add: examplePodVolumeBackups_def exampleDataUploads_def)
  from C10_child_counters[of emptyStatus examplePodVolumeBackups emptyStatus exampleDataUploads]
  show ?thesis unfolding p d l by blast
qed

end
